theory Spec2Isabelle
  imports Main "HOL-Library.Sublist"
begin

section \<open>JSON values and the Python operations applied to them\<close>

text \<open>
  The script \<^verbatim>\<open>scripts/update_confluence.py\<close> is a sequential client of a remote wiki
  service. Every value it handles is either a constant of the script or a value decoded
  from a JSON response, so the data model is the JSON value. A Python \<^verbatim>\<open>str\<close> is a
  \<^typ>\<open>string\<close> holding its UTF-8 bytes: the script only concatenates strings and
  tests containment, and both agree on code points and on their UTF-8 encoding. JSON
  numbers are integers (the version numbers of the service); fractional numbers are not
  modelled. A JSON object is an association list read with \<^const>\<open>map_of\<close>.
\<close>

datatype json =
    JNull
  | JBool bool
  | JInt int
  | JStr string
  | JList "json list"
  | JDict "(string \<times> json) list"

text \<open>
  Exceptions come in two kinds. \<open>request_exception\<close> is
  \<^verbatim>\<open>requests.exceptions.RequestException\<close>, the only class the script catches; it
  carries its message and, when the exception has a response object, that response's
  text. \<open>error\<close> collects the exceptions that the operations on decoded values raise
  and that no handler of the script catches.
\<close>

datatype request_exception =
  RequestException (exc_message: string) (exc_response_text: "string option")

datatype error = KeyError string | TypeError | AttributeError

text \<open>\<^verbatim>\<open>obj[key]\<close> for a string key.\<close>

fun py_getitem :: "json \<Rightarrow> string \<Rightarrow> error + json" where
  "py_getitem (JDict kvs) k = (case map_of kvs k of None \<Rightarrow> Inl (KeyError k) | Some v \<Rightarrow> Inr v)"
| "py_getitem _ k = Inl TypeError"

text \<open>\<^verbatim>\<open>obj.get(key, default)\<close>: only a dict has the method.\<close>

fun py_get :: "json \<Rightarrow> string \<Rightarrow> json \<Rightarrow> error + json" where
  "py_get (JDict kvs) k d = Inr (case map_of kvs k of None \<Rightarrow> d | Some v \<Rightarrow> v)"
| "py_get _ k d = Inl AttributeError"

text \<open>
  \<^verbatim>\<open>key in obj\<close> for a string key: key membership in a dict, element membership in a
  list, substring containment in a string, \<^verbatim>\<open>TypeError\<close> otherwise.
\<close>

fun py_in :: "string \<Rightarrow> json \<Rightarrow> error + bool" where
  "py_in k (JDict kvs) = Inr (map_of kvs k \<noteq> None)"
| "py_in k (JList xs) = Inr (JStr k \<in> set xs)"
| "py_in k (JStr s) = Inr (sublist k s)"
| "py_in k _ = Inl TypeError"

text \<open>
  Iteration, as \<^verbatim>\<open>list.extend\<close> performs it on its argument: the items of a list,
  the keys of a dict, the characters of a string (one item per byte here, where Python
  has one per code point; no response of the documented shape reaches that case).
\<close>

fun py_iter :: "json \<Rightarrow> error + json list" where
  "py_iter (JList xs) = Inr xs"
| "py_iter (JDict kvs) = Inr (map (\<lambda>kv. JStr (fst kv)) kvs)"
| "py_iter (JStr s) = Inr (map (\<lambda>c. JStr [c]) s)"
| "py_iter _ = Inl TypeError"

text \<open>\<^verbatim>\<open>s + x\<close> for a string \<open>s\<close>, and \<^verbatim>\<open>x + 1\<close>.\<close>

fun py_str_add :: "string \<Rightarrow> json \<Rightarrow> error + string" where
  "py_str_add s (JStr t) = Inr (s @ t)"
| "py_str_add s _ = Inl TypeError"

fun py_add_one :: "json \<Rightarrow> error + json" where
  "py_add_one (JInt n) = Inr (JInt (n + 1))"
| "py_add_one (JBool b) = Inr (JInt ((if b then 1 else 0) + 1))"
| "py_add_one _ = Inl TypeError"

text \<open>Truth value, as \<^verbatim>\<open>not x\<close> reads it.\<close>

fun py_truthy :: "json \<Rightarrow> bool" where
  "py_truthy JNull = False"
| "py_truthy (JBool b) = b"
| "py_truthy (JInt n) = (n \<noteq> 0)"
| "py_truthy (JStr s) = (s \<noteq> [])"
| "py_truthy (JList xs) = (xs \<noteq> [])"
| "py_truthy (JDict kvs) = (kvs \<noteq> [])"

section \<open>Requests, printed lines and the state of a run\<close>

text \<open>
  An f-string is kept as the list of its fragments: literal text and interpolated
  values. URLs and printed lines are such lists, so that the value interpolated into a
  URL or a line can be read back from it.
\<close>

datatype frag = Lit string | Fmt json | FmtExc request_exception

type_synonym fstring = "frag list"

datatype request = GET fstring json | PUT fstring json

text \<open>
  The remote service is a parameter: a transport answers a GET (the three calls
  \<^verbatim>\<open>requests.get\<close>, \<^verbatim>\<open>raise_for_status\<close> and \<^verbatim>\<open>json\<close> taken together) with a
  \<open>request_exception\<close> or the decoded body, and a PUT (\<^verbatim>\<open>requests.put\<close> and
  \<^verbatim>\<open>raise_for_status\<close>) with a \<open>request_exception\<close> or success, and moves from one
  state of the world to the next. A body that is not JSON makes \<^verbatim>\<open>json\<close> raise the
  \<^verbatim>\<open>JSONDecodeError\<close> of \<^verbatim>\<open>requests\<close>, which is a \<^verbatim>\<open>RequestException\<close> too. The
  credentials and headers are the same constants on every request and are left out of
  the request. The state of a run holds the world, the requests sent so far, the lines
  printed so far and, as a record of what went wrong, the request exceptions that the
  calls of \<^verbatim>\<open>requests\<close> have raised so far.
\<close>

record 'w transport =
  http_get :: "'w \<Rightarrow> fstring \<Rightarrow> json \<Rightarrow> (request_exception + json) \<times> 'w"
  http_put :: "'w \<Rightarrow> fstring \<Rightarrow> json \<Rightarrow> (request_exception + unit) \<times> 'w"

record 'w state =
  world :: 'w
  sent :: "request list"
  out :: "fstring list"
  raised :: "request_exception list"

definition print :: "fstring \<Rightarrow> 'w state \<Rightarrow> 'w state" where
  "print line s = s\<lparr>out := out s @ [line]\<rparr>"

definition requests_get ::
  "'w transport \<Rightarrow> fstring \<Rightarrow> json \<Rightarrow> 'w state \<Rightarrow> (request_exception + json) \<times> 'w state" where
  "requests_get T url params s =
     (case http_get T (world s) url params of
        (r, w') \<Rightarrow>
          (r, s\<lparr>world := w', sent := sent s @ [GET url params],
               raised := raised s @ (case r of Inl e \<Rightarrow> [e] | Inr _ \<Rightarrow> [])\<rparr>))"

definition requests_put ::
  "'w transport \<Rightarrow> fstring \<Rightarrow> json \<Rightarrow> 'w state \<Rightarrow> (request_exception + unit) \<times> 'w state" where
  "requests_put T url payload s =
     (case http_put T (world s) url payload of
        (r, w') \<Rightarrow>
          (r, s\<lparr>world := w', sent := sent s @ [PUT url payload],
               raised := raised s @ (case r of Inl e \<Rightarrow> [e] | Inr _ \<Rightarrow> [])\<rparr>))"

section \<open>The script\<close>

definition CONFLUENCE_BASE_URL :: string where
  "CONFLUENCE_BASE_URL = ''https://altimetrik.atlassian.net/wiki''"

definition SPACE_KEY :: string where
  "SPACE_KEY = ''PA1''"

subsection \<open>\<^verbatim>\<open>get_all_pages_in_space\<close> (lines 29 to 58)\<close>

text \<open>
  One pass through the body of the \<^verbatim>\<open>while True\<close> loop after the response has been
  decoded: the new accumulator, and the next URL or \<open>None\<close> at \<^verbatim>\<open>break\<close>.
\<close>

definition listing_body :: "json \<Rightarrow> json list \<Rightarrow> error + json list \<times> string option" where
  "listing_body data all_pages =
     (case py_get data ''results'' (JList []) of Inl err \<Rightarrow> Inl err | Inr results \<Rightarrow>
      case py_iter results of Inl err \<Rightarrow> Inl err | Inr items \<Rightarrow>
      case py_get data ''_links'' (JDict []) of Inl err \<Rightarrow> Inl err | Inr links \<Rightarrow>
      case py_in ''next'' links of Inl err \<Rightarrow> Inl err
      | Inr False \<Rightarrow> Inr (all_pages @ items, None)
      | Inr True \<Rightarrow>
         (case py_getitem data ''_links'' of Inl err \<Rightarrow> Inl err | Inr links' \<Rightarrow>
          case py_getitem links' ''next'' of Inl err \<Rightarrow> Inl err | Inr nxt \<Rightarrow>
          case py_str_add CONFLUENCE_BASE_URL nxt of Inl err \<Rightarrow> Inl err | Inr url' \<Rightarrow>
            Inr (all_pages @ items, Some url')))"

datatype listing_outcome = Returned "json list" | Caught request_exception | Raised error

text \<open>
  The loop has no bound of its own: it ends when a response carries no \<^verbatim>\<open>next\<close> link
  or when an exception is raised. A run in which neither happens has the value \<open>None\<close>.
\<close>

partial_function (option) listing_loop ::
  "'w transport \<Rightarrow> fstring \<Rightarrow> json \<Rightarrow> json list \<Rightarrow> 'w state \<Rightarrow> (listing_outcome \<times> 'w state) option"
where
  "listing_loop T url params all_pages s =
     (case requests_get T url params s of
        (Inl e, s') \<Rightarrow> Some (Caught e, s')
      | (Inr data, s') \<Rightarrow>
          (case listing_body data all_pages of
             Inl err \<Rightarrow> Some (Raised err, s')
           | Inr (all_pages', None) \<Rightarrow> Some (Returned all_pages', s')
           | Inr (all_pages', Some url') \<Rightarrow> listing_loop T [Lit url'] (JDict []) all_pages' s'))"

definition listing_url :: fstring where
  "listing_url = [Fmt (JStr CONFLUENCE_BASE_URL), Lit ''/rest/api/content'']"

definition listing_params :: "string \<Rightarrow> json" where
  "listing_params space_key =
     JDict [(''spaceKey'', JStr space_key), (''limit'', JInt 100),
            (''expand'', JStr ''version,body.storage'')]"

definition listing_error_line :: "request_exception \<Rightarrow> fstring" where
  "listing_error_line e = [Lit ''Error fetching pages: '', FmtExc e]"

definition get_all_pages_in_space ::
  "'w transport \<Rightarrow> string \<Rightarrow> 'w state \<Rightarrow> ((error + json list) \<times> 'w state) option" where
  "get_all_pages_in_space T space_key s =
     (case listing_loop T listing_url (listing_params space_key) [] s of
        None \<Rightarrow> None
      | Some (Returned all_pages, s') \<Rightarrow> Some (Inr all_pages, s')
      | Some (Caught e, s') \<Rightarrow> Some (Inr [], print (listing_error_line e) s')
      | Some (Raised err, s') \<Rightarrow> Some (Inl err, s'))"

subsection \<open>\<^verbatim>\<open>get_page_content\<close> (lines 60 to 73)\<close>

definition page_url :: "json \<Rightarrow> fstring" where
  "page_url page_id = [Fmt (JStr CONFLUENCE_BASE_URL), Lit ''/rest/api/content/'', Fmt page_id]"

definition page_params :: json where
  "page_params = JDict [(''expand'', JStr ''body.storage,version,space'')]"

definition fetch_error_line :: "json \<Rightarrow> request_exception \<Rightarrow> fstring" where
  "fetch_error_line page_id e = [Lit ''Error fetching page '', Fmt page_id, Lit '': '', FmtExc e]"

definition get_page_content :: "'w transport \<Rightarrow> json \<Rightarrow> 'w state \<Rightarrow> json \<times> 'w state" where
  "get_page_content T page_id s =
     (case requests_get T (page_url page_id) page_params s of
        (Inr page, s') \<Rightarrow> (page, s')
      | (Inl e, s') \<Rightarrow>
          (JDict [], print (fetch_error_line page_id e) s'))"

subsection \<open>\<^verbatim>\<open>update_page\<close> (lines 75 to 103)\<close>

text \<open>
  The payload is built, and \<^verbatim>\<open>version + 1\<close> evaluated, before the \<^verbatim>\<open>try\<close>. The
  response text is printed when the exception has a response object
  (\<^verbatim>\<open>hasattr(e.response, 'text')\<close>).
\<close>

definition update_payload :: "json \<Rightarrow> string \<Rightarrow> json \<Rightarrow> json" where
  "update_payload title content number =
     JDict [(''version'', JDict [(''number'', number),
                                 (''message'', JStr ''Updated with latest Lambda implementation status'')]),
            (''title'', title),
            (''type'', JStr ''page''),
            (''body'', JDict [(''storage'', JDict [(''value'', JStr content),
                                                   (''representation'', JStr ''storage'')])])]"

definition updated_line :: "json \<Rightarrow> fstring" where
  "updated_line title = [Lit ([CHR 0xE2, CHR 0x9C, CHR 0x85] @ '' Updated page: ''), Fmt title]"

definition update_error_line :: "json \<Rightarrow> request_exception \<Rightarrow> fstring" where
  "update_error_line title e =
     [Lit ([CHR 0xE2, CHR 0x9D, CHR 0x8C] @ '' Error updating page ''), Fmt title, Lit '': '', FmtExc e]"

definition response_line :: "string \<Rightarrow> fstring" where
  "response_line txt = [Lit ''   Response: '', Fmt (JStr txt)]"

definition update_page ::
  "'w transport \<Rightarrow> json \<Rightarrow> json \<Rightarrow> string \<Rightarrow> json \<Rightarrow> 'w state \<Rightarrow> (error + bool) \<times> 'w state" where
  "update_page T page_id title content version s =
     (case py_add_one version of
        Inl err \<Rightarrow> (Inl err, s)
      | Inr number \<Rightarrow>
          (case requests_put T (page_url page_id) (update_payload title content number) s of
             (Inr _, s') \<Rightarrow> (Inr True, print (updated_line title) s')
           | (Inl e, s') \<Rightarrow>
               (let s'' = print (update_error_line title e) s'
                in (Inr False,
                    (case exc_response_text e of
                       Some txt \<Rightarrow> print (response_line txt) s''
                     | None \<Rightarrow> s'')))))"

subsection \<open>\<^verbatim>\<open>create_lambda_status_section\<close> (lines 105 to 254)\<close>

text \<open>The constant status section, line by line; characters beyond ASCII as UTF-8 bytes.\<close>

definition create_lambda_status_section :: string where
  \<open>create_lambda_status_section =
     ''\<newline>'' @
          ''<ac:structured-macro ac:name="info">\<newline>'' @
          ''  <ac:rich-text-body>\<newline>'' @
          ''    <p><strong>Last Updated:</strong> October 3, 2025</p>\<newline>'' @
          ''    <p><strong>Author:</strong> Douglas Martins, Senior AI Engineer/Architect</p>\<newline>'' @
          ''  </ac:rich-text-body>\<newline>'' @
          ''</ac:structured-macro>\<newline>'' @
          ''\<newline>'' @
          (''<h2>'' @ [CHR 0xF0, CHR 0x9F, CHR 0x9A, CHR 0x80] @ '' Latest Updates - Ingestion &amp; Cleansing Lambda v2.0</h2>\<newline>'') @
          ''\<newline>'' @
          ''<ac:structured-macro ac:name="panel" ac:schema-version="1">\<newline>'' @
          ''  <ac:parameter ac:name="bgColor">#deebff</ac:parameter>\<newline>'' @
          ''  <ac:rich-text-body>\<newline>'' @
          (''    <p><strong>'' @ [CHR 0xE2, CHR 0x9C, CHR 0x85] @ '' COMPLETED:</strong> Combined Ingestion &amp; Cleansing Lambda v2.0</p>\<newline>'') @
          ''    <ul>\<newline>'' @
          (''      <li>Atomic Bronze '' @ [CHR 0xE2, CHR 0x86, CHR 0x92] @ '' Silver transformation in single transaction</li>\<newline>'') @
          ''      <li>25 TypeScript modules implementing data engineer's algorithm v0.2</li>\<newline>'' @
          ''      <li>Two-path processing (NEW insert-only, UPDATED upsert + soft-delete)</li>\<newline>'' @
          ''      <li>Complete versioning system with affected nodes/attributes tracking</li>\<newline>'' @
          ''      <li>Comprehensive test suite with sample data generation</li>\<newline>'' @
          ''    </ul>\<newline>'' @
          ''  </ac:rich-text-body>\<newline>'' @
          ''</ac:structured-macro>\<newline>'' @
          ''\<newline>'' @
          (''<h3>'' @ [CHR 0xF0, CHR 0x9F, CHR 0x93, CHR 0xA6] @ '' Implementation Summary</h3>\<newline>'') @
          ''\<newline>'' @
          ''<table>\<newline>'' @
          ''  <tbody>\<newline>'' @
          ''    <tr>\<newline>'' @
          ''      <th>Component</th>\<newline>'' @
          ''      <th>Status</th>\<newline>'' @
          ''      <th>Files</th>\<newline>'' @
          ''      <th>Details</th>\<newline>'' @
          ''    </tr>\<newline>'' @
          ''    <tr>\<newline>'' @
          ''      <td><strong>Type Definitions</strong></td>\<newline>'' @
          ''      <td><ac:structured-macro ac:name="status"><ac:parameter ac:name="color">Green</ac:parameter><ac:parameter ac:name="title">COMPLETE</ac:parameter></ac:structured-macro></td>\<newline>'' @
          ''      <td>4 files</td>\<newline>'' @
          ''      <td>Events, layouts, context, cache</td>\<newline>'' @
          ''    </tr>\<newline>'' @
          ''    <tr>\<newline>'' @
          ''      <td><strong>Utilities</strong></td>\<newline>'' @
          ''      <td><ac:structured-macro ac:name="status"><ac:parameter ac:name="color">Green</ac:parameter><ac:parameter ac:name="title">COMPLETE</ac:parameter></ac:structured-macro></td>\<newline>'' @
          ''      <td>3 files</td>\<newline>'' @
          (''      <td>Normalization ('' @ [CHR 0xC2, CHR 0xA7] @ ''0), streams, constants</td>\<newline>'') @
          ''    </tr>\<newline>'' @
          ''    <tr>\<newline>'' @
          ''      <td><strong>Parsers</strong></td>\<newline>'' @
          ''      <td><ac:structured-macro ac:name="status"><ac:parameter ac:name="color">Green</ac:parameter><ac:parameter ac:name="title">COMPLETE</ac:parameter></ac:structured-macro></td>\<newline>'' @
          ''      <td>4 files</td>\<newline>'' @
          (''      <td>Excel, API, layout, filename ('' @ [CHR 0xC2, CHR 0xA7] @ ''2.2, '' @ [CHR 0xC2, CHR 0xA7] @ ''4)</td>\<newline>'') @
          ''    </tr>\<newline>'' @
          ''    <tr>\<newline>'' @
          ''      <td><strong>Database Queries</strong></td>\<newline>'' @
          ''      <td><ac:structured-macro ac:name="status"><ac:parameter ac:name="color">Green</ac:parameter><ac:parameter ac:name="title">COMPLETE</ac:parameter></ac:structured-macro></td>\<newline>'' @
          ''      <td>8 files</td>\<newline>'' @
          (''      <td>Load, bronze, silver, dictionaries ('' @ [CHR 0xC2, CHR 0xA7] @ ''6), versioning ('' @ [CHR 0xC2, CHR 0xA7] @ ''7A.3, '' @ [CHR 0xC2, CHR 0xA7] @ ''7B.5), reconciliation ('' @ [CHR 0xC2, CHR 0xA7] @ ''7B.3-4)</td>\<newline>'') @
          ''    </tr>\<newline>'' @
          ''    <tr>\<newline>'' @
          ''      <td><strong>Processors</strong></td>\<newline>'' @
          ''      <td><ac:structured-macro ac:name="status"><ac:parameter ac:name="color">Green</ac:parameter><ac:parameter ac:name="title">COMPLETE</ac:parameter></ac:structured-macro></td>\<newline>'' @
          ''      <td>4 files</td>\<newline>'' @
          (''      <td>S3, API, row processor ('' @ [CHR 0xC2, CHR 0xA7] @ ''7), orchestrator ('' @ [CHR 0xC2, CHR 0xA7] @ ''1-'' @ [CHR 0xC2, CHR 0xA7] @ ''8)</td>\<newline>'') @
          ''    </tr>\<newline>'' @
          ''    <tr>\<newline>'' @
          ''      <td><strong>Test Suite</strong></td>\<newline>'' @
          ''      <td><ac:structured-macro ac:name="status"><ac:parameter ac:name="color">Green</ac:parameter><ac:parameter ac:name="title">COMPLETE</ac:parameter></ac:structured-macro></td>\<newline>'' @
          ''      <td>3 files</td>\<newline>'' @
          ''      <td>Sample data generator, validator, local runner</td>\<newline>'' @
          ''    </tr>\<newline>'' @
          ''    <tr>\<newline>'' @
          ''      <td><strong>Documentation</strong></td>\<newline>'' @
          ''      <td><ac:structured-macro ac:name="status"><ac:parameter ac:name="color">Green</ac:parameter><ac:parameter ac:name="title">COMPLETE</ac:parameter></ac:structured-macro></td>\<newline>'' @
          ''      <td>3 files</td>\<newline>'' @
          ''      <td>Lambda README, log retention strategy, master taxonomy attributes</td>\<newline>'' @
          ''    </tr>\<newline>'' @
          ''  </tbody>\<newline>'' @
          ''</table>\<newline>'' @
          ''\<newline>'' @
          (''<h3>'' @ [CHR 0xF0, CHR 0x9F, CHR 0x8E, CHR 0xAF] @ '' Key Technical Features</h3>\<newline>'') @
          ''\<newline>'' @
          ''<ac:structured-macro ac:name="expand">\<newline>'' @
          ''  <ac:parameter ac:name="title">Technical Implementation Details</ac:parameter>\<newline>'' @
          ''  <ac:rich-text-body>\<newline>'' @
          ''    <h4>Two-Path Processing Logic</h4>\<newline>'' @
          ''    <ul>\<newline>'' @
          ''      <li><strong>NEW Load:</strong> Insert-only, no reactivation, creates Version 1</li>\<newline>'' @
          ''      <li><strong>UPDATED Load:</strong> Upsert with soft-delete reconciliation, creates Version N</li>\<newline>'' @
          ''    </ul>\<newline>'' @
          ''\<newline>'' @
          ''    <h4>Natural Key Constraints (Case-Insensitive)</h4>\<newline>'' @
          ''    <ul>\<newline>'' @
          ''      <li><strong>Nodes:</strong> (taxonomy_id, node_type_id, customer_id, LOWER(value))</li>\<newline>'' @
          ''      <li><strong>Attributes:</strong> (node_id, attribute_type_id, LOWER(value))</li>\<newline>'' @
          ''    </ul>\<newline>'' @
          ''\<newline>'' @
          ''    <h4>Append-Only Dictionaries</h4>\<newline>'' @
          ''    <ul>\<newline>'' @
          ''      <li>silver_taxonomies_nodes_types - never modified, only INSERT</li>\<newline>'' @
          ''      <li>silver_taxonomies_attribute_types - never modified, only INSERT</li>\<newline>'' @
          ''    </ul>\<newline>'' @
          ''\<newline>'' @
          ''    <h4>Complete Audit Trail</h4>\<newline>'' @
          ''    <ul>\<newline>'' @
          ''      <li>Row-level lineage with load_id and row_id</li>\<newline>'' @
          ''      <li>Row-level error tracking in load_details JSON</li>\<newline>'' @
          ''      <li>Version history with affected nodes/attributes</li>\<newline>'' @
          ''    </ul>\<newline>'' @
          ''  </ac:rich-text-body>\<newline>'' @
          ''</ac:structured-macro>\<newline>'' @
          ''\<newline>'' @
          (''<h3>'' @ [CHR 0xF0, CHR 0x9F, CHR 0x93, CHR 0x8A] @ '' Project Status</h3>\<newline>'') @
          ''\<newline>'' @
          ''<ac:structured-macro ac:name="status"><ac:parameter ac:name="color">Green</ac:parameter><ac:parameter ac:name="title">90% COMPLETE</ac:parameter></ac:structured-macro>\<newline>'' @
          ''\<newline>'' @
          ''<p><strong>GitHub Repository:</strong> <a href="https://github.com/AltimetrikAI/propelus_ai">https://github.com/AltimetrikAI/propelus_ai</a></p>\<newline>'' @
          ''\<newline>'' @
          ''<p><strong>Latest Commits:</strong></p>\<newline>'' @
          ''<ul>\<newline>'' @
          ''  <li><code>80b67bf</code> - Add all implementation modules (21 files, 1,389 lines)</li>\<newline>'' @
          ''  <li><code>0100a6d</code> - Combined Ingestion &amp; Cleansing Lambda v2.0 (14 files, 2,551 lines)</li>\<newline>'' @
          ''</ul>\<newline>'' @
          ''\<newline>'' @
          (''<h3>'' @ [CHR 0xE2, CHR 0x8F, CHR 0xB3] @ '' Next Steps</h3>\<newline>'') @
          ''\<newline>'' @
          ''<ac:structured-macro ac:name="panel" ac:schema-version="1">\<newline>'' @
          ''  <ac:parameter ac:name="bgColor">#fffae6</ac:parameter>\<newline>'' @
          ''  <ac:rich-text-body>\<newline>'' @
          ''    <ol>\<newline>'' @
          ''      <li><strong>Database Migrations</strong> - Awaiting physical data model from Marcin (Monday)</li>\<newline>'' @
          ''      <li><strong>Integration Testing</strong> - Test with sample taxonomies (Social Work, Nurse Practitioners)</li>\<newline>'' @
          ''      <li><strong>Tuesday Walkthrough</strong> - Demo with Kristen's sample data</li>\<newline>'' @
          ''      <li><strong>Step Functions Update</strong> - Modify workflow to call combined Lambda</li>\<newline>'' @
          ''    </ol>\<newline>'' @
          ''  </ac:rich-text-body>\<newline>'' @
          ''</ac:structured-macro>\<newline>'' @
          ''\<newline>'' @
          (''<h3>'' @ [CHR 0xF0, CHR 0x9F, CHR 0x93, CHR 0x9A] @ '' Documentation</h3>\<newline>'') @
          ''\<newline>'' @
          ''<ul>\<newline>'' @
          ''  <li><a href="https://github.com/AltimetrikAI/propelus_ai/blob/main/lambdas/ingestion_and_cleansing/README.md">Lambda README</a> - Architecture and usage guide</li>\<newline>'' @
          ''  <li><a href="https://github.com/AltimetrikAI/propelus_ai/blob/main/docs/LOG_RETENTION_STRATEGY.md">Log Retention Strategy</a> - Audit log compliance approach</li>\<newline>'' @
          ''  <li><a href="https://github.com/AltimetrikAI/propelus_ai/blob/main/lambdas/ingestion_and_cleansing/test/README.md">Test Suite README</a> - Sample data generation and testing</li>\<newline>'' @
          ''  <li><a href="https://github.com/AltimetrikAI/propelus_ai/blob/main/PROJECT_DOCUMENTATION.md">Project Documentation</a> - Complete system architecture</li>\<newline>'' @
          ''</ul>\<newline>'' @
          ''\<newline>'' @
          ''<hr/>\<newline>''
  \<close>

subsection \<open>\<^verbatim>\<open>main\<close> (lines 256 to 307)\<close>

text \<open>The marker is the string literal of the skip guard (line 292).\<close>

definition MARKER :: string where
  "MARKER = ''Ingestion &amp; Cleansing Lambda v2.0''"

definition rule60 :: string where
  "rule60 = replicate 60 (CHR ''='')"

text \<open>The lines that \<^verbatim>\<open>main\<close> prints.\<close>

definition fetching_line :: fstring where
  "fetching_line =
     [Lit ([CHR 0xF0, CHR 0x9F, CHR 0x94, CHR 0x8D] @ '' Fetching pages from Confluence space...'')]"

definition no_pages_line :: fstring where
  "no_pages_line = [Lit ([CHR 0xE2, CHR 0x9D, CHR 0x8C] @ '' No pages found or error occurred'')]"

definition found_line :: "json list \<Rightarrow> fstring" where
  "found_line pages =
     [Lit ([CHR 0xE2, CHR 0x9C, CHR 0x85] @ '' Found ''), Fmt (JInt (int (length pages))),
      Lit '' pages in space '', Fmt (JStr SPACE_KEY), Lit ''\<newline>'']"

definition pages_header_line :: fstring where
  "pages_header_line = [Lit ([CHR 0xF0, CHR 0x9F, CHR 0x93, CHR 0x84] @ '' Pages in space:'')]"

definition display_line :: "int \<Rightarrow> json \<Rightarrow> json \<Rightarrow> fstring" where
  "display_line i title page_id =
     [Lit ''   '', Fmt (JInt i), Lit ''. '', Fmt title, Lit '' (ID: '', Fmt page_id, Lit '')'']"

definition updating_line :: fstring where
  "updating_line =
     [Lit ([CHR 0xF0, CHR 0x9F, CHR 0x93, CHR 0x9D] @ '' Updating pages with Lambda status...'')]"

definition skip_line :: "json \<Rightarrow> fstring" where
  "skip_line page_title =
     [Lit ([CHR 0xE2, CHR 0x8F, CHR 0xAD, CHR 0xEF, CHR 0xB8, CHR 0x8F] @ ''  Skipping ''),
      Fmt page_title, Lit '' (already has latest update)'']"

definition version_line :: "json \<Rightarrow> json \<Rightarrow> fstring" where
  "version_line current_version next_version =
     [Lit ''   Version: '', Fmt current_version, Lit ('' '' @ [CHR 0xE2, CHR 0x86, CHR 0x92] @ '' ''),
      Fmt next_version, Lit ''\<newline>'']"

definition complete_line :: fstring where
  "complete_line = [Lit ([CHR 0xE2, CHR 0x9C, CHR 0x85] @ '' Confluence update complete!'')]"

text \<open>The loop that displays the pages, numbered from 1.\<close>

fun display_pages :: "int \<Rightarrow> json list \<Rightarrow> 'w state \<Rightarrow> (error + unit) \<times> 'w state" where
  "display_pages i [] s = (Inr (), s)"
| "display_pages i (page # pages) s =
     (case py_getitem page ''title'' of Inl err \<Rightarrow> (Inl err, s) | Inr title \<Rightarrow>
      case py_getitem page ''id'' of Inl err \<Rightarrow> (Inl err, s) | Inr page_id \<Rightarrow>
        display_pages (i + 1) pages (print (display_line i title page_id) s))"

text \<open>
  The body of the update loop for one page. \<^verbatim>\<open>continue\<close> and the end of the body both
  return \<open>Inr ()\<close>; an uncaught exception returns \<open>Inl\<close>.
\<close>

definition process_page ::
  "'w transport \<Rightarrow> string \<Rightarrow> json \<Rightarrow> 'w state \<Rightarrow> (error + unit) \<times> 'w state" where
  "process_page T lambda_status_content page s =
     (case py_getitem page ''id'' of Inl err \<Rightarrow> (Inl err, s) | Inr page_id \<Rightarrow>
      case py_getitem page ''title'' of Inl err \<Rightarrow> (Inl err, s) | Inr page_title \<Rightarrow>
      case get_page_content T page_id s of (full_page, s1) \<Rightarrow>
        if \<not> py_truthy full_page then (Inr (), s1)
        else
         (case py_getitem full_page ''version'' of Inl err \<Rightarrow> (Inl err, s1) | Inr ver \<Rightarrow>
          case py_getitem ver ''number'' of Inl err \<Rightarrow> (Inl err, s1) | Inr current_version \<Rightarrow>
          case py_getitem full_page ''body'' of Inl err \<Rightarrow> (Inl err, s1) | Inr body \<Rightarrow>
          case py_getitem body ''storage'' of Inl err \<Rightarrow> (Inl err, s1) | Inr storage \<Rightarrow>
          case py_getitem storage ''value'' of Inl err \<Rightarrow> (Inl err, s1) | Inr current_content \<Rightarrow>
          case py_in MARKER current_content of
            Inl err \<Rightarrow> (Inl err, s1)
          | Inr True \<Rightarrow> (Inr (), print (skip_line page_title) s1)
          | Inr False \<Rightarrow>
             (case py_str_add (lambda_status_content @ ''\<newline>\<newline>'') current_content of
                Inl err \<Rightarrow> (Inl err, s1)
              | Inr updated_content \<Rightarrow>
                 (case update_page T page_id page_title updated_content current_version s1 of
                    (Inl err, s2) \<Rightarrow> (Inl err, s2)
                  | (Inr False, s2) \<Rightarrow> (Inr (), s2)
                  | (Inr True, s2) \<Rightarrow>
                     (case py_add_one current_version of
                        Inl err \<Rightarrow> (Inl err, s2)
                      | Inr next_version \<Rightarrow>
                         (Inr (), print (version_line current_version next_version) s2))))))"

fun update_loop ::
  "'w transport \<Rightarrow> string \<Rightarrow> json list \<Rightarrow> 'w state \<Rightarrow> (error + unit) \<times> 'w state" where
  "update_loop T lambda_status_content [] s = (Inr (), s)"
| "update_loop T lambda_status_content (page # pages) s =
     (case process_page T lambda_status_content page s of
        (Inl err, s') \<Rightarrow> (Inl err, s')
      | (Inr _, s') \<Rightarrow> update_loop T lambda_status_content pages s')"

definition main :: "'w transport \<Rightarrow> 'w state \<Rightarrow> ((error + unit) \<times> 'w state) option" where
  "main T s0 =
     (case get_all_pages_in_space T SPACE_KEY (print fetching_line s0) of
        None \<Rightarrow> None
      | Some (Inl err, s1) \<Rightarrow> Some (Inl err, s1)
      | Some (Inr pages, s1) \<Rightarrow>
          if pages = [] then Some (Inr (), print no_pages_line s1)
          else
           (case display_pages 1 pages (print pages_header_line (print (found_line pages) s1)) of
              (Inl err, s2) \<Rightarrow> Some (Inl err, s2)
            | (Inr _, s2) \<Rightarrow>
               (case update_loop T create_lambda_status_section pages
                       (print [Lit (rule60 @ ''\<newline>'')]
                       (print updating_line
                       (print [Lit (''\<newline>'' @ rule60)] s2))) of
                  (Inl err, s3) \<Rightarrow> Some (Inl err, s3)
                | (Inr _, s3) \<Rightarrow>
                    Some (Inr (), print [Lit rule60] (print complete_line (print [Lit rule60] s3))))))"

section \<open>The interface of the remote service\<close>

text \<open>
  The shapes the service documents for its responses, read without raising: a listing
  response is an object with a list \<open>results\<close> and an object \<open>_links\<close> that carries the
  relative URL \<open>next\<close> when there is a further response; a page is an object with
  \<open>version.number\<close> and \<open>body.storage.value\<close>; a page summary has a string \<open>id\<close> and
  a string \<open>title\<close>. The listing loop supplies defaults for a missing \<open>results\<close> or
  \<open>_links\<close>, so both may be absent from a well-formed listing response.
\<close>

fun field :: "json \<Rightarrow> string \<Rightarrow> json option" where
  "field (JDict kvs) k = map_of kvs k"
| "field _ k = None"

definition results_of :: "json \<Rightarrow> json list" where
  "results_of r = (case field r ''results'' of Some (JList xs) \<Rightarrow> xs | _ \<Rightarrow> [])"

definition next_link :: "json \<Rightarrow> string option" where
  "next_link r =
     (case field r ''_links'' of
        Some links \<Rightarrow> (case field links ''next'' of Some (JStr n) \<Rightarrow> Some n | _ \<Rightarrow> None)
      | None \<Rightarrow> None)"

fun results_ok :: "json option \<Rightarrow> bool" where
  "results_ok None = True"
| "results_ok (Some (JList xs)) = True"
| "results_ok (Some _) = False"

fun next_ok :: "json option \<Rightarrow> bool" where
  "next_ok None = True"
| "next_ok (Some (JStr n)) = True"
| "next_ok (Some _) = False"

fun links_ok :: "json option \<Rightarrow> bool" where
  "links_ok None = True"
| "links_ok (Some (JDict ls)) = next_ok (map_of ls ''next'')"
| "links_ok (Some _) = False"

fun wf_listing :: "json \<Rightarrow> bool" where
  "wf_listing (JDict kvs) = (results_ok (map_of kvs ''results'') \<and> links_ok (map_of kvs ''_links''))"
| "wf_listing _ = False"

definition summary_id :: "json \<Rightarrow> string option" where
  "summary_id p = (case field p ''id'' of Some (JStr i) \<Rightarrow> Some i | _ \<Rightarrow> None)"

definition summary_title :: "json \<Rightarrow> string option" where
  "summary_title p = (case field p ''title'' of Some (JStr t) \<Rightarrow> Some t | _ \<Rightarrow> None)"

definition wf_summary :: "json \<Rightarrow> bool" where
  "wf_summary p = (summary_id p \<noteq> None \<and> summary_title p \<noteq> None)"

definition page_version :: "json \<Rightarrow> int option" where
  "page_version p =
     (case field p ''version'' of
        Some ver \<Rightarrow> (case field ver ''number'' of Some (JInt n) \<Rightarrow> Some n | _ \<Rightarrow> None)
      | None \<Rightarrow> None)"

definition page_body :: "json \<Rightarrow> string option" where
  "page_body p =
     (case field p ''body'' of
        Some b \<Rightarrow>
          (case field b ''storage'' of
             Some st \<Rightarrow> (case field st ''value'' of Some (JStr c) \<Rightarrow> Some c | _ \<Rightarrow> None)
           | None \<Rightarrow> None)
      | None \<Rightarrow> None)"

definition wf_page :: "json \<Rightarrow> bool" where
  "wf_page p = (page_version p \<noteq> None \<and> page_body p \<noteq> None)"

text \<open>
  The continuation chain of a server, followed for at most \<open>k\<close> requests from a world
  state, a URL and parameters: the responses received in order, the exception that ended
  the chain if one did, and the world state reached. \<open>None\<close> means that \<open>k\<close> requests did
  not reach the end of the chain.
\<close>

fun chain ::
  "nat \<Rightarrow> 'w transport \<Rightarrow> 'w \<Rightarrow> fstring \<Rightarrow> json \<Rightarrow> (json list \<times> request_exception option \<times> 'w) option" where
  "chain 0 T w url params = None"
| "chain (Suc k) T w url params =
     (case http_get T w url params of
        (Inl e, w') \<Rightarrow> Some ([], Some e, w')
      | (Inr r, w') \<Rightarrow>
          (case next_link r of
             None \<Rightarrow> Some ([r], None, w')
           | Some n \<Rightarrow>
               (case chain k T w' [Lit (CONFLUENCE_BASE_URL @ n)] (JDict []) of
                  None \<Rightarrow> None
                | Some (rs, fin, w'') \<Rightarrow> Some (r # rs, fin, w''))))"

text \<open>The requests of a chain of responses: the first one, then one per \<open>next\<close> link.\<close>

fun chain_requests :: "fstring \<Rightarrow> json \<Rightarrow> json list \<Rightarrow> request list" where
  "chain_requests url params [] = [GET url params]"
| "chain_requests url params (r # rs) =
     GET url params #
     (case next_link r of
        None \<Rightarrow> []
      | Some n \<Rightarrow> chain_requests [Lit (CONFLUENCE_BASE_URL @ n)] (JDict []) rs)"

text \<open>Classifying the requests of a trace.\<close>

fun is_get :: "request \<Rightarrow> bool" where
  "is_get (GET u p) = True"
| "is_get (PUT u p) = False"

fun is_update :: "request \<Rightarrow> bool" where
  "is_update (PUT u p) = True"
| "is_update (GET u p) = False"

fun is_fetch :: "request \<Rightarrow> bool" where
  "is_fetch (GET u p) = (p = page_params)"
| "is_fetch (PUT u p) = False"

fun is_update_of :: "json \<Rightarrow> request \<Rightarrow> bool" where
  "is_update_of page_id (PUT u p) = (u = page_url page_id)"
| "is_update_of page_id (GET u p) = False"

text \<open>
  Reading the printed lines: the exception that a line reports is the one interpolated
  in it (the first, if there were several), and \<open>reported\<close> collects the exceptions
  reported by a list of lines, in order. \<open>absorbed s s'\<close>: from \<open>s\<close> to \<open>s'\<close> lines
  were printed and exceptions were raised, and the exceptions raised are exactly those
  that the new lines report, in the same order.
\<close>

fun line_exception :: "fstring \<Rightarrow> request_exception option" where
  "line_exception [] = None"
| "line_exception (FmtExc e # fs) = Some e"
| "line_exception (Lit l # fs) = line_exception fs"
| "line_exception (Fmt v # fs) = line_exception fs"

definition reported :: "fstring list \<Rightarrow> request_exception list" where
  "reported lines = List.map_filter line_exception lines"

definition absorbed :: "'w state \<Rightarrow> 'w state \<Rightarrow> bool" where
  "absorbed s s' = (\<exists>lines. out s' = out s @ lines \<and> raised s' = raised s @ reported lines)"

text \<open>
  \<open>update_of lsc page q\<close>: the request \<open>q\<close> is the update that the loop composes for the
  listed page \<open>page\<close>, a PUT to the URL of its id that carries its title and a body that
  starts with \<open>lsc\<close> and the separator.
\<close>

definition update_of :: "string \<Rightarrow> json \<Rightarrow> request \<Rightarrow> bool" where
  "update_of lsc page q =
     (\<exists>page_id title c n.
        py_getitem page ''id'' = Inr page_id \<and> py_getitem page ''title'' = Inr title \<and>
        q = PUT (page_url page_id) (update_payload title (lsc @ ''\<newline>\<newline>'' @ c) n))"

section \<open>A fixture server\<close>

text \<open>
  A deterministic server with a page store, against which the effect of a run on the
  pages themselves can be stated. A page is stored with its title, version and body. A
  GET of a page URL answers with the stored page, or with an HTTP error when there is no
  such page; any other GET is a listing request, answered by a fixed function of the
  request. A PUT of a page URL is accepted when its version number is the stored version
  plus one (the optimistic concurrency rule of the service) and then replaces the stored
  title, version and body by the submitted ones. Transport faults are scheduled: each
  request consumes one entry of \<open>fx_faults\<close> and fails with the exception found there,
  if any; an exhausted schedule means no fault.
\<close>

record stored_page =
  pg_title :: string
  pg_version :: int
  pg_body :: string

record fixture =
  fx_listing :: "fstring \<Rightarrow> json \<Rightarrow> json"
  fx_pages :: "json \<rightharpoonup> stored_page"
  fx_faults :: "request_exception option list"

definition not_found :: request_exception where
  "not_found = RequestException ''404 Client Error: Not Found'' (Some ''No content found'')"

definition conflict :: request_exception where
  "conflict = RequestException ''409 Client Error: Conflict'' (Some ''Version must be incremented'')"

definition bad_request :: request_exception where
  "bad_request = RequestException ''400 Client Error: Bad Request'' (Some ''Could not read the page'')"

definition page_json :: "json \<Rightarrow> stored_page \<Rightarrow> json" where
  "page_json pid p =
     JDict [(''id'', pid),
            (''title'', JStr (pg_title p)),
            (''version'', JDict [(''number'', JInt (pg_version p))]),
            (''body'', JDict [(''storage'', JDict [(''value'', JStr (pg_body p)),
                                                   (''representation'', JStr ''storage'')])])]"

fun page_id_of :: "fstring \<Rightarrow> json option" where
  "page_id_of [Fmt (JStr b), Lit l, Fmt pid] =
     (if b = CONFLUENCE_BASE_URL \<and> l = ''/rest/api/content/'' then Some pid else None)"
| "page_id_of _ = None"

definition next_fault :: "request_exception option list \<Rightarrow> request_exception option" where
  "next_fault fs = (case fs of [] \<Rightarrow> None | f # _ \<Rightarrow> f)"

definition fixture_get :: "fixture \<Rightarrow> fstring \<Rightarrow> json \<Rightarrow> (request_exception + json) \<times> fixture" where
  "fixture_get w url params =
     (let w' = w\<lparr>fx_faults := tl (fx_faults w)\<rparr> in
      case next_fault (fx_faults w) of
        Some e \<Rightarrow> (Inl e, w')
      | None \<Rightarrow>
          (case page_id_of url of
             None \<Rightarrow> (Inr (fx_listing w url params), w')
           | Some pid \<Rightarrow>
               (case fx_pages w pid of
                  None \<Rightarrow> (Inl not_found, w')
                | Some p \<Rightarrow> (Inr (page_json pid p), w'))))"

definition fixture_put :: "fixture \<Rightarrow> fstring \<Rightarrow> json \<Rightarrow> (request_exception + unit) \<times> fixture" where
  "fixture_put w url payload =
     (let w' = w\<lparr>fx_faults := tl (fx_faults w)\<rparr> in
      case next_fault (fx_faults w) of
        Some e \<Rightarrow> (Inl e, w')
      | None \<Rightarrow>
          (case page_id_of url of
             None \<Rightarrow> (Inl not_found, w')
           | Some pid \<Rightarrow>
               (case fx_pages w pid of
                  None \<Rightarrow> (Inl not_found, w')
                | Some p \<Rightarrow>
                    (case (summary_title payload, page_version payload, page_body payload) of
                       (Some t, Some n, Some c) \<Rightarrow>
                         if n = pg_version p + 1
                         then (Inr (), w'\<lparr>fx_pages := (fx_pages w)(pid \<mapsto>
                                         \<lparr>pg_title = t, pg_version = n, pg_body = c\<rparr>)\<rparr>)
                         else (Inl conflict, w')
                     | _ \<Rightarrow> (Inl bad_request, w')))))"

definition has_marker :: "stored_page option \<Rightarrow> bool" where
  "has_marker x = (case x of None \<Rightarrow> False | Some p \<Rightarrow> sublist MARKER (pg_body p))"

definition fixture_transport :: "fixture transport" where
  "fixture_transport = \<lparr>http_get = fixture_get, http_put = fixture_put\<rparr>"

text \<open>
  The example of two pages: page A with body \<^verbatim>\<open><p>old</p>\<close> at version 3, page B whose
  body holds the marker text at version 5. The listing comes in two responses, the first
  with page A and a \<open>next\<close> link, the second with page B and none.
\<close>

definition example_first :: json where
  "example_first =
     JDict [(''results'', JList [JDict [(''id'', JStr ''1001''), (''title'', JStr ''Page A'')]]),
            (''_links'', JDict [(''next'', JStr ''/rest/api/content?start=1'')])]"

definition example_second :: json where
  "example_second =
     JDict [(''results'', JList [JDict [(''id'', JStr ''1002''), (''title'', JStr ''Page B'')]]),
            (''_links'', JDict [])]"

definition example_pages :: "json \<rightharpoonup> stored_page" where
  "example_pages =
     [JStr ''1001'' \<mapsto> \<lparr>pg_title = ''Page A'', pg_version = 3, pg_body = ''<p>old</p>''\<rparr>,
      JStr ''1002'' \<mapsto> \<lparr>pg_title = ''Page B'', pg_version = 5, pg_body = ''<h1>'' @ MARKER @ ''</h1>''\<rparr>]"

definition example_server :: "request_exception option list \<Rightarrow> fixture" where
  "example_server faults =
     \<lparr>fx_listing = (\<lambda>url params. if url = listing_url then example_first else example_second),
      fx_pages = example_pages,
      fx_faults = faults\<rparr>"

definition start :: "'w \<Rightarrow> 'w state" where
  "start w = \<lparr>world = w, sent = [], out = [], raised = []\<rparr>"

text \<open>
  The same server with a page B that does not hold the marker yet.
\<close>

definition example_unmarked :: "request_exception option list \<Rightarrow> fixture" where
  "example_unmarked faults =
     \<lparr>fx_listing = (\<lambda>url params. if url = listing_url then example_first else example_second),
      fx_pages = example_pages(JStr ''1002'' \<mapsto>
                   \<lparr>pg_title = ''Page B'', pg_version = 5, pg_body = ''<p>new</p>''\<rparr>),
      fx_faults = faults\<rparr>"

text \<open>
  The same server at a moment when page A is stored under another title than the one
  the listing reports for it, as after a rename that the listing does not show.
\<close>

definition example_retitled :: fixture where
  "example_retitled =
     \<lparr>fx_listing = (\<lambda>url params. if url = listing_url then example_first else example_second),
      fx_pages = example_pages(JStr ''1001'' \<mapsto>
                   \<lparr>pg_title = ''Stored title'', pg_version = 3, pg_body = ''<p>old</p>''\<rparr>),
      fx_faults = []\<rparr>"

text \<open>
  A run of the script as a process: it starts with nothing sent and nothing printed, and
  \<open>run\<close> is the state it ends in when \<^const>\<open>main\<close> returns normally. \<open>rerun\<close>
  starts the script again on the world that a run has left.
\<close>

definition run :: "'w transport \<Rightarrow> 'w \<Rightarrow> 'w state option" where
  "run T w = (case main T (start w) of Some (Inr _, s) \<Rightarrow> Some s | _ \<Rightarrow> None)"

definition rerun :: "'w transport \<Rightarrow> 'w state option \<Rightarrow> 'w state option" where
  "rerun T x = (case x of None \<Rightarrow> None | Some s \<Rightarrow> run T (world s))"

definition updates_sent :: "'w state option \<Rightarrow> request list option" where
  "updates_sent x = (case x of None \<Rightarrow> None | Some s \<Rightarrow> Some (filter is_update (sent s)))"

definition stored :: "fixture state option \<Rightarrow> json \<Rightarrow> stored_page option" where
  "stored x pid = (case x of None \<Rightarrow> None | Some s \<Rightarrow> fx_pages (world s) pid)"

section \<open>Lemmas about the script\<close>

lemma sent_print [simp]: "sent (print l s) = sent s"
  by (simp add: print_def)

lemma world_print [simp]: "world (print l s) = world s"
  by (simp add: print_def)

lemma out_print [simp]: "out (print l s) = out s @ [l]"
  by (simp add: print_def)

lemma raised_print [simp]: "raised (print l s) = raised s"
  by (simp add: print_def)

lemma reported_Nil [simp]: "reported [] = []"
  by (simp add: reported_def map_filter_def)

lemma reported_Cons [simp]:
  "reported (l # ls) = (case line_exception l of None \<Rightarrow> [] | Some e \<Rightarrow> [e]) @ reported ls"
  by (simp add: reported_def map_filter_def split: option.splits)

lemma reported_append [simp]: "reported (a @ b) = reported a @ reported b"
  by (simp add: reported_def map_filter_def)

lemma absorbedI: "out s' = out s @ lines \<Longrightarrow> raised s' = raised s @ reported lines \<Longrightarrow> absorbed s s'"
  unfolding absorbed_def by blast

lemma absorbed_refl [simp]: "absorbed s s"
  by (rule absorbedI[of _ _ "[]"]) simp_all

lemma absorbed_trans: "absorbed a b \<Longrightarrow> absorbed b c \<Longrightarrow> absorbed a c"
proof -
  assume "absorbed a b" "absorbed b c"
  then obtain l1 l2 where "out b = out a @ l1" "raised b = raised a @ reported l1"
    "out c = out b @ l2" "raised c = raised b @ reported l2"
    unfolding absorbed_def by blast
  then show ?thesis
    by (intro absorbedI[of _ _ "l1 @ l2"]) simp_all
qed

lemma absorbed_print: "line_exception l = None \<Longrightarrow> absorbed s s' \<Longrightarrow> absorbed s (print l s')"
proof -
  assume l: "line_exception l = None" and "absorbed s s'"
  then obtain ls where "out s' = out s @ ls" "raised s' = raised s @ reported ls"
    unfolding absorbed_def by blast
  with l show ?thesis
    by (intro absorbedI[of _ _ "ls @ [l]"]) simp_all
qed

lemma absorbed_print_exc:
  "line_exception l = Some e \<Longrightarrow> out s' = out s \<Longrightarrow> raised s' = raised s @ [e] \<Longrightarrow>
     absorbed s (print l s')"
  by (intro absorbedI[of _ _ "[l]"]) simp_all

lemma line_exception_simps [simp]:
  "line_exception fetching_line = None"
  "line_exception no_pages_line = None"
  "line_exception (found_line pages) = None"
  "line_exception pages_header_line = None"
  "line_exception (display_line i title pid) = None"
  "line_exception updating_line = None"
  "line_exception (skip_line title) = None"
  "line_exception (version_line a b) = None"
  "line_exception complete_line = None"
  "line_exception (updated_line title) = None"
  "line_exception (response_line txt) = None"
  "line_exception [Lit x] = None"
  "line_exception (listing_error_line e) = Some e"
  "line_exception (fetch_error_line pid e) = Some e"
  "line_exception (update_error_line title e) = Some e"
  by (simp_all add: fetching_line_def no_pages_line_def found_line_def pages_header_line_def
      display_line_def updating_line_def skip_line_def version_line_def complete_line_def
      updated_line_def response_line_def listing_error_line_def fetch_error_line_def
      update_error_line_def)

lemma sublist_app1: "sublist m a \<Longrightarrow> sublist m (a @ b)"
  unfolding sublist_def by (metis append.assoc)

lemma sublist_app2: "sublist m b \<Longrightarrow> sublist m (a @ b)"
  unfolding sublist_def by (metis append.assoc)

lemma marker_in_heading:
  "sublist MARKER (''<h2>'' @ [CHR 0xF0, CHR 0x9F, CHR 0x9A, CHR 0x80] @
     '' Latest Updates - Ingestion &amp; Cleansing Lambda v2.0</h2>\<newline>'')"
proof -
  have "'' Latest Updates - Ingestion &amp; Cleansing Lambda v2.0</h2>\<newline>'' =
        '' Latest Updates - '' @ MARKER @ ''</h2>\<newline>''"
    by (simp add: MARKER_def)
  then show ?thesis
    by (metis sublist_app2 sublist_appendI)
qed

lemma marker_in_status_section: "sublist MARKER create_lambda_status_section"
  unfolding create_lambda_status_section_def
  apply (rule sublist_app2, rule sublist_app2, rule sublist_app2, rule sublist_app2)
  apply (rule sublist_app2, rule sublist_app2, rule sublist_app2, rule sublist_app2)
  apply (rule sublist_app1)
  apply (rule marker_in_heading)
  done

lemma requests_get_sent:
  "requests_get T url params s = (r, s') \<Longrightarrow> sent s' = sent s @ [GET url params]"
  by (auto simp: requests_get_def split: prod.splits)

lemma requests_put_sent:
  "requests_put T url payload s = (r, s') \<Longrightarrow> sent s' = sent s @ [PUT url payload]"
  by (auto simp: requests_put_def split: prod.splits)

lemma listing_loop_sent:
  assumes "listing_loop T url params acc s = Some y"
  shows "\<exists>new. sent (snd y) = sent s @ new \<and> list_all is_get new"
  using assms
proof (induction T url params acc s y rule: listing_loop.raw_induct[rotated 1, consumes 1])
  case (1 loop T url params acc s y)
  note IH = "1.IH" and step = "1.hyps"
  obtain r s1 where g: "requests_get T url params s = (r, s1)"
    by (cases "requests_get T url params s")
  then have s1: "sent s1 = sent s @ [GET url params]"
    by (rule requests_get_sent)
  show ?case
  proof (cases r)
    case (Inl e)
    with step g s1 show ?thesis by auto
  next
    case (Inr data)
    show ?thesis
    proof (cases "listing_body data acc")
      case (Inl err)
      with step g s1 Inr show ?thesis by auto
    next
      case (Inr res)
      obtain acc' nxt where res: "res = (acc', nxt)" by (cases res)
      show ?thesis
      proof (cases nxt)
        case None
        with step g s1 \<open>r = Inr data\<close> Inr res show ?thesis by auto
      next
        case (Some url')
        with step g \<open>r = Inr data\<close> Inr res
        have "loop T [Lit url'] (JDict []) acc' s1 = Some y" by simp
        from IH[OF this] obtain new where "sent (snd y) = sent s1 @ new" "list_all is_get new"
          by blast
        with s1 show ?thesis by auto
      qed
    qed
  qed
qed

lemma get_all_pages_sent:
  assumes "get_all_pages_in_space T key s = Some (r, s')"
  shows "\<exists>new. sent s' = sent s @ new \<and> list_all is_get new"
proof -
  from assms obtain y where y: "listing_loop T listing_url (listing_params key) [] s = Some y"
    and s': "sent s' = sent (snd y)"
    by (auto simp: get_all_pages_in_space_def split: option.splits prod.splits listing_outcome.splits)
  from listing_loop_sent[OF y] s' show ?thesis by simp
qed

lemma get_page_content_sent:
  "get_page_content T pid s = (fp, s') \<Longrightarrow> sent s' = sent s @ [GET (page_url pid) page_params]"
  by (auto simp: get_page_content_def split: prod.splits sum.splits dest: requests_get_sent)

lemma update_page_sent:
  "update_page T pid title content version s = (r, s') \<Longrightarrow>
     (\<exists>e. r = Inl e \<and> s' = s) \<or>
     (\<exists>n b. py_add_one version = Inr n \<and> r = Inr b \<and>
        sent s' = sent s @ [PUT (page_url pid) (update_payload title content n)])"
  by (auto simp: update_page_def Let_def split: prod.splits sum.splits option.splits
      dest: requests_put_sent)

lemma py_str_add_Inr_iff: "py_str_add a x = Inr y \<longleftrightarrow> (\<exists>t. x = JStr t \<and> y = a @ t)"
  by (cases x) auto

lemma process_page_sent_aux:
  assumes "process_page T lsc page s = (r, s')"
    and "py_getitem page ''id'' = Inr pid" and "py_getitem page ''title'' = Inr title"
    and "get_page_content T pid s = (fp, s1)"
  shows "sent s' = sent s1 \<or>
         (\<exists>c v r2 s2. update_page T pid title (lsc @ ''\<newline>\<newline>'' @ c) v s1 = (r2, s2) \<and> sent s' = sent s2)"
  using assms
  by (auto simp: process_page_def py_str_add_Inr_iff split: sum.splits prod.splits bool.splits if_splits)
     blast+

lemma process_page_sent:
  assumes "process_page T lsc page s = (r, s')"
  shows "\<exists>new. sent s' = sent s @ new \<and> (\<forall>q \<in> set new. is_update q \<longrightarrow> update_of lsc page q)"
proof (cases "py_getitem page ''id''")
  case (Inl e)
  with assms show ?thesis by (simp add: process_page_def)
next
  case pid: (Inr pid)
  show ?thesis
  proof (cases "py_getitem page ''title''")
    case (Inl e)
    with assms pid show ?thesis by (simp add: process_page_def)
  next
    case title: (Inr title)
    obtain fp s1 where fetch: "get_page_content T pid s = (fp, s1)"
      by (cases "get_page_content T pid s")
    note s1 = get_page_content_sent[OF fetch]
    from process_page_sent_aux[OF assms pid title fetch] show ?thesis
    proof
      assume "sent s' = sent s1"
      with s1 show ?thesis by auto
    next
      assume "\<exists>c v r2 s2. update_page T pid title (lsc @ ''\<newline>\<newline>'' @ c) v s1 = (r2, s2) \<and> sent s' = sent s2"
      then obtain c v r2 s2 where u: "update_page T pid title (lsc @ ''\<newline>\<newline>'' @ c) v s1 = (r2, s2)"
        and s2: "sent s' = sent s2" by blast
      from update_page_sent[OF u] show ?thesis
      proof
        assume "\<exists>e. r2 = Inl e \<and> s2 = s1"
        with s1 s2 show ?thesis by auto
      next
        assume "\<exists>n b. py_add_one v = Inr n \<and> r2 = Inr b \<and>
          sent s2 = sent s1 @ [PUT (page_url pid) (update_payload title (lsc @ ''\<newline>\<newline>'' @ c) n)]"
        then obtain n where
          n: "sent s2 = sent s1 @ [PUT (page_url pid) (update_payload title (lsc @ ''\<newline>\<newline>'' @ c) n)]"
          by blast
        have "update_of lsc page (PUT (page_url pid) (update_payload title (lsc @ ''\<newline>\<newline>'' @ c) n))"
          unfolding update_of_def using pid title by blast
        with n s1 s2 show ?thesis by auto
      qed
    qed
  qed
qed

lemma update_loop_sent:
  "update_loop T lsc pages s = (r, s') \<Longrightarrow>
     \<exists>new. sent s' = sent s @ new \<and>
       (\<forall>q \<in> set new. is_update q \<longrightarrow> (\<exists>page \<in> set pages. update_of lsc page q))"
proof (induction pages arbitrary: s)
  case Nil
  then show ?case by simp
next
  case (Cons page pages)
  obtain r1 s1 where p: "process_page T lsc page s = (r1, s1)"
    by (cases "process_page T lsc page s")
  from process_page_sent[OF p] obtain new1 where
    n1: "sent s1 = sent s @ new1" and
    u1: "\<forall>q \<in> set new1. is_update q \<longrightarrow> update_of lsc page q"
    by blast
  show ?case
  proof (cases r1)
    case (Inl e)
    with Cons.prems p have "s' = s1" by simp
    with n1 u1 show ?thesis by auto
  next
    case (Inr u)
    with Cons.prems p have "update_loop T lsc pages s1 = (r, s')" by simp
    from Cons.IH[OF this] obtain new2 where
      n2: "sent s' = sent s1 @ new2" and
      u2: "\<forall>q \<in> set new2. is_update q \<longrightarrow> (\<exists>page \<in> set pages. update_of lsc page q)"
      by blast
    have "sent s' = sent s @ (new1 @ new2)" using n1 n2 by simp
    moreover have "\<forall>q \<in> set (new1 @ new2). is_update q \<longrightarrow>
        (\<exists>page \<in> set (page # pages). update_of lsc page q)"
      using u1 u2 by auto
    ultimately show ?thesis by blast
  qed
qed

lemma display_pages_frame:
  "display_pages i pages s = (r, s') \<Longrightarrow> sent s' = sent s \<and> world s' = world s"
  by (induction pages arbitrary: i s) (auto split: sum.splits)

lemma main_sent:
  assumes "main T s = Some (r, s')"
  shows "\<exists>new. sent s' = sent s @ new \<and>
       (\<forall>q \<in> set new. is_update q \<longrightarrow>
          (\<exists>pages s1. get_all_pages_in_space T SPACE_KEY (print fetching_line s) = Some (Inr pages, s1) \<and>
             (\<exists>page \<in> set pages. update_of create_lambda_status_section page q)))"
proof -
  let ?s0 = "print fetching_line s"
  from assms obtain lr s1 where l: "get_all_pages_in_space T SPACE_KEY ?s0 = Some (lr, s1)"
    by (auto simp: main_def split: option.splits)
  from get_all_pages_sent[OF l] obtain new1 where
    n1: "sent s1 = sent s @ new1" and g1: "list_all is_get new1" by auto
  have noput: "\<forall>q \<in> set new1. \<not> is_update q"
  proof
    fix q assume "q \<in> set new1"
    with g1 have "is_get q" by (simp add: list_all_iff)
    then show "\<not> is_update q" by (cases q) auto
  qed
  show ?thesis
  proof (cases lr)
    case (Inl e)
    with assms l have "s' = s1" by (simp add: main_def)
    with n1 noput show ?thesis by auto
  next
    case (Inr pages)
    show ?thesis
    proof (cases "pages = []")
      case True
      with assms l Inr have "sent s' = sent s1" by (auto simp: main_def)
      with n1 noput show ?thesis by auto
    next
      case False
      let ?s2 = "print pages_header_line (print (found_line pages) s1)"
      obtain dr s2 where d: "display_pages 1 pages ?s2 = (dr, s2)"
        by (cases "display_pages 1 pages ?s2")
      from display_pages_frame[OF d] have s2: "sent s2 = sent s1" by simp
      show ?thesis
      proof (cases dr)
        case (Inl e)
        with assms l \<open>lr = Inr pages\<close> False d have "s' = s2" by (simp add: main_def)
        with s2 n1 noput show ?thesis by auto
      next
        case (Inr u)
        let ?s3 = "print [Lit (rule60 @ ''\<newline>'')] (print updating_line (print [Lit (''\<newline>'' @ rule60)] s2))"
        obtain ur s3 where ul: "update_loop T create_lambda_status_section pages ?s3 = (ur, s3)"
          by (cases "update_loop T create_lambda_status_section pages ?s3")
        from assms l \<open>lr = Inr pages\<close> False d Inr ul have "sent s' = sent s3"
          by (auto simp: main_def split: sum.splits)
        moreover from update_loop_sent[OF ul] obtain new2 where
          "sent s3 = sent ?s3 @ new2" and
          u2: "\<forall>q \<in> set new2. is_update q \<longrightarrow>
              (\<exists>page \<in> set pages. update_of create_lambda_status_section page q)"
          by blast
        ultimately have "sent s' = sent s @ (new1 @ new2)"
          using s2 n1 by simp
        moreover have "\<forall>q \<in> set (new1 @ new2). is_update q \<longrightarrow>
          (\<exists>pages s1. get_all_pages_in_space T SPACE_KEY ?s0 = Some (Inr pages, s1) \<and>
             (\<exists>page \<in> set pages. update_of create_lambda_status_section page q))"
        proof (intro ballI impI)
          fix q assume q: "q \<in> set (new1 @ new2)" "is_update q"
          with noput have "q \<in> set new2" by auto
          with u2 q have "\<exists>page \<in> set pages. update_of create_lambda_status_section page q" by blast
          with l \<open>lr = Inr pages\<close>
          show "\<exists>pages s1. get_all_pages_in_space T SPACE_KEY ?s0 = Some (Inr pages, s1) \<and>
             (\<exists>page \<in> set pages. update_of create_lambda_status_section page q)" by blast
        qed
        ultimately show ?thesis by blast
      qed
    qed
  qed
qed

lemma main_updates_listed:
  assumes "main T s = Some (r, s')"
  shows "\<exists>new. sent s' = sent s @ new \<and>
           (\<forall>q \<in> set new. is_update q \<longrightarrow>
              (\<exists>pages s1 page page_id title content number.
                 get_all_pages_in_space T SPACE_KEY (print fetching_line s) = Some (Inr pages, s1) \<and>
                 page \<in> set pages \<and>
                 py_getitem page ''id'' = Inr page_id \<and> py_getitem page ''title'' = Inr title \<and>
                 q = PUT (page_url page_id) (update_payload title content number) \<and>
                 field (update_payload title content number) ''title'' = Some title \<and>
                 field (update_payload title content number) ''type'' = Some (JStr ''page'')))"
proof -
  from main_sent[OF assms] obtain new where
    n: "sent s' = sent s @ new" and
    u: "\<forall>q \<in> set new. is_update q \<longrightarrow>
          (\<exists>pages s1. get_all_pages_in_space T SPACE_KEY (print fetching_line s) = Some (Inr pages, s1) \<and>
             (\<exists>page \<in> set pages. update_of create_lambda_status_section page q))"
    by blast
  have f: "field (update_payload title content number) ''title'' = Some title \<and>
           field (update_payload title content number) ''type'' = Some (JStr ''page'')"
    for title content number
    by (simp add: update_payload_def)
  have "\<exists>pages s1 page page_id title content number.
                 get_all_pages_in_space T SPACE_KEY (print fetching_line s) = Some (Inr pages, s1) \<and>
                 page \<in> set pages \<and>
                 py_getitem page ''id'' = Inr page_id \<and> py_getitem page ''title'' = Inr title \<and>
                 q = PUT (page_url page_id) (update_payload title content number) \<and>
                 field (update_payload title content number) ''title'' = Some title \<and>
                 field (update_payload title content number) ''type'' = Some (JStr ''page'')"
    if "q \<in> set new" "is_update q" for q
  proof -
    from u that obtain pages s1 page where
      l: "get_all_pages_in_space T SPACE_KEY (print fetching_line s) = Some (Inr pages, s1)"
      and p: "page \<in> set pages" "update_of create_lambda_status_section page q" by blast
    from p(2) obtain pid title c n where
      "py_getitem page ''id'' = Inr pid" "py_getitem page ''title'' = Inr title"
      "q = PUT (page_url pid) (update_payload title (create_lambda_status_section @ ''\<newline>\<newline>'' @ c) n)"
      unfolding update_of_def by blast
    with l p(1) f show ?thesis by blast
  qed
  with n show ?thesis by blast
qed

lemma results_okD: "results_ok x \<Longrightarrow> x = None \<or> (\<exists>xs. x = Some (JList xs))"
  by (cases x rule: results_ok.cases) auto

lemma next_okD: "next_ok x \<Longrightarrow> x = None \<or> (\<exists>n. x = Some (JStr n))"
  by (cases x rule: next_ok.cases) auto

lemma links_okD:
  "links_ok x \<Longrightarrow> x = None \<or> (\<exists>ls. x = Some (JDict ls) \<and> next_ok (map_of ls ''next''))"
  by (cases x rule: links_ok.cases) auto

lemma listing_body_wf:
  assumes "wf_listing r"
  shows "listing_body r acc =
           Inr (acc @ results_of r, map_option (\<lambda>n. CONFLUENCE_BASE_URL @ n) (next_link r))"
proof -
  from assms obtain kvs where r: "r = JDict kvs"
    by (cases r) auto
  from assms r have "results_ok (map_of kvs ''results'')" and l: "links_ok (map_of kvs ''_links'')"
    by auto
  from results_okD[OF this(1)] obtain items where items:
    "py_get r ''results'' (JList []) = Inr (JList items)" "results_of r = items"
    unfolding r by (auto simp: results_of_def)
  from links_okD[OF l] next_okD consider
      (nolinks) "map_of kvs ''_links'' = None"
    | (nonext) ls where "map_of kvs ''_links'' = Some (JDict ls)" "map_of ls ''next'' = None"
    | (withnext) ls n where "map_of kvs ''_links'' = Some (JDict ls)" "map_of ls ''next'' = Some (JStr n)"
    by metis
  then show ?thesis
  proof cases
    case nolinks
    then have "next_link r = None" by (simp add: next_link_def r)
    with nolinks items show ?thesis
      by (simp add: listing_body_def r)
  next
    case nonext
    then have "next_link r = None" by (simp add: next_link_def r)
    with nonext items show ?thesis
      by (simp add: listing_body_def r)
  next
    case withnext
    then have "next_link r = Some n" by (simp add: next_link_def r)
    with withnext items show ?thesis
      by (simp add: listing_body_def r)
  qed
qed

lemma listing_loop_chain:
  "chain k T (world s) url params = Some (rs, fin, w') \<Longrightarrow> list_all wf_listing rs \<Longrightarrow>
   listing_loop T url params acc s =
     Some (case fin of None \<Rightarrow> Returned (acc @ concat (map results_of rs)) | Some e \<Rightarrow> Caught e,
           s\<lparr>world := w', sent := sent s @ chain_requests url params rs,
             raised := raised s @ (case fin of None \<Rightarrow> [] | Some e \<Rightarrow> [e])\<rparr>)"
proof (induction k arbitrary: s url params acc rs)
  case 0
  then show ?case by simp
next
  case (Suc k)
  obtain r w1 where g: "http_get T (world s) url params = (r, w1)"
    by (cases "http_get T (world s) url params")
  let ?s1 = "s\<lparr>world := w1, sent := sent s @ [GET url params]\<rparr>"
  have rg: "requests_get T url params s =
      (r, ?s1\<lparr>raised := raised s @ (case r of Inl e \<Rightarrow> [e] | Inr _ \<Rightarrow> [])\<rparr>)"
    by (simp add: requests_get_def g)
  show ?case
  proof (cases r)
    case (Inl e)
    with Suc.prems g have "rs = []" "fin = Some e" "w' = w1" by auto
    with rg Inl show ?thesis
      by (subst listing_loop.simps) simp
  next
    case (Inr data)
    with rg have rg: "requests_get T url params s = (r, ?s1)" by simp
    show ?thesis
    proof (cases "next_link data")
      case None
      with Suc.prems g Inr have *: "rs = [data]" "fin = None" "w' = w1" by auto
      with Suc.prems have "wf_listing data" by simp
      from listing_body_wf[OF this] None rg Inr * show ?thesis
        by (subst listing_loop.simps) simp
    next
      case (Some n)
      with Suc.prems g Inr obtain rs' where
        c: "chain k T w1 [Lit (CONFLUENCE_BASE_URL @ n)] (JDict []) = Some (rs', fin, w')"
        and rs: "rs = data # rs'"
        by (auto split: option.splits)
      with Suc.prems have wf: "wf_listing data" "list_all wf_listing rs'" by auto
      have "chain k T (world ?s1) [Lit (CONFLUENCE_BASE_URL @ n)] (JDict []) = Some (rs', fin, w')"
        using c by simp
      from Suc.IH[OF this wf(2), of "acc @ results_of data"]
      have "listing_loop T [Lit (CONFLUENCE_BASE_URL @ n)] (JDict []) (acc @ results_of data) ?s1 =
        Some (case fin of None \<Rightarrow> Returned ((acc @ results_of data) @ concat (map results_of rs'))
              | Some e \<Rightarrow> Caught e,
              ?s1\<lparr>world := w', sent := sent ?s1 @ chain_requests [Lit (CONFLUENCE_BASE_URL @ n)] (JDict []) rs',
                raised := raised ?s1 @ (case fin of None \<Rightarrow> [] | Some e \<Rightarrow> [e])\<rparr>)" .
      with listing_body_wf[OF wf(1)] Some rg Inr rs show ?thesis
        by (subst listing_loop.simps) (simp split: option.splits)
    qed
  qed
qed

lemma get_all_pages_chain:
  assumes "chain k T (world s) listing_url (listing_params key) = Some (rs, fin, w')"
    and "list_all wf_listing rs"
  shows "get_all_pages_in_space T key s =
     (case fin of
        None \<Rightarrow> Some (Inr (concat (map results_of rs)),
                      s\<lparr>world := w', sent := sent s @ chain_requests listing_url (listing_params key) rs\<rparr>)
      | Some e \<Rightarrow> Some (Inr [],
                      print (listing_error_line e)
                        (s\<lparr>world := w', sent := sent s @ chain_requests listing_url (listing_params key) rs,
                           raised := raised s @ [e]\<rparr>)))"
  using listing_loop_chain[OF assms, of "[]"]
  by (simp add: get_all_pages_in_space_def split: option.splits)

lemma field_getitem: "field j k = Some v \<Longrightarrow> py_getitem j k = Inr v"
  by (cases j) auto

lemma field_truthy: "field j k = Some v \<Longrightarrow> py_truthy j"
  by (cases j) auto

lemma page_versionD:
  assumes "page_version fp = Some v"
  shows "\<exists>ver. py_getitem fp ''version'' = Inr ver \<and> py_getitem ver ''number'' = Inr (JInt v) \<and>
           py_truthy fp"
proof -
  from assms obtain ver where v: "field fp ''version'' = Some ver"
    by (auto simp: page_version_def split: option.splits)
  with assms have "field ver ''number'' = Some (JInt v)"
    by (auto simp: page_version_def split: option.splits json.splits)
  with v show ?thesis
    by (auto dest: field_getitem field_truthy)
qed

lemma page_bodyD:
  assumes "page_body fp = Some c"
  shows "\<exists>b st. py_getitem fp ''body'' = Inr b \<and> py_getitem b ''storage'' = Inr st \<and>
           py_getitem st ''value'' = Inr (JStr c)"
proof -
  from assms obtain b where b: "field fp ''body'' = Some b"
    by (auto simp: page_body_def split: option.splits)
  with assms obtain st where st: "field b ''storage'' = Some st"
    by (auto simp: page_body_def split: option.splits)
  with assms b have "field st ''value'' = Some (JStr c)"
    by (auto simp: page_body_def split: option.splits json.splits)
  with b st show ?thesis
    by (auto dest: field_getitem)
qed

lemma update_page_int:
  assumes "http_put T (world s) (page_url pid) (update_payload title content (JInt (v + 1))) = (r, w')"
  shows "update_page T pid title content (JInt v) s =
    (let s1 = s\<lparr>world := w',
                 sent := sent s @ [PUT (page_url pid) (update_payload title content (JInt (v + 1)))],
                 raised := raised s @ (case r of Inl e \<Rightarrow> [e] | Inr _ \<Rightarrow> [])\<rparr>
     in case r of
          Inr _ \<Rightarrow> (Inr True, print (updated_line title) s1)
        | Inl e \<Rightarrow>
            (Inr False,
             case exc_response_text e of
               Some txt \<Rightarrow> print (response_line txt) (print (update_error_line title e) s1)
             | None \<Rightarrow> print (update_error_line title e) s1))"
  using assms
  by (simp add: update_page_def requests_put_def Let_def split: sum.splits)

lemma get_page_content_run:
  assumes "http_get T (world s) (page_url pid) page_params = (r, w')"
  shows "get_page_content T pid s =
    (let s1 = s\<lparr>world := w', sent := sent s @ [GET (page_url pid) page_params],
                 raised := raised s @ (case r of Inl e \<Rightarrow> [e] | Inr _ \<Rightarrow> [])\<rparr>
     in case r of Inr page \<Rightarrow> (page, s1) | Inl e \<Rightarrow> (JDict [], print (fetch_error_line pid e) s1))"
  using assms
  by (simp add: get_page_content_def requests_get_def Let_def split: sum.splits)

lemma process_page_fetch_failed:
  assumes "py_getitem page ''id'' = Inr pid" "py_getitem page ''title'' = Inr title"
    and "http_get T (world s) (page_url pid) page_params = (Inl e, w')"
  shows "process_page T lsc page s =
    (Inr (), print (fetch_error_line pid e)
               (s\<lparr>world := w', sent := sent s @ [GET (page_url pid) page_params],
                  raised := raised s @ [e]\<rparr>))"
  using assms
  by (simp add: process_page_def get_page_content_run[OF assms(3)])

lemma process_page_skip:
  assumes "py_getitem page ''id'' = Inr pid" "py_getitem page ''title'' = Inr title"
    and "http_get T (world s) (page_url pid) page_params = (Inr fp, w')"
    and "page_version fp = Some v" "page_body fp = Some c" "sublist MARKER c"
  shows "process_page T lsc page s =
    (Inr (), print (skip_line title)
               (s\<lparr>world := w', sent := sent s @ [GET (page_url pid) page_params]\<rparr>))"
proof -
  from page_versionD[OF assms(4)] obtain ver where
    "py_getitem fp ''version'' = Inr ver" "py_getitem ver ''number'' = Inr (JInt v)" "py_truthy fp"
    by blast
  moreover from page_bodyD[OF assms(5)] obtain b st where
    "py_getitem fp ''body'' = Inr b" "py_getitem b ''storage'' = Inr st"
    "py_getitem st ''value'' = Inr (JStr c)"
    by blast
  ultimately show ?thesis
    using assms(1,2,6)
    by (simp add: process_page_def get_page_content_run[OF assms(3)])
qed

lemma process_page_update:
  assumes "py_getitem page ''id'' = Inr pid" "py_getitem page ''title'' = Inr title"
    and "http_get T (world s) (page_url pid) page_params = (Inr fp, w1)"
    and "page_version fp = Some v" "page_body fp = Some c" "\<not> sublist MARKER c"
    and "http_put T w1 (page_url pid) (update_payload title (lsc @ ''\<newline>\<newline>'' @ c) (JInt (v + 1))) = (r, w2)"
  shows "process_page T lsc page s =
    (let s2 = s\<lparr>world := w2,
                 sent := sent s @ [GET (page_url pid) page_params,
                   PUT (page_url pid) (update_payload title (lsc @ ''\<newline>\<newline>'' @ c) (JInt (v + 1)))],
                 raised := raised s @ (case r of Inl e \<Rightarrow> [e] | Inr _ \<Rightarrow> [])\<rparr>
     in case r of
          Inr _ \<Rightarrow> (Inr (), print (version_line (JInt v) (JInt (v + 1))) (print (updated_line title) s2))
        | Inl e \<Rightarrow>
            (Inr (),
             case exc_response_text e of
               Some txt \<Rightarrow> print (response_line txt) (print (update_error_line title e) s2)
             | None \<Rightarrow> print (update_error_line title e) s2))"
proof -
  let ?s1 = "s\<lparr>world := w1, sent := sent s @ [GET (page_url pid) page_params]\<rparr>"
  from page_versionD[OF assms(4)] obtain ver where
    "py_getitem fp ''version'' = Inr ver" "py_getitem ver ''number'' = Inr (JInt v)" "py_truthy fp"
    by blast
  moreover from page_bodyD[OF assms(5)] obtain b st where
    "py_getitem fp ''body'' = Inr b" "py_getitem b ''storage'' = Inr st"
    "py_getitem st ''value'' = Inr (JStr c)"
    by blast
  moreover have "http_put T (world ?s1) (page_url pid)
      (update_payload title ((lsc @ ''\<newline>\<newline>'') @ c) (JInt (v + 1))) = (r, w2)"
    using assms(7) by simp
  note update_page_int[OF this]
  ultimately show ?thesis
    using assms(1,2,6)
    by (simp add: process_page_def get_page_content_run[OF assms(3)] Let_def split: sum.splits)
qed

lemma wf_summaryD:
  assumes "wf_summary page"
  shows "\<exists>i t. summary_id page = Some i \<and> summary_title page = Some t \<and>
           py_getitem page ''id'' = Inr (JStr i) \<and> py_getitem page ''title'' = Inr (JStr t)"
proof -
  from assms obtain i t where it: "summary_id page = Some i" "summary_title page = Some t"
    by (auto simp: wf_summary_def)
  then have "field page ''id'' = Some (JStr i)" "field page ''title'' = Some (JStr t)"
    by (auto simp: summary_id_def summary_title_def split: option.splits json.splits)
  with it show ?thesis by (auto dest: field_getitem)
qed

lemma display_pages_ok:
  "list_all wf_summary pages \<Longrightarrow>
     \<exists>s'. display_pages i pages s = (Inr (), s') \<and> world s' = world s \<and> sent s' = sent s \<and>
        absorbed s s' \<and> raised s' = raised s"
proof (induction pages arbitrary: i s)
  case Nil
  then show ?case by simp
next
  case (Cons page pages)
  from Cons.prems have "wf_summary page" "list_all wf_summary pages" by auto
  from wf_summaryD[OF this(1)] obtain pid t where
    ids: "py_getitem page ''id'' = Inr (JStr pid)" "py_getitem page ''title'' = Inr (JStr t)" by blast
  let ?s1 = "print (display_line i (JStr t) (JStr pid)) s"
  from Cons.IH[OF \<open>list_all wf_summary pages\<close>, of "i + 1" ?s1]
  obtain s' where d: "display_pages (i + 1) pages ?s1 = (Inr (), s')"
    "world s' = world s" "sent s' = sent s" "raised s' = raised s" and a: "absorbed ?s1 s'"
    by auto
  have "absorbed s ?s1"
    by (rule absorbed_print) simp_all
  from absorbed_trans[OF this a] ids d show ?case by simp
qed

lemma process_page_ok:
  assumes "wf_summary page"
    and "\<forall>w pid fp w'. http_get T w (page_url pid) page_params = (Inr fp, w') \<longrightarrow> wf_page fp"
  shows "\<exists>s'. process_page T lsc page s = (Inr (), s') \<and> absorbed s s'"
proof -
  from wf_summaryD[OF assms(1)] obtain i t where
    ids: "py_getitem page ''id'' = Inr (JStr i)" "py_getitem page ''title'' = Inr (JStr t)" by blast
  obtain r w1 where g: "http_get T (world s) (page_url (JStr i)) page_params = (r, w1)"
    by (cases "http_get T (world s) (page_url (JStr i)) page_params")
  show ?thesis
  proof (cases r)
    case (Inl e)
    let ?s1 = "s\<lparr>world := w1, sent := sent s @ [GET (page_url (JStr i)) page_params],
                 raised := raised s @ [e]\<rparr>"
    have "absorbed s (print (fetch_error_line (JStr i) e) ?s1)"
      by (rule absorbed_print_exc[of _ e]) simp_all
    with process_page_fetch_failed[OF ids, of T s e w1 lsc] g Inl show ?thesis by simp
  next
    case (Inr fp)
    with g assms(2) have "wf_page fp" by blast
    then obtain v c where vc: "page_version fp = Some v" "page_body fp = Some c"
      by (auto simp: wf_page_def)
    show ?thesis
    proof (cases "sublist MARKER c")
      case True
      let ?s1 = "s\<lparr>world := w1, sent := sent s @ [GET (page_url (JStr i)) page_params]\<rparr>"
      have "absorbed s ?s1"
        by (rule absorbedI[of _ _ "[]"]) simp_all
      then have "absorbed s (print (skip_line (JStr t)) ?s1)"
        by (intro absorbed_print) simp_all
      with process_page_skip[OF ids _ vc, of T s w1 lsc] g Inr True show ?thesis by simp
    next
      case False
      let ?put = "PUT (page_url (JStr i))
           (update_payload (JStr t) (lsc @ ''\<newline>\<newline>'' @ c) (JInt (v + 1)))"
      obtain r2 w2 where
        p: "http_put T w1 (page_url (JStr i))
           (update_payload (JStr t) (lsc @ ''\<newline>\<newline>'' @ c) (JInt (v + 1))) = (r2, w2)"
        by (cases "http_put T w1 (page_url (JStr i))
           (update_payload (JStr t) (lsc @ ''\<newline>\<newline>'' @ c) (JInt (v + 1)))")
      have g': "http_get T (world s) (page_url (JStr i)) page_params = (Inr fp, w1)"
        using g Inr by simp
      note pp = process_page_update[OF ids g' vc False p]
      show ?thesis
      proof (cases r2)
        case (Inr u)
        let ?s2 = "s\<lparr>world := w2, sent := sent s @ [GET (page_url (JStr i)) page_params, ?put],
                     raised := raised s @ []\<rparr>"
        have "absorbed s ?s2"
          by (rule absorbedI[of _ _ "[]"]) simp_all
        then have "absorbed s (print (version_line (JInt v) (JInt (v + 1)))
                      (print (updated_line (JStr t)) ?s2))"
          by (intro absorbed_print) simp_all
        with pp Inr show ?thesis by (simp add: Let_def)
      next
        case (Inl e)
        let ?s2 = "s\<lparr>world := w2, sent := sent s @ [GET (page_url (JStr i)) page_params, ?put],
                     raised := raised s @ [e]\<rparr>"
        have a: "absorbed s (print (update_error_line (JStr t) e) ?s2)"
          by (rule absorbed_print_exc[of _ e]) simp_all
        have "absorbed s (print (response_line rt) (print (update_error_line (JStr t) e) ?s2))"
          for rt
          by (rule absorbed_print[OF _ a]) simp
        with a pp Inl show ?thesis
          by (cases "exc_response_text e") (simp_all add: Let_def)
      qed
    qed
  qed
qed

lemma update_loop_ok:
  assumes "\<forall>w pid fp w'. http_get T w (page_url pid) page_params = (Inr fp, w') \<longrightarrow> wf_page fp"
  shows "list_all wf_summary pages \<Longrightarrow>
           \<exists>s'. update_loop T lsc pages s = (Inr (), s') \<and> absorbed s s'"
proof (induction pages arbitrary: s)
  case Nil
  then show ?case by simp
next
  case (Cons page pages)
  from Cons.prems have "wf_summary page" "list_all wf_summary pages" by auto
  from process_page_ok[OF this(1) assms] obtain s1 where
    p: "process_page T lsc page s = (Inr (), s1)" and a1: "absorbed s s1" by blast
  from Cons.IH[OF \<open>list_all wf_summary pages\<close>] obtain s' where
    l: "update_loop T lsc pages s1 = (Inr (), s')" and a2: "absorbed s1 s'" by blast
  from absorbed_trans[OF a1 a2] p l show ?case by simp
qed

lemma main_listing_failed:
  assumes "chain k T (world s) listing_url (listing_params SPACE_KEY) = Some (rs, Some e, w1)"
    and "list_all wf_listing rs"
  shows "main T s = Some (Inr (),
     s\<lparr>world := w1,
       sent := sent s @ chain_requests listing_url (listing_params SPACE_KEY) rs,
       out := out s @ [fetching_line, listing_error_line e, no_pages_line],
       raised := raised s @ [e]\<rparr>)"
proof -
  have "chain k T (world (print fetching_line s)) listing_url (listing_params SPACE_KEY) =
          Some (rs, Some e, w1)"
    using assms(1) by simp
  from get_all_pages_chain[OF this assms(2)] show ?thesis
    by (simp add: main_def print_def)
qed

lemma main_listing_ok:
  assumes "chain k T (world s) listing_url (listing_params SPACE_KEY) = Some (rs, None, w1)"
    and "list_all wf_listing rs"
    and "list_all wf_summary (concat (map results_of rs))"
  shows "\<exists>s2. world s2 = w1 \<and>
     sent s2 = sent s @ chain_requests listing_url (listing_params SPACE_KEY) rs \<and>
     absorbed s s2 \<and> raised s2 = raised s \<and>
     main T s =
       (if concat (map results_of rs) = [] then Some (Inr (), s2)
        else case update_loop T create_lambda_status_section (concat (map results_of rs)) s2 of
               (Inl err, s3) \<Rightarrow> Some (Inl err, s3)
             | (Inr _, s3) \<Rightarrow>
                 Some (Inr (), print [Lit rule60] (print complete_line (print [Lit rule60] s3))))"
proof -
  let ?pages = "concat (map results_of rs)"
  let ?s1 = "(print fetching_line s)\<lparr>world := w1,
      sent := sent (print fetching_line s) @ chain_requests listing_url (listing_params SPACE_KEY) rs\<rparr>"
  have "chain k T (world (print fetching_line s)) listing_url (listing_params SPACE_KEY) =
          Some (rs, None, w1)"
    using assms(1) by simp
  from get_all_pages_chain[OF this assms(2)]
  have l: "get_all_pages_in_space T SPACE_KEY (print fetching_line s) = Some (Inr ?pages, ?s1)"
    by simp
  have a1: "absorbed s ?s1"
    by (rule absorbedI[of _ _ "[fetching_line]"]) simp_all
  show ?thesis
  proof (cases "?pages = []")
    case True
    with l have "main T s = Some (Inr (), print no_pages_line ?s1)"
      by (simp add: main_def)
    moreover from a1 have "absorbed s (print no_pages_line ?s1)"
      by (intro absorbed_print) simp_all
    ultimately show ?thesis using True
      by (intro exI[of _ "print no_pages_line ?s1"]) simp
  next
    case False
    from display_pages_ok[OF assms(3), of 1 "print pages_header_line (print (found_line ?pages) ?s1)"]
    obtain s2 where d: "display_pages 1 ?pages (print pages_header_line (print (found_line ?pages) ?s1)) = (Inr (), s2)"
      and s2: "world s2 = w1"
        "sent s2 = sent s @ chain_requests listing_url (listing_params SPACE_KEY) rs"
      and a2: "absorbed (print pages_header_line (print (found_line ?pages) ?s1)) s2"
      and r2: "raised s2 = raised s"
      by auto
    from a1 have "absorbed s (print pages_header_line (print (found_line ?pages) ?s1))"
      by (intro absorbed_print) simp_all
    from absorbed_trans[OF this a2] have a3: "absorbed s s2" .
    let ?s3 = "print [Lit (rule60 @ ''\<newline>'')] (print updating_line (print [Lit (''\<newline>'' @ rule60)] s2))"
    have "main T s =
        (if ?pages = [] then Some (Inr (), ?s3)
         else case update_loop T create_lambda_status_section ?pages ?s3 of
               (Inl err, s3) \<Rightarrow> Some (Inl err, s3)
             | (Inr _, s3) \<Rightarrow>
                 Some (Inr (), print [Lit rule60] (print complete_line (print [Lit rule60] s3))))"
      by (simp only: main_def l d False option.case prod.case sum.case if_False)
    moreover have "world ?s3 = w1" "sent ?s3 = sent s @ chain_requests listing_url (listing_params SPACE_KEY) rs"
      using s2 by simp_all
    moreover from a3 have "absorbed s ?s3"
      by (intro absorbed_print) simp_all
    moreover from r2 have "raised ?s3 = raised s" by simp
    ultimately show ?thesis by blast
  qed
qed

lemma main_returns:
  assumes "chain k T (world s) listing_url (listing_params SPACE_KEY) = Some (rs, fin, w1)"
    and "list_all wf_listing rs"
    and "list_all wf_summary (concat (map results_of rs))"
    and "\<forall>w pid fp w'. http_get T w (page_url pid) page_params = (Inr fp, w') \<longrightarrow> wf_page fp"
  shows "\<exists>s'. main T s = Some (Inr (), s') \<and> absorbed s s'"
proof (cases fin)
  case (Some e)
  with assms(1) have "chain k T (world s) listing_url (listing_params SPACE_KEY) = Some (rs, Some e, w1)"
    by simp
  note m = main_listing_failed[OF this assms(2)]
  let ?s' = "s\<lparr>world := w1,
       sent := sent s @ chain_requests listing_url (listing_params SPACE_KEY) rs,
       out := out s @ [fetching_line, listing_error_line e, no_pages_line],
       raised := raised s @ [e]\<rparr>"
  have "absorbed s ?s'"
    by (rule absorbedI[of _ _ "[fetching_line, listing_error_line e, no_pages_line]"]) simp_all
  with m show ?thesis by blast
next
  case None
  with assms(1) have "chain k T (world s) listing_url (listing_params SPACE_KEY) = Some (rs, None, w1)"
    by simp
  from main_listing_ok[OF this assms(2,3)] obtain s2 where
    a2: "absorbed s s2" and
    m: "main T s =
       (if concat (map results_of rs) = [] then Some (Inr (), s2)
        else case update_loop T create_lambda_status_section (concat (map results_of rs)) s2 of
               (Inl err, s3) \<Rightarrow> Some (Inl err, s3)
             | (Inr _, s3) \<Rightarrow>
                 Some (Inr (), print [Lit rule60] (print complete_line (print [Lit rule60] s3))))"
    by blast
  from update_loop_ok[OF assms(4) assms(3)] obtain s3 where
    l: "update_loop T create_lambda_status_section (concat (map results_of rs)) s2 = (Inr (), s3)"
    and a3: "absorbed s2 s3"
    by blast
  from absorbed_trans[OF a2 a3]
  have "absorbed s (print [Lit rule60] (print complete_line (print [Lit rule60] s3)))"
    by (intro absorbed_print) simp_all
  with m l a2 show ?thesis by simp
qed

section \<open>One pass of the loop on the fixture server\<close>

lemma page_id_of_page_url [simp]: "page_id_of (page_url pid) = Some pid"
  by (simp add: page_url_def)

lemma page_id_of_listing_url [simp]: "page_id_of listing_url = None"
  by (simp add: listing_url_def)

lemma page_id_of_next [simp]: "page_id_of [Lit u] = None"
  by simp

lemma page_url_inj [simp]: "page_url a = page_url b \<longleftrightarrow> a = b"
  by (simp add: page_url_def)

lemma payload_fields [simp]:
  "summary_title (update_payload (JStr t) c n) = Some t"
  "page_version (update_payload title c (JInt v)) = Some v"
  "page_body (update_payload title c n) = Some c"
  by (simp_all add: update_payload_def summary_title_def page_version_def page_body_def)

lemma page_json_fields [simp]:
  "page_version (page_json pid p) = Some (pg_version p)"
  "page_body (page_json pid p) = Some (pg_body p)"
  by (simp_all add: page_json_def page_version_def page_body_def)

lemma fx_get_fault:
  "next_fault (fx_faults w) = Some e \<Longrightarrow>
   http_get fixture_transport w url params = (Inl e, w\<lparr>fx_faults := tl (fx_faults w)\<rparr>)"
  by (simp add: fixture_transport_def fixture_get_def)

lemma fx_get_missing:
  "next_fault (fx_faults w) = None \<Longrightarrow> fx_pages w pid = None \<Longrightarrow>
   http_get fixture_transport w (page_url pid) params = (Inl not_found, w\<lparr>fx_faults := tl (fx_faults w)\<rparr>)"
  by (simp add: fixture_transport_def fixture_get_def)

lemma fx_get_page:
  "next_fault (fx_faults w) = None \<Longrightarrow> fx_pages w pid = Some p \<Longrightarrow>
   http_get fixture_transport w (page_url pid) params =
     (Inr (page_json pid p), w\<lparr>fx_faults := tl (fx_faults w)\<rparr>)"
  by (simp add: fixture_transport_def fixture_get_def)

lemma fx_get_listing:
  "next_fault (fx_faults w) = None \<Longrightarrow> page_id_of url = None \<Longrightarrow>
   http_get fixture_transport w url params =
     (Inr (fx_listing w url params), w\<lparr>fx_faults := tl (fx_faults w)\<rparr>)"
  by (simp add: fixture_transport_def fixture_get_def)

lemma fx_put_fault:
  "next_fault (fx_faults w) = Some e \<Longrightarrow>
   http_put fixture_transport w url payload = (Inl e, w\<lparr>fx_faults := tl (fx_faults w)\<rparr>)"
  by (simp add: fixture_transport_def fixture_put_def)

lemma fx_put_ok:
  "next_fault (fx_faults w) = None \<Longrightarrow> fx_pages w pid = Some p \<Longrightarrow>
   http_put fixture_transport w (page_url pid) (update_payload (JStr t) c (JInt (pg_version p + 1))) =
     (Inr (), w\<lparr>fx_faults := tl (fx_faults w),
               fx_pages := (fx_pages w)(pid \<mapsto> \<lparr>pg_title = t, pg_version = pg_version p + 1, pg_body = c\<rparr>)\<rparr>)"
  by (simp add: fixture_transport_def fixture_put_def)

lemma fx_fetch_wf:
  "\<forall>w pid fp w'. http_get fixture_transport w (page_url pid) page_params = (Inr fp, w') \<longrightarrow> wf_page fp"
  by (auto simp: fixture_transport_def fixture_get_def wf_page_def Let_def split: option.splits)

text \<open>One pass of the update loop on the fixture server: the three ways it can go.\<close>

lemma fx_process_page_cases:
  assumes ids: "py_getitem page ''id'' = Inr pid" "py_getitem page ''title'' = Inr (JStr t)"
  obtains
    (skip) s' where
      "process_page fixture_transport lsc page s = (Inr (), s')"
      "sent s' = sent s @ [GET (page_url pid) page_params]"
      "fx_pages (world s') = fx_pages (world s)"
      "fx_listing (world s') = fx_listing (world s)"
      "fx_faults (world s') = tl (fx_faults (world s))"
      "next_fault (fx_faults (world s)) \<noteq> None \<or> fx_pages (world s) pid = None \<or>
       (\<exists>p. fx_pages (world s) pid = Some p \<and> sublist MARKER (pg_body p))"
      "(\<exists>p. fx_pages (world s) pid = Some p \<and> sublist MARKER (pg_body p) \<and> raised s' = raised s) \<or>
       (\<exists>e. raised s' = raised s @ [e])"
  | (failed) s' p e where
      "process_page fixture_transport lsc page s = (Inr (), s')"
      "sent s' = sent s @ [GET (page_url pid) page_params,
         PUT (page_url pid) (update_payload (JStr t) (lsc @ ''\<newline>\<newline>'' @ pg_body p) (JInt (pg_version p + 1)))]"
      "fx_pages (world s') = fx_pages (world s)"
      "fx_listing (world s') = fx_listing (world s)"
      "fx_faults (world s') = tl (tl (fx_faults (world s)))"
      "fx_pages (world s) pid = Some p" "\<not> sublist MARKER (pg_body p)"
      "next_fault (tl (fx_faults (world s))) = Some e"
      "raised s' = raised s @ [e]"
  | (updated) s' p where
      "process_page fixture_transport lsc page s = (Inr (), s')"
      "sent s' = sent s @ [GET (page_url pid) page_params,
         PUT (page_url pid) (update_payload (JStr t) (lsc @ ''\<newline>\<newline>'' @ pg_body p) (JInt (pg_version p + 1)))]"
      "fx_pages (world s') = (fx_pages (world s))(pid \<mapsto>
         \<lparr>pg_title = t, pg_version = pg_version p + 1, pg_body = lsc @ ''\<newline>\<newline>'' @ pg_body p\<rparr>)"
      "fx_listing (world s') = fx_listing (world s)"
      "fx_faults (world s') = tl (tl (fx_faults (world s)))"
      "fx_pages (world s) pid = Some p" "\<not> sublist MARKER (pg_body p)"
      "next_fault (fx_faults (world s)) = None" "next_fault (tl (fx_faults (world s))) = None"
      "raised s' = raised s"
proof -
  let ?w = "world s"
  let ?w1 = "?w\<lparr>fx_faults := tl (fx_faults ?w)\<rparr>"
  show ?thesis
  proof (cases "next_fault (fx_faults ?w)")
    case (Some e)
    show ?thesis
      by (rule skip[OF process_page_fetch_failed[OF ids fx_get_fault[OF Some], where lsc=lsc]])
         (simp_all add: Some)
  next
    case None
    show ?thesis
    proof (cases "fx_pages ?w pid")
      case nopage: None
      show ?thesis
        by (rule skip[OF process_page_fetch_failed[OF ids fx_get_missing[OF None nopage], where lsc=lsc]])
           (simp_all add: nopage)
    next
      case (Some p)
      note g = fx_get_page[OF None Some, of page_params]
      show ?thesis
      proof (cases "sublist MARKER (pg_body p)")
        case True
        have "process_page fixture_transport lsc page s =
            (Inr (), print (skip_line (JStr t))
               (s\<lparr>world := ?w1, sent := sent s @ [GET (page_url pid) page_params]\<rparr>))"
          by (rule process_page_skip[OF ids g _ _ True]) simp_all
        then show ?thesis
          by (rule skip) (simp_all add: Some True)
      next
        case False
        show ?thesis
        proof (cases "next_fault (tl (fx_faults ?w))")
          case fault: (Some e)
          have "http_put fixture_transport ?w1 (page_url pid)
              (update_payload (JStr t) (lsc @ ''\<newline>\<newline>'' @ pg_body p) (JInt (pg_version p + 1))) =
              (Inl e, ?w1\<lparr>fx_faults := tl (fx_faults ?w1)\<rparr>)"
            by (rule fx_put_fault) (simp add: fault)
          from process_page_update[OF ids g _ _ False this, simplified]
          obtain s' where pp: "process_page fixture_transport lsc page s = (Inr (), s')"
            "sent s' = sent s @ [GET (page_url pid) page_params,
               PUT (page_url pid) (update_payload (JStr t) (lsc @ ''\<newline>\<newline>'' @ pg_body p) (JInt (pg_version p + 1)))]"
            and w': "world s' = ?w1\<lparr>fx_faults := tl (fx_faults ?w1)\<rparr>"
            and r': "raised s' = raised s @ [e]"
            by (cases "exc_response_text e") (simp_all add: Let_def)
          from pp show ?thesis
            by (rule failed[where p=p and e=e]) (simp_all add: w' r' Some False fault)
        next
          case nofault: None
          have "http_put fixture_transport ?w1 (page_url pid)
              (update_payload (JStr t) (lsc @ ''\<newline>\<newline>'' @ pg_body p) (JInt (pg_version p + 1))) =
              (Inr (), ?w1\<lparr>fx_faults := tl (fx_faults ?w1),
                 fx_pages := (fx_pages ?w1)(pid \<mapsto> \<lparr>pg_title = t, pg_version = pg_version p + 1,
                    pg_body = lsc @ ''\<newline>\<newline>'' @ pg_body p\<rparr>)\<rparr>)"
            by (rule fx_put_ok) (simp_all add: nofault Some)
          from process_page_update[OF ids g _ _ False this, simplified]
          obtain s' where pp: "process_page fixture_transport lsc page s = (Inr (), s')"
            "sent s' = sent s @ [GET (page_url pid) page_params,
               PUT (page_url pid) (update_payload (JStr t) (lsc @ ''\<newline>\<newline>'' @ pg_body p) (JInt (pg_version p + 1)))]"
            and w': "world s' = ?w1\<lparr>fx_faults := tl (fx_faults ?w1),
                 fx_pages := (fx_pages ?w1)(pid \<mapsto> \<lparr>pg_title = t, pg_version = pg_version p + 1,
                    pg_body = lsc @ ''\<newline>\<newline>'' @ pg_body p\<rparr>)\<rparr>"
            and r': "raised s' = raised s"
            by (simp add: Let_def)
          from pp show ?thesis
            by (rule updated[where p=p]) (simp_all add: w' r' Some False None nofault)
        qed
      qed
    qed
  qed
qed

section \<open>Facts about the example\<close>

lemma example_next_links [simp]:
  "next_link example_first = Some ''/rest/api/content?start=1''"
  "next_link example_second = None"
  by (simp_all add: next_link_def example_first_def example_second_def)

lemma example_results [simp]:
  "results_of example_first = [JDict [(''id'', JStr ''1001''), (''title'', JStr ''Page A'')]]"
  "results_of example_second = [JDict [(''id'', JStr ''1002''), (''title'', JStr ''Page B'')]]"
  by (simp_all add: results_of_def example_first_def example_second_def)

lemma example_wf_listing [simp]: "wf_listing example_first" "wf_listing example_second"
  by (simp_all add: example_first_def example_second_def)

lemma example_wf_summary [simp]:
  "wf_summary (JDict [(''id'', JStr i), (''title'', JStr t)])"
  by (simp add: wf_summary_def summary_id_def summary_title_def)

lemma example_server_sel [simp]:
  "fx_faults (example_server fs) = fs"
  "fx_pages (example_server fs) = example_pages"
  "fx_listing (example_server fs) = (\<lambda>url params. if url = listing_url then example_first else example_second)"
  "example_server fs\<lparr>fx_faults := fs'\<rparr> = example_server fs'"
  by (simp_all add: example_server_def)

lemma next_fault_simps [simp]:
  "next_fault [] = None" "next_fault (f # fs) = f"
  by (simp_all add: next_fault_def)

lemma next_not_listing_url [simp]: "[Lit u] \<noteq> listing_url"
  by (simp add: listing_url_def)

lemma example_chain:
  "chain (Suc (Suc 0)) fixture_transport (example_server (None # None # fs)) listing_url
     (listing_params SPACE_KEY) = Some ([example_first, example_second], None, example_server fs)"
  by (simp add: fx_get_listing)

lemma example_chain_nofault:
  "chain (Suc (Suc 0)) fixture_transport (example_server []) listing_url
     (listing_params SPACE_KEY) = Some ([example_first, example_second], None, example_server [])"
  by (simp add: fx_get_listing)

lemma example_chain_fault:
  "chain (Suc (Suc 0)) fixture_transport (example_server [None, Some e]) listing_url
     (listing_params SPACE_KEY) = Some ([example_first], Some e, example_server [])"
  by (simp add: fx_get_listing fx_get_fault)

lemma chain_requests_listing_only:
  "params \<noteq> page_params \<Longrightarrow>
   list_all (\<lambda>q. \<not> is_fetch q \<and> \<not> is_update q) (chain_requests url params rs)"
proof (induction rs arbitrary: url params)
  case Nil
  then show ?case by simp
next
  case (Cons r rs)
  have "JDict [] \<noteq> page_params" by (simp add: page_params_def)
  from Cons.IH[OF this] Cons.prems show ?case
    by (simp split: option.splits)
qed

lemma listing_params_not_page_params [simp]: "listing_params key \<noteq> page_params"
  by (simp add: listing_params_def page_params_def)

lemma update_loop_append:
  "update_loop T lsc (xs @ ys) s =
     (case update_loop T lsc xs s of
        (Inl err, s') \<Rightarrow> (Inl err, s')
      | (Inr _, s') \<Rightarrow> update_loop T lsc ys s')"
  by (induction xs arbitrary: s) (auto split: prod.splits sum.splits)

lemma example_store [simp]:
  "example_pages (JStr ''1001'') = Some \<lparr>pg_title = ''Page A'', pg_version = 3, pg_body = ''<p>old</p>''\<rparr>"
  "example_pages (JStr ''1002'') =
     Some \<lparr>pg_title = ''Page B'', pg_version = 5, pg_body = ''<h1>'' @ MARKER @ ''</h1>''\<rparr>"
  by (simp_all add: example_pages_def)

lemma marker_not_in_old [simp]: "\<not> sublist MARKER ''<p>old</p>''"
  by (simp add: MARKER_def sublist_Cons_right)

section \<open>The update loop on the fixture server\<close>

lemma fx_get_frame:
  "http_get fixture_transport w url params = (r, w') \<Longrightarrow>
     fx_pages w' = fx_pages w \<and> fx_listing w' = fx_listing w \<and> fx_faults w' = tl (fx_faults w)"
  by (auto simp: fixture_transport_def fixture_get_def Let_def split: option.splits)

lemma fx_chain_frame:
  "chain k fixture_transport w url params = Some (rs, fin, w') \<Longrightarrow>
     fx_pages w' = fx_pages w \<and> fx_listing w' = fx_listing w \<and>
     (fx_faults w = [] \<longrightarrow> fx_faults w' = [])"
proof (induction k arbitrary: w url params rs)
  case 0
  then show ?case by simp
next
  case (Suc k)
  obtain r w1 where g: "http_get fixture_transport w url params = (r, w1)"
    by (cases "http_get fixture_transport w url params")
  note f = fx_get_frame[OF g]
  show ?case
  proof (cases r)
    case (Inl e)
    with Suc.prems g f show ?thesis by auto
  next
    case (Inr data)
    show ?thesis
    proof (cases "next_link data")
      case None
      with Suc.prems g f Inr show ?thesis by auto
    next
      case (Some n)
      with Suc.prems g Inr obtain rs' where
        "chain k fixture_transport w1 [Lit (CONFLUENCE_BASE_URL @ n)] (JDict []) = Some (rs', fin, w')"
        by (auto split: option.splits)
      from Suc.IH[OF this] f show ?thesis by auto
    qed
  qed
qed

lemma chain_requests_gets: "list_all is_get (chain_requests url params rs)"
  by (induction rs arbitrary: url params) (auto split: option.splits)

lemma is_get_not_update: "is_get q \<Longrightarrow> \<not> is_update q \<and> \<not> is_update_of pid q"
  by (cases q) auto

text \<open>A page that holds the marker is never written, whatever else the loop does.\<close>

lemma fx_marked_untouched:
  assumes "fx_pages (world s) pid = Some p" "sublist MARKER (pg_body p)"
  shows "list_all wf_summary pages \<Longrightarrow>
    \<exists>s' new. update_loop fixture_transport lsc pages s = (Inr (), s') \<and>
       sent s' = sent s @ new \<and> \<not> list_ex (is_update_of pid) new \<and>
       fx_pages (world s') pid = Some p \<and> fx_listing (world s') = fx_listing (world s)"
  using assms
proof (induction pages arbitrary: s)
  case Nil
  then show ?case by simp
next
  case (Cons page pages)
  from Cons.prems have wf: "wf_summary page" "list_all wf_summary pages" by auto
  from wf_summaryD[OF wf(1)] obtain i t where
    ids: "py_getitem page ''id'' = Inr (JStr i)" "py_getitem page ''title'' = Inr (JStr t)" by blast
  have step: "\<exists>s1 new1. process_page fixture_transport lsc page s = (Inr (), s1) \<and>
       sent s1 = sent s @ new1 \<and> \<not> list_ex (is_update_of pid) new1 \<and>
       fx_pages (world s1) pid = Some p \<and> fx_listing (world s1) = fx_listing (world s)"
  proof (rule fx_process_page_cases[OF ids, of lsc s], goal_cases)
    case (1 s')
    then show ?thesis using Cons.prems(2) by auto
  next
    case (2 s' q e)
    with Cons.prems(2,3) have "JStr i \<noteq> pid" by auto
    with 2 Cons.prems(2) show ?thesis by auto
  next
    case (3 s' q)
    with Cons.prems(2,3) have "JStr i \<noteq> pid" by auto
    with 3 Cons.prems(2) show ?thesis by auto
  qed
  then obtain s1 new1 where s1: "process_page fixture_transport lsc page s = (Inr (), s1)"
    "sent s1 = sent s @ new1" "\<not> list_ex (is_update_of pid) new1"
    "fx_pages (world s1) pid = Some p" "fx_listing (world s1) = fx_listing (world s)" by blast
  from Cons.IH[OF wf(2) s1(4) Cons.prems(3)] obtain s' new2 where
    "update_loop fixture_transport lsc pages s1 = (Inr (), s')"
    "sent s' = sent s1 @ new2" "\<not> list_ex (is_update_of pid) new2"
    "fx_pages (world s') pid = Some p" "fx_listing (world s') = fx_listing (world s1)" by blast
  with s1 show ?case
    by (intro exI[of _ s'] exI[of _ "new1 @ new2"]) simp
qed

text \<open>Without faults, a listed page that lacks the marker is written exactly once.\<close>

lemma fx_unmarked_updated_once:
  assumes lsc: "sublist MARKER lsc"
  shows "list_all wf_summary pages \<Longrightarrow> fx_faults (world s) = [] \<Longrightarrow>
     page \<in> set pages \<Longrightarrow> summary_id page = Some i \<Longrightarrow>
     fx_pages (world s) (JStr i) = Some p \<Longrightarrow> \<not> sublist MARKER (pg_body p) \<Longrightarrow>
     \<exists>s' new t. update_loop fixture_transport lsc pages s = (Inr (), s') \<and>
        sent s' = sent s @ new \<and>
        filter (is_update_of (JStr i)) new =
          [PUT (page_url (JStr i))
             (update_payload (JStr t) (lsc @ ''\<newline>\<newline>'' @ pg_body p) (JInt (pg_version p + 1)))] \<and>
        fx_pages (world s') (JStr i) =
          Some \<lparr>pg_title = t, pg_version = pg_version p + 1, pg_body = lsc @ ''\<newline>\<newline>'' @ pg_body p\<rparr> \<and>
        (\<exists>page' \<in> set pages. summary_id page' = Some i \<and> summary_title page' = Some t)"
proof (induction pages arbitrary: s)
  case Nil
  then show ?case by simp
next
  case (Cons head pages)
  from Cons.prems have wf: "wf_summary head" "list_all wf_summary pages" by auto
  from wf_summaryD[OF wf(1)] obtain j t where
    ids: "py_getitem head ''id'' = Inr (JStr j)" "py_getitem head ''title'' = Inr (JStr t)"
    and sid: "summary_id head = Some j" "summary_title head = Some t" by blast
  note nofault = \<open>fx_faults (world s) = []\<close>
  note stored = \<open>fx_pages (world s) (JStr i) = Some p\<close>
  note unmarked = \<open>\<not> sublist MARKER (pg_body p)\<close>
  show ?case
  proof (cases "j = i")
    case True
    let ?put = "PUT (page_url (JStr i))
             (update_payload (JStr t) (lsc @ ''\<newline>\<newline>'' @ pg_body p) (JInt (pg_version p + 1)))"
    let ?p' = "\<lparr>pg_title = t, pg_version = pg_version p + 1, pg_body = lsc @ ''\<newline>\<newline>'' @ pg_body p\<rparr>"
    have "\<exists>s1. process_page fixture_transport lsc head s = (Inr (), s1) \<and>
        sent s1 = sent s @ [GET (page_url (JStr i)) page_params, ?put] \<and>
        fx_pages (world s1) (JStr i) = Some ?p'"
    proof (rule fx_process_page_cases[OF ids, of lsc s], goal_cases)
      case (1 s')
      with nofault stored unmarked True show ?case by auto
    next
      case (2 s' q e)
      with nofault show ?case by simp
    next
      case (3 s' q)
      with stored True show ?case by auto
    qed
    then obtain s1 where s1: "process_page fixture_transport lsc head s = (Inr (), s1)"
      "sent s1 = sent s @ [GET (page_url (JStr i)) page_params, ?put]"
      "fx_pages (world s1) (JStr i) = Some ?p'" by blast
    have "sublist MARKER (pg_body ?p')"
      using sublist_app1[OF lsc] by simp
    from fx_marked_untouched[OF s1(3) this wf(2), of lsc] obtain s' new2 where
      "update_loop fixture_transport lsc pages s1 = (Inr (), s')"
      "sent s' = sent s1 @ new2" "\<not> list_ex (is_update_of (JStr i)) new2"
      "fx_pages (world s') (JStr i) = Some ?p'" by blast
    moreover from this(3) have "filter (is_update_of (JStr i)) new2 = []"
      by (simp add: list_ex_iff filter_empty_conv)
    ultimately show ?thesis
      using s1 sid True
      by (intro exI[of _ s'] exI[of _ "[GET (page_url (JStr i)) page_params, ?put] @ new2"] exI[of _ t])
         simp
  next
    case False
    with Cons.prems(3,4) sid have inrest: "page \<in> set pages" by auto
    have "\<exists>s1 new1. process_page fixture_transport lsc head s = (Inr (), s1) \<and>
        sent s1 = sent s @ new1 \<and> filter (is_update_of (JStr i)) new1 = [] \<and>
        fx_pages (world s1) (JStr i) = Some p \<and> fx_faults (world s1) = []"
    proof (rule fx_process_page_cases[OF ids, of lsc s], goal_cases)
      case (1 s')
      with nofault stored show ?case by auto
    next
      case (2 s' q e)
      with nofault show ?case by simp
    next
      case (3 s' q)
      with nofault stored False show ?case by auto
    qed
    then obtain s1 new1 where s1: "process_page fixture_transport lsc head s = (Inr (), s1)"
      "sent s1 = sent s @ new1" "filter (is_update_of (JStr i)) new1 = []"
      "fx_pages (world s1) (JStr i) = Some p" "fx_faults (world s1) = []" by blast
    from Cons.IH[OF wf(2) s1(5) inrest Cons.prems(4) s1(4) unmarked] obtain s' new2 t' where
      r: "update_loop fixture_transport lsc pages s1 = (Inr (), s')"
      "sent s' = sent s1 @ new2"
      "filter (is_update_of (JStr i)) new2 =
          [PUT (page_url (JStr i))
             (update_payload (JStr t') (lsc @ ''\<newline>\<newline>'' @ pg_body p) (JInt (pg_version p + 1)))]"
      "fx_pages (world s') (JStr i) =
          Some \<lparr>pg_title = t', pg_version = pg_version p + 1, pg_body = lsc @ ''\<newline>\<newline>'' @ pg_body p\<rparr>"
      "\<exists>page' \<in> set pages. summary_id page' = Some i \<and> summary_title page' = Some t'"
      by blast
    with s1 show ?thesis
      by (intro exI[of _ s'] exI[of _ "new1 @ new2"] exI[of _ t']) simp
  qed
qed

text \<open>
  A loop that raises no exception leaves the marker in every listed page; the marker,
  once in a page, stays.
\<close>

lemma fx_update_loop_clean:
  assumes lsc: "sublist MARKER lsc"
  shows "list_all wf_summary pages \<Longrightarrow>
     \<exists>s' es. update_loop fixture_transport lsc pages s = (Inr (), s') \<and>
        fx_listing (world s') = fx_listing (world s) \<and>
        (\<forall>pid. has_marker (fx_pages (world s) pid) \<longrightarrow> has_marker (fx_pages (world s') pid)) \<and>
        raised s' = raised s @ es \<and>
        (es = [] \<longrightarrow>
           (\<forall>page \<in> set pages. \<forall>i. summary_id page = Some i \<longrightarrow>
              has_marker (fx_pages (world s') (JStr i))))"
proof (induction pages arbitrary: s)
  case Nil
  then show ?case by simp
next
  case (Cons head pages)
  from Cons.prems have wf: "wf_summary head" "list_all wf_summary pages" by auto
  from wf_summaryD[OF wf(1)] obtain j t where
    ids: "py_getitem head ''id'' = Inr (JStr j)" "py_getitem head ''title'' = Inr (JStr t)"
    and sid: "summary_id head = Some j" by blast
  have "\<exists>s1 e1. process_page fixture_transport lsc head s = (Inr (), s1) \<and>
        fx_listing (world s1) = fx_listing (world s) \<and>
        (\<forall>pid. has_marker (fx_pages (world s) pid) \<longrightarrow> has_marker (fx_pages (world s1) pid)) \<and>
        raised s1 = raised s @ e1 \<and>
        (e1 = [] \<longrightarrow> has_marker (fx_pages (world s1) (JStr j)))"
  proof (rule fx_process_page_cases[OF ids, of lsc s], goal_cases)
    case (1 s')
    from 1(7) show ?case
    proof
      assume "\<exists>p. fx_pages (world s) (JStr j) = Some p \<and> sublist MARKER (pg_body p) \<and> raised s' = raised s"
      with 1(1,3,4) show ?thesis
        by (intro exI[of _ s'] exI[of _ "[]"]) (auto simp: has_marker_def)
    next
      assume "\<exists>e. raised s' = raised s @ [e]"
      then obtain e where "raised s' = raised s @ [e]" by blast
      with 1(1,3,4) show ?thesis
        by (intro exI[of _ s'] exI[of _ "[e]"]) simp
    qed
  next
    case (2 s' q e)
    then show ?case
      by (intro exI[of _ s'] exI[of _ "[e]"]) simp
  next
    case (3 s' q)
    have "sublist MARKER (lsc @ ''\<newline>\<newline>'' @ pg_body q)"
      by (rule sublist_app1[OF lsc])
    with 3 show ?case
      by (intro exI[of _ s'] exI[of _ "[]"]) (auto simp: has_marker_def)
  qed
  then obtain s1 e1 where s1: "process_page fixture_transport lsc head s = (Inr (), s1)"
    "fx_listing (world s1) = fx_listing (world s)"
    "\<forall>pid. has_marker (fx_pages (world s) pid) \<longrightarrow> has_marker (fx_pages (world s1) pid)"
    "raised s1 = raised s @ e1"
    "e1 = [] \<longrightarrow> has_marker (fx_pages (world s1) (JStr j))" by blast
  from Cons.IH[OF wf(2), of s1] obtain s' es where s':
    "update_loop fixture_transport lsc pages s1 = (Inr (), s')"
    "fx_listing (world s') = fx_listing (world s1)"
    "\<forall>pid. has_marker (fx_pages (world s1) pid) \<longrightarrow> has_marker (fx_pages (world s') pid)"
    "raised s' = raised s1 @ es"
    "es = [] \<longrightarrow> (\<forall>page \<in> set pages. \<forall>i. summary_id page = Some i \<longrightarrow>
              has_marker (fx_pages (world s') (JStr i)))" by blast
  have "e1 @ es = [] \<longrightarrow> (\<forall>page \<in> set (head # pages). \<forall>i. summary_id page = Some i \<longrightarrow>
            has_marker (fx_pages (world s') (JStr i)))"
    using s1(5) s'(3,5) sid by auto
  with s1 s' show ?case
    by (intro exI[of _ s'] exI[of _ "e1 @ es"]) simp
qed

text \<open>When every listed page is missing or holds the marker, the loop writes nothing.\<close>

lemma fx_all_marked_no_update:
  "list_all wf_summary pages \<Longrightarrow>
   \<forall>page \<in> set pages. \<forall>i. summary_id page = Some i \<longrightarrow>
      fx_pages (world s) (JStr i) = None \<or> has_marker (fx_pages (world s) (JStr i)) \<Longrightarrow>
   \<exists>s' new. update_loop fixture_transport lsc pages s = (Inr (), s') \<and>
      sent s' = sent s @ new \<and> \<not> list_ex is_update new \<and> fx_pages (world s') = fx_pages (world s)"
proof (induction pages arbitrary: s)
  case Nil
  then show ?case by simp
next
  case (Cons head pages)
  from Cons.prems have wf: "wf_summary head" "list_all wf_summary pages" by auto
  from wf_summaryD[OF wf(1)] obtain j t where
    ids: "py_getitem head ''id'' = Inr (JStr j)" "py_getitem head ''title'' = Inr (JStr t)"
    and sid: "summary_id head = Some j" by blast
  from Cons.prems(2) sid have
    h: "fx_pages (world s) (JStr j) = None \<or> has_marker (fx_pages (world s) (JStr j))" by simp
  have "\<exists>s1. process_page fixture_transport lsc head s = (Inr (), s1) \<and>
        sent s1 = sent s @ [GET (page_url (JStr j)) page_params] \<and>
        fx_pages (world s1) = fx_pages (world s)"
  proof (rule fx_process_page_cases[OF ids, of lsc s], goal_cases)
    case (1 s')
    then show ?case by auto
  next
    case (2 s' q e)
    with h show ?case by (auto simp: has_marker_def)
  next
    case (3 s' q)
    with h show ?case by (auto simp: has_marker_def)
  qed
  then obtain s1 where s1: "process_page fixture_transport lsc head s = (Inr (), s1)"
    "sent s1 = sent s @ [GET (page_url (JStr j)) page_params]"
    "fx_pages (world s1) = fx_pages (world s)" by blast
  have "\<forall>page \<in> set pages. \<forall>i. summary_id page = Some i \<longrightarrow>
      fx_pages (world s1) (JStr i) = None \<or> has_marker (fx_pages (world s1) (JStr i))"
    using Cons.prems(2) s1(3) by simp
  from Cons.IH[OF wf(2) this] obtain s' new where
    "update_loop fixture_transport lsc pages s1 = (Inr (), s')"
    "sent s' = sent s1 @ new" "\<not> list_ex is_update new" "fx_pages (world s') = fx_pages (world s1)"
    by blast
  with s1 show ?case
    by (intro exI[of _ s'] exI[of _ "GET (page_url (JStr j)) page_params # new"]) simp
qed

text \<open>
  The listing chain depends on the fault schedule only: under another schedule the same
  server answers with the same responses, up to the first fault.
\<close>

lemma fx_chain_replay:
  "chain k fixture_transport w url params = Some (rs, None, w') \<Longrightarrow>
   fx_listing v = fx_listing w \<Longrightarrow> page_id_of url = None \<Longrightarrow>
   \<exists>rs' fin' v'. chain k fixture_transport v url params = Some (rs', fin', v') \<and>
      prefix rs' rs \<and> (fin' = None \<longrightarrow> rs' = rs)"
proof (induction k arbitrary: w v url params rs)
  case 0
  then show ?case by simp
next
  case (Suc k)
  let ?w1 = "w\<lparr>fx_faults := tl (fx_faults w)\<rparr>" and ?v1 = "v\<lparr>fx_faults := tl (fx_faults v)\<rparr>"
  let ?data = "fx_listing w url params"
  have nf: "next_fault (fx_faults w) = None"
  proof (cases "next_fault (fx_faults w)")
    case (Some e)
    from fx_get_fault[OF Some, of url params] Suc.prems(1) show ?thesis by simp
  qed simp
  have gw: "http_get fixture_transport w url params = (Inr ?data, ?w1)"
    by (rule fx_get_listing) (simp_all add: Suc.prems nf)
  show ?case
  proof (cases "next_fault (fx_faults v)")
    case (Some e)
    from fx_get_fault[OF Some, of url params] show ?thesis by simp
  next
    case None
    have gv: "http_get fixture_transport v url params = (Inr ?data, ?v1)"
      using fx_get_listing[of v url params] Suc.prems None by simp
    show ?thesis
    proof (cases "next_link ?data")
      case nl: None
      with Suc.prems(1) gw gv show ?thesis by simp
    next
      case (Some n)
      with Suc.prems(1) gw obtain rs0 where
        c: "chain k fixture_transport ?w1 [Lit (CONFLUENCE_BASE_URL @ n)] (JDict []) = Some (rs0, None, w')"
        and rs: "rs = ?data # rs0"
        by (auto split: option.splits)
      have "\<exists>rs' fin' v'. chain k fixture_transport ?v1 [Lit (CONFLUENCE_BASE_URL @ n)] (JDict []) =
            Some (rs', fin', v') \<and> prefix rs' rs0 \<and> (fin' = None \<longrightarrow> rs' = rs0)"
        by (rule Suc.IH[OF c]) (simp_all add: Suc.prems)
      with Some gv rs show ?thesis by auto
    qed
  qed
qed


lemma chain_requests_no_update: "filter is_update (chain_requests url params rs) = []"
  using chain_requests_gets[of url params rs]
  by (auto simp: filter_empty_conv list_all_iff dest: is_get_not_update)

lemma list_all_prefix: "prefix xs ys \<Longrightarrow> list_all P ys \<Longrightarrow> list_all P xs"
  by (auto simp: prefix_def)

text \<open>
  What the loop does to the store: a page is left as it is, or it is a listed page without
  the marker and is replaced by the listed title, the next version and the new body.
\<close>

lemma fx_update_loop_store:
  assumes lsc: "sublist MARKER lsc"
  shows "list_all wf_summary pages \<Longrightarrow>
     \<exists>s'. update_loop fixture_transport lsc pages s = (Inr (), s') \<and>
        (\<forall>pid. fx_pages (world s') pid = fx_pages (world s) pid \<or>
           (\<exists>p page i t. fx_pages (world s) pid = Some p \<and> \<not> sublist MARKER (pg_body p) \<and>
              page \<in> set pages \<and> summary_id page = Some i \<and> pid = JStr i \<and>
              summary_title page = Some t \<and>
              fx_pages (world s') pid =
                Some \<lparr>pg_title = t, pg_version = pg_version p + 1,
                      pg_body = lsc @ ''\<newline>\<newline>'' @ pg_body p\<rparr>))"
proof (induction pages arbitrary: s)
  case Nil
  then show ?case by simp
next
  case (Cons head pages)
  from Cons.prems have wf: "wf_summary head" "list_all wf_summary pages" by auto
  from wf_summaryD[OF wf(1)] obtain j t where
    ids: "py_getitem head ''id'' = Inr (JStr j)" "py_getitem head ''title'' = Inr (JStr t)"
    and sid: "summary_id head = Some j" "summary_title head = Some t" by blast
  have "\<exists>s1. process_page fixture_transport lsc head s = (Inr (), s1) \<and>
        (fx_pages (world s1) = fx_pages (world s) \<or>
         (\<exists>p. fx_pages (world s) (JStr j) = Some p \<and> \<not> sublist MARKER (pg_body p) \<and>
            fx_pages (world s1) = (fx_pages (world s))(JStr j \<mapsto>
              \<lparr>pg_title = t, pg_version = pg_version p + 1,
               pg_body = lsc @ ''\<newline>\<newline>'' @ pg_body p\<rparr>)))"
  proof (rule fx_process_page_cases[OF ids, of lsc s], goal_cases)
    case (1 s')
    then show ?case by blast
  next
    case (2 s' q e)
    then show ?case by blast
  next
    case (3 s' q)
    then show ?case by blast
  qed
  then obtain s1 where p1: "process_page fixture_transport lsc head s = (Inr (), s1)"
    and st1: "fx_pages (world s1) = fx_pages (world s) \<or>
         (\<exists>p. fx_pages (world s) (JStr j) = Some p \<and> \<not> sublist MARKER (pg_body p) \<and>
            fx_pages (world s1) = (fx_pages (world s))(JStr j \<mapsto>
              \<lparr>pg_title = t, pg_version = pg_version p + 1,
               pg_body = lsc @ ''\<newline>\<newline>'' @ pg_body p\<rparr>))" by blast
  from Cons.IH[OF wf(2), of s1] obtain s' where
    l: "update_loop fixture_transport lsc pages s1 = (Inr (), s')"
    and st': "\<forall>pid. fx_pages (world s') pid = fx_pages (world s1) pid \<or>
           (\<exists>p page i t. fx_pages (world s1) pid = Some p \<and> \<not> sublist MARKER (pg_body p) \<and>
              page \<in> set pages \<and> summary_id page = Some i \<and> pid = JStr i \<and>
              summary_title page = Some t \<and>
              fx_pages (world s') pid =
                Some \<lparr>pg_title = t, pg_version = pg_version p + 1,
                      pg_body = lsc @ ''\<newline>\<newline>'' @ pg_body p\<rparr>)" by blast
  have "fx_pages (world s') pid = fx_pages (world s) pid \<or>
           (\<exists>p page i t. fx_pages (world s) pid = Some p \<and> \<not> sublist MARKER (pg_body p) \<and>
              page \<in> set (head # pages) \<and> summary_id page = Some i \<and> pid = JStr i \<and>
              summary_title page = Some t \<and>
              fx_pages (world s') pid =
                Some \<lparr>pg_title = t, pg_version = pg_version p + 1,
                      pg_body = lsc @ ''\<newline>\<newline>'' @ pg_body p\<rparr>)" for pid
  proof (cases "fx_pages (world s1) pid = fx_pages (world s) pid")
    case True
    from st'[rule_format, of pid] show ?thesis
    proof
      assume "fx_pages (world s') pid = fx_pages (world s1) pid"
      with True show ?thesis by simp
    next
      assume "\<exists>p page i t. fx_pages (world s1) pid = Some p \<and> \<not> sublist MARKER (pg_body p) \<and>
              page \<in> set pages \<and> summary_id page = Some i \<and> pid = JStr i \<and>
              summary_title page = Some t \<and>
              fx_pages (world s') pid =
                Some \<lparr>pg_title = t, pg_version = pg_version p + 1,
                      pg_body = lsc @ ''\<newline>\<newline>'' @ pg_body p\<rparr>"
      then obtain p page i t' where
        "fx_pages (world s1) pid = Some p" "\<not> sublist MARKER (pg_body p)"
        "page \<in> set pages" "summary_id page = Some i" "pid = JStr i" "summary_title page = Some t'"
        "fx_pages (world s') pid =
                Some \<lparr>pg_title = t', pg_version = pg_version p + 1,
                      pg_body = lsc @ ''\<newline>\<newline>'' @ pg_body p\<rparr>" by blast
      with True have "fx_pages (world s) pid = Some p \<and> \<not> sublist MARKER (pg_body p) \<and>
              page \<in> set (head # pages) \<and> summary_id page = Some i \<and> pid = JStr i \<and>
              summary_title page = Some t' \<and>
              fx_pages (world s') pid =
                Some \<lparr>pg_title = t', pg_version = pg_version p + 1,
                      pg_body = lsc @ ''\<newline>\<newline>'' @ pg_body p\<rparr>" by simp
      then show ?thesis by blast
    qed
  next
    case False
    with st1 obtain p where p: "fx_pages (world s) (JStr j) = Some p" "\<not> sublist MARKER (pg_body p)"
      and w1: "fx_pages (world s1) = (fx_pages (world s))(JStr j \<mapsto>
              \<lparr>pg_title = t, pg_version = pg_version p + 1,
               pg_body = lsc @ ''\<newline>\<newline>'' @ pg_body p\<rparr>)" by auto
    from False w1 have pid: "pid = JStr j" by (auto split: if_splits)
    have now: "fx_pages (world s1) pid = Some \<lparr>pg_title = t, pg_version = pg_version p + 1,
               pg_body = lsc @ ''\<newline>\<newline>'' @ pg_body p\<rparr>"
      using w1 pid by simp
    have marked: "sublist MARKER (lsc @ ''\<newline>\<newline>'' @ pg_body p)"
      by (rule sublist_app1[OF lsc])
    from st'[rule_format, of pid] now marked
    have "fx_pages (world s') pid = Some \<lparr>pg_title = t, pg_version = pg_version p + 1,
               pg_body = lsc @ ''\<newline>\<newline>'' @ pg_body p\<rparr>"
      by auto
    with p pid sid have "fx_pages (world s) pid = Some p \<and> \<not> sublist MARKER (pg_body p) \<and>
              head \<in> set (head # pages) \<and> summary_id head = Some j \<and> pid = JStr j \<and>
              summary_title head = Some t \<and>
              fx_pages (world s') pid =
                Some \<lparr>pg_title = t, pg_version = pg_version p + 1,
                      pg_body = lsc @ ''\<newline>\<newline>'' @ pg_body p\<rparr>" by simp
    then show ?thesis by blast
  qed
  with p1 l show ?case by simp
qed


lemma fx_main_store:
  assumes "chain k fixture_transport (world s) listing_url (listing_params SPACE_KEY) = Some (rs, fin, w1)"
    and "list_all wf_listing rs"
    and "list_all wf_summary (concat (map results_of rs))"
  shows "\<exists>s'. main fixture_transport s = Some (Inr (), s') \<and>
     (\<forall>pid. fx_pages (world s') pid = fx_pages (world s) pid \<or>
        (\<exists>p page i t. fx_pages (world s) pid = Some p \<and> \<not> sublist MARKER (pg_body p) \<and>
           page \<in> set (concat (map results_of rs)) \<and> summary_id page = Some i \<and> pid = JStr i \<and>
           summary_title page = Some t \<and>
           fx_pages (world s') pid =
             Some \<lparr>pg_title = t, pg_version = pg_version p + 1,
                   pg_body = create_lambda_status_section @ ''\<newline>\<newline>'' @ pg_body p\<rparr>))"
proof (cases fin)
  case (Some e)
  with assms(1) have "chain k fixture_transport (world s) listing_url (listing_params SPACE_KEY) =
      Some (rs, Some e, w1)" by simp
  from main_listing_failed[OF this assms(2)] fx_chain_frame[OF assms(1)] show ?thesis
    by simp
next
  case None
  let ?pages = "concat (map results_of rs)"
  let ?lsc = create_lambda_status_section
  from None assms(1) have c: "chain k fixture_transport (world s) listing_url (listing_params SPACE_KEY) =
      Some (rs, None, w1)" by simp
  from fx_chain_frame[OF c] have w1: "fx_pages w1 = fx_pages (world s)" by simp
  from main_listing_ok[OF c assms(2,3)] obtain s2 where
    s2: "world s2 = w1"
    and m: "main fixture_transport s =
       (if ?pages = [] then Some (Inr (), s2)
        else case update_loop fixture_transport ?lsc ?pages s2 of
               (Inl err, s3) \<Rightarrow> Some (Inl err, s3)
             | (Inr _, s3) \<Rightarrow>
                 Some (Inr (), print [Lit rule60] (print complete_line (print [Lit rule60] s3))))"
    by blast
  show ?thesis
  proof (cases "?pages = []")
    case True
    with m s2 w1 show ?thesis by simp
  next
    case False
    from fx_update_loop_store[OF marker_in_status_section assms(3), of s2] obtain s3 where
      l: "update_loop fixture_transport ?lsc ?pages s2 = (Inr (), s3)"
      and st: "\<forall>pid. fx_pages (world s3) pid = fx_pages (world s2) pid \<or>
           (\<exists>p page i t. fx_pages (world s2) pid = Some p \<and> \<not> sublist MARKER (pg_body p) \<and>
              page \<in> set ?pages \<and> summary_id page = Some i \<and> pid = JStr i \<and>
              summary_title page = Some t \<and>
              fx_pages (world s3) pid =
                Some \<lparr>pg_title = t, pg_version = pg_version p + 1,
                      pg_body = ?lsc @ ''\<newline>\<newline>'' @ pg_body p\<rparr>)" by blast
    let ?s' = "print [Lit rule60] (print complete_line (print [Lit rule60] s3))"
    have "main fixture_transport s = Some (Inr (), ?s')"
      by (simp only: m False if_False l prod.case sum.case)
    moreover have "world ?s' = world s3" by simp
    ultimately show ?thesis using st s2 w1
      by (intro exI[of _ ?s']) (simp only: simp_thms)
  qed
qed

lemma example_unmarked_sel [simp]:
  "fx_faults (example_unmarked fs) = fs"
  "fx_pages (example_unmarked fs) = example_pages(JStr ''1002'' \<mapsto>
                   \<lparr>pg_title = ''Page B'', pg_version = 5, pg_body = ''<p>new</p>''\<rparr>)"
  "fx_listing (example_unmarked fs) = (\<lambda>url params. if url = listing_url then example_first else example_second)"
  "example_unmarked fs\<lparr>fx_faults := fs'\<rparr> = example_unmarked fs'"
  by (simp_all add: example_unmarked_def)

lemma marker_not_in_new [simp]: "\<not> sublist MARKER ''<p>new</p>''"
  by (simp add: MARKER_def sublist_Cons_right)

lemma marker_in_prepended [simp]: "sublist MARKER (create_lambda_status_section @ x)"
  by (rule sublist_app1) (rule marker_in_status_section)

lemma example_listing_run:
  assumes "fx_listing w = (\<lambda>url params. if url = listing_url then example_first else example_second)"
    and "next_fault (fx_faults w) = None" and "next_fault (tl (fx_faults w)) = None"
  shows "get_all_pages_in_space fixture_transport SPACE_KEY (print fetching_line (start w)) =
     Some (Inr [JDict [(''id'', JStr ''1001''), (''title'', JStr ''Page A'')],
                JDict [(''id'', JStr ''1002''), (''title'', JStr ''Page B'')]],
           \<lparr>world = w\<lparr>fx_faults := tl (tl (fx_faults w))\<rparr>,
            sent = [GET listing_url (listing_params SPACE_KEY),
                    GET [Lit (CONFLUENCE_BASE_URL @ ''/rest/api/content?start=1'')] (JDict [])],
            out = [fetching_line], raised = []\<rparr>)"
proof -
  have c: "chain (Suc (Suc 0)) fixture_transport (world (print fetching_line (start w))) listing_url
      (listing_params SPACE_KEY) =
      Some ([example_first, example_second], None, w\<lparr>fx_faults := tl (tl (fx_faults w))\<rparr>)"
    using assms by (simp add: start_def fx_get_listing)
  have w: "list_all wf_listing [example_first, example_second]" by simp
  from get_all_pages_chain[OF c w] show ?thesis
    by (simp add: start_def print_def)
qed

lemmas exec = display_pages.simps update_loop.simps process_page_def get_page_content_def
  update_page_def requests_get_def requests_put_def fixture_transport_def fixture_get_def
  fixture_put_def print_def Let_def page_json_def not_found_def conflict_def page_url_def
  summary_title_def page_version_def page_body_def update_payload_def

lemma cx_first_run:
  "\<exists>ou ra. run fixture_transport (example_unmarked [None, None, Some not_found]) =
     Some \<lparr>world = \<lparr>fx_listing = (\<lambda>url params. if url = listing_url then example_first else example_second),
                    fx_pages = example_pages(JStr ''1002'' \<mapsto>
                       \<lparr>pg_title = ''Page B'', pg_version = 6,
                        pg_body = create_lambda_status_section @ ''\<newline>\<newline>'' @ ''<p>new</p>''\<rparr>),
                    fx_faults = []\<rparr>,
           sent = [GET listing_url (listing_params SPACE_KEY),
                   GET [Lit (CONFLUENCE_BASE_URL @ ''/rest/api/content?start=1'')] (JDict []),
                   GET (page_url (JStr ''1001'')) page_params,
                   GET (page_url (JStr ''1002'')) page_params,
                   PUT (page_url (JStr ''1002''))
                     (update_payload (JStr ''Page B'')
                        (create_lambda_status_section @ ''\<newline>\<newline>'' @ ''<p>new</p>'') (JInt 6))],
           out = ou, raised = ra\<rparr>"
proof -
  have l: "get_all_pages_in_space fixture_transport SPACE_KEY
      (print fetching_line (start (example_unmarked [None, None, Some not_found]))) =
     Some (Inr [JDict [(''id'', JStr ''1001''), (''title'', JStr ''Page A'')],
                JDict [(''id'', JStr ''1002''), (''title'', JStr ''Page B'')]],
           \<lparr>world = example_unmarked [Some not_found],
            sent = [GET listing_url (listing_params SPACE_KEY),
                    GET [Lit (CONFLUENCE_BASE_URL @ ''/rest/api/content?start=1'')] (JDict [])],
            out = [fetching_line], raised = []\<rparr>)"
    using example_listing_run[of "example_unmarked [None, None, Some not_found]"] by simp
  show ?thesis
    apply (simp only: run_def main_def l option.case prod.case sum.case)
    apply (simp add: exec)
    done
qed

lemma example_faulty_run:
  "\<exists>w snt ou.
     main fixture_transport
       (start (example_unmarked [None, None, Some not_found, None, Some conflict])) =
     Some (Inr (), \<lparr>world = w, sent = snt, out = ou, raised = [not_found, conflict]\<rparr>)"
proof -
  have l: "get_all_pages_in_space fixture_transport SPACE_KEY
      (print fetching_line
         (start (example_unmarked [None, None, Some not_found, None, Some conflict]))) =
     Some (Inr [JDict [(''id'', JStr ''1001''), (''title'', JStr ''Page A'')],
                JDict [(''id'', JStr ''1002''), (''title'', JStr ''Page B'')]],
           \<lparr>world = example_unmarked [Some not_found, None, Some conflict],
            sent = [GET listing_url (listing_params SPACE_KEY),
                    GET [Lit (CONFLUENCE_BASE_URL @ ''/rest/api/content?start=1'')] (JDict [])],
            out = [fetching_line], raised = []\<rparr>)"
    using example_listing_run[of "example_unmarked [None, None, Some not_found, None, Some conflict]"]
    by simp
  show ?thesis
    apply (simp only: main_def l option.case prod.case sum.case)
    apply (simp add: exec)
    done
qed

lemma cx_second_run:
  "\<exists>ou ra w. run fixture_transport
       \<lparr>fx_listing = (\<lambda>url params. if url = listing_url then example_first else example_second),
        fx_pages = example_pages(JStr ''1002'' \<mapsto>
           \<lparr>pg_title = ''Page B'', pg_version = 6,
            pg_body = create_lambda_status_section @ ''\<newline>\<newline>'' @ ''<p>new</p>''\<rparr>),
        fx_faults = []\<rparr> =
     Some \<lparr>world = w,
           sent = [GET listing_url (listing_params SPACE_KEY),
                   GET [Lit (CONFLUENCE_BASE_URL @ ''/rest/api/content?start=1'')] (JDict []),
                   GET (page_url (JStr ''1001'')) page_params,
                   PUT (page_url (JStr ''1001''))
                     (update_payload (JStr ''Page A'')
                        (create_lambda_status_section @ ''\<newline>\<newline>'' @ ''<p>old</p>'') (JInt 4)),
                   GET (page_url (JStr ''1002'')) page_params],
           out = ou, raised = ra\<rparr>"
proof -
  let ?w = "\<lparr>fx_listing = (\<lambda>url params. if url = listing_url then example_first else example_second),
        fx_pages = example_pages(JStr ''1002'' \<mapsto>
           \<lparr>pg_title = ''Page B'', pg_version = 6,
            pg_body = create_lambda_status_section @ ''\<newline>\<newline>'' @ ''<p>new</p>''\<rparr>),
        fx_faults = []\<rparr>"
  have l: "get_all_pages_in_space fixture_transport SPACE_KEY (print fetching_line (start ?w)) =
     Some (Inr [JDict [(''id'', JStr ''1001''), (''title'', JStr ''Page A'')],
                JDict [(''id'', JStr ''1002''), (''title'', JStr ''Page B'')]],
           \<lparr>world = ?w,
            sent = [GET listing_url (listing_params SPACE_KEY),
                    GET [Lit (CONFLUENCE_BASE_URL @ ''/rest/api/content?start=1'')] (JDict [])],
            out = [fetching_line], raised = []\<rparr>)"
    using example_listing_run[of ?w] by simp
  show ?thesis
    apply (simp only: run_def main_def l option.case prod.case sum.case)
    apply (simp add: exec)
    done
qed

lemma example_summary_ids [simp]:
  "summary_id (JDict [(''id'', JStr i), (''title'', JStr t)]) = Some i"
  "summary_title (JDict [(''id'', JStr i), (''title'', JStr t)]) = Some t"
  by (simp_all add: summary_id_def summary_title_def)

lemma marker_in_page_b [simp]: "sublist MARKER (''<h1>'' @ MARKER @ ''</h1>'')"
  by (rule sublist_appendI)

lemma marker_in_page_b_norm [simp]:
  "sublist MARKER (CHR ''<'' # CHR ''h'' # CHR ''1'' # CHR ''>'' # MARKER @ ''</h1>'')"
  using marker_in_page_b by simp

lemma example_run:
  "\<exists>ou ra w. run fixture_transport (example_server []) =
     Some \<lparr>world = w,
           sent = [GET listing_url (listing_params SPACE_KEY),
                   GET [Lit (CONFLUENCE_BASE_URL @ ''/rest/api/content?start=1'')] (JDict []),
                   GET (page_url (JStr ''1001'')) page_params,
                   PUT (page_url (JStr ''1001''))
                     (update_payload (JStr ''Page A'')
                        (create_lambda_status_section @ ''\<newline>\<newline>'' @ ''<p>old</p>'') (JInt 4)),
                   GET (page_url (JStr ''1002'')) page_params],
           out = ou, raised = ra\<rparr>"
proof -
  have l: "get_all_pages_in_space fixture_transport SPACE_KEY
      (print fetching_line (start (example_server []))) =
     Some (Inr [JDict [(''id'', JStr ''1001''), (''title'', JStr ''Page A'')],
                JDict [(''id'', JStr ''1002''), (''title'', JStr ''Page B'')]],
           \<lparr>world = example_server [],
            sent = [GET listing_url (listing_params SPACE_KEY),
                    GET [Lit (CONFLUENCE_BASE_URL @ ''/rest/api/content?start=1'')] (JDict [])],
            out = [fetching_line], raised = []\<rparr>)"
    using example_listing_run[of "example_server []"] by simp
  show ?thesis
    apply (simp only: run_def main_def l option.case prod.case sum.case)
    apply (simp add: exec)
    done
qed

lemma example_main:
  "\<exists>s'. main fixture_transport (start (example_server [])) = Some (Inr (), s') \<and>
     sent s' = [GET listing_url (listing_params SPACE_KEY),
                   GET [Lit (CONFLUENCE_BASE_URL @ ''/rest/api/content?start=1'')] (JDict []),
                   GET (page_url (JStr ''1001'')) page_params,
                   PUT (page_url (JStr ''1001''))
                     (update_payload (JStr ''Page A'')
                        (create_lambda_status_section @ ''\<newline>\<newline>'' @ ''<p>old</p>'') (JInt 4)),
                   GET (page_url (JStr ''1002'')) page_params]"
proof -
  from example_run obtain ou ra w where
    "run fixture_transport (example_server []) =
     Some \<lparr>world = w,
           sent = [GET listing_url (listing_params SPACE_KEY),
                   GET [Lit (CONFLUENCE_BASE_URL @ ''/rest/api/content?start=1'')] (JDict []),
                   GET (page_url (JStr ''1001'')) page_params,
                   PUT (page_url (JStr ''1001''))
                     (update_payload (JStr ''Page A'')
                        (create_lambda_status_section @ ''\<newline>\<newline>'' @ ''<p>old</p>'') (JInt 4)),
                   GET (page_url (JStr ''1002'')) page_params],
           out = ou, raised = ra\<rparr>" by blast
  then show ?thesis
    by (auto simp: run_def split: option.splits prod.splits sum.splits)
qed

lemma late_fault_first_run:
  "\<exists>snt ou.
     run fixture_transport (example_server [None, None, None, None, None, None, None, Some not_found]) =
     Some \<lparr>world = \<lparr>fx_listing = (\<lambda>url params. if url = listing_url then example_first else example_second),
                    fx_pages = example_pages(JStr ''1001'' \<mapsto>
                       \<lparr>pg_title = ''Page A'', pg_version = 4,
                        pg_body = create_lambda_status_section @ ''\<newline>\<newline>'' @ ''<p>old</p>''\<rparr>),
                    fx_faults = [None, None, Some not_found]\<rparr>,
           sent = snt, out = ou, raised = []\<rparr>"
proof -
  have l: "get_all_pages_in_space fixture_transport SPACE_KEY
      (print fetching_line
         (start (example_server [None, None, None, None, None, None, None, Some not_found]))) =
     Some (Inr [JDict [(''id'', JStr ''1001''), (''title'', JStr ''Page A'')],
                JDict [(''id'', JStr ''1002''), (''title'', JStr ''Page B'')]],
           \<lparr>world = example_server [None, None, None, None, None, Some not_found],
            sent = [GET listing_url (listing_params SPACE_KEY),
                    GET [Lit (CONFLUENCE_BASE_URL @ ''/rest/api/content?start=1'')] (JDict [])],
            out = [fetching_line], raised = []\<rparr>)"
    using example_listing_run[of "example_server [None, None, None, None, None, None, None, Some not_found]"]
    by (simp add: example_server_def)
  show ?thesis
    apply (simp only: run_def main_def l option.case prod.case sum.case)
    apply (simp add: exec)
    done
qed

lemma late_fault_second_run:
  "\<exists>w snt ou.
     run fixture_transport
       \<lparr>fx_listing = (\<lambda>url params. if url = listing_url then example_first else example_second),
        fx_pages = example_pages(JStr ''1001'' \<mapsto>
           \<lparr>pg_title = ''Page A'', pg_version = 4,
            pg_body = create_lambda_status_section @ ''\<newline>\<newline>'' @ ''<p>old</p>''\<rparr>),
        fx_faults = [None, None, Some not_found]\<rparr> =
     Some \<lparr>world = w, sent = snt, out = ou, raised = [not_found]\<rparr>"
proof -
  let ?w = "\<lparr>fx_listing = (\<lambda>url params. if url = listing_url then example_first else example_second),
        fx_pages = example_pages(JStr ''1001'' \<mapsto>
           \<lparr>pg_title = ''Page A'', pg_version = 4,
            pg_body = create_lambda_status_section @ ''\<newline>\<newline>'' @ ''<p>old</p>''\<rparr>),
        fx_faults = [None, None, Some not_found]\<rparr>"
  have l: "get_all_pages_in_space fixture_transport SPACE_KEY (print fetching_line (start ?w)) =
     Some (Inr [JDict [(''id'', JStr ''1001''), (''title'', JStr ''Page A'')],
                JDict [(''id'', JStr ''1002''), (''title'', JStr ''Page B'')]],
           \<lparr>world = ?w\<lparr>fx_faults := [Some not_found]\<rparr>,
            sent = [GET listing_url (listing_params SPACE_KEY),
                    GET [Lit (CONFLUENCE_BASE_URL @ ''/rest/api/content?start=1'')] (JDict [])],
            out = [fetching_line], raised = []\<rparr>)"
    using example_listing_run[of ?w] by simp
  show ?thesis
    apply (simp only: run_def main_def l option.case prod.case sum.case)
    apply (simp add: exec)
    done
qed

lemma example_retitled_sel [simp]:
  "fx_faults example_retitled = []"
  "fx_pages example_retitled = example_pages(JStr ''1001'' \<mapsto>
                   \<lparr>pg_title = ''Stored title'', pg_version = 3, pg_body = ''<p>old</p>''\<rparr>)"
  "fx_listing example_retitled = (\<lambda>url params. if url = listing_url then example_first else example_second)"
  by (simp_all add: example_retitled_def)

lemma retitled_run:
  "\<exists>ou ra. run fixture_transport example_retitled =
     Some \<lparr>world = \<lparr>fx_listing = (\<lambda>url params. if url = listing_url then example_first else example_second),
                    fx_pages = example_pages(JStr ''1001'' \<mapsto>
                       \<lparr>pg_title = ''Page A'', pg_version = 4,
                        pg_body = create_lambda_status_section @ ''\<newline>\<newline>'' @ ''<p>old</p>''\<rparr>),
                    fx_faults = []\<rparr>,
           sent = [GET listing_url (listing_params SPACE_KEY),
                   GET [Lit (CONFLUENCE_BASE_URL @ ''/rest/api/content?start=1'')] (JDict []),
                   GET (page_url (JStr ''1001'')) page_params,
                   PUT (page_url (JStr ''1001''))
                     (update_payload (JStr ''Page A'')
                        (create_lambda_status_section @ ''\<newline>\<newline>'' @ ''<p>old</p>'') (JInt 4)),
                   GET (page_url (JStr ''1002'')) page_params],
           out = ou, raised = ra\<rparr>"
proof -
  have l: "get_all_pages_in_space fixture_transport SPACE_KEY
      (print fetching_line (start example_retitled)) =
     Some (Inr [JDict [(''id'', JStr ''1001''), (''title'', JStr ''Page A'')],
                JDict [(''id'', JStr ''1002''), (''title'', JStr ''Page B'')]],
           \<lparr>world = example_retitled,
            sent = [GET listing_url (listing_params SPACE_KEY),
                    GET [Lit (CONFLUENCE_BASE_URL @ ''/rest/api/content?start=1'')] (JDict [])],
            out = [fetching_line], raised = []\<rparr>)"
    using example_listing_run[of example_retitled] by (simp add: example_retitled_def)
  show ?thesis
    apply (simp only: run_def main_def l option.case prod.case sum.case)
    apply (simp add: exec)
    done
qed

section \<open>The claims\<close>

text \<open>
  Claim C1. On the fixture server, in a run without transport faults whose listing is
  finite and well-formed, a listed page \<open>i\<close> that is stored with version \<open>v\<close> and a
  body \<open>b\<close> without the marker gets exactly one update: the only PUT for that page in
  the run carries the body made of the status section, two newlines and \<open>b\<close>, and the version number
  \<open>v + 1\<close>, with a title under which the page is listed. The run ends normally and the
  page is then stored with that title, version and body.
\<close>

theorem unmarked_page_updated_once:
  assumes "fx_faults (world s) = []"
    and "chain k fixture_transport (world s) listing_url (listing_params SPACE_KEY) = Some (rs, None, w1)"
    and "list_all wf_listing rs"
    and "list_all wf_summary (concat (map results_of rs))"
    and "page \<in> set (concat (map results_of rs))"
    and "summary_id page = Some i"
    and "fx_pages (world s) (JStr i) = Some p"
    and "\<not> sublist MARKER (pg_body p)"
  shows "\<exists>s' new t.
     main fixture_transport s = Some (Inr (), s') \<and>
     sent s' = sent s @ new \<and>
     filter (is_update_of (JStr i)) new =
       [PUT (page_url (JStr i))
          (update_payload (JStr t)
             (create_lambda_status_section @ ''\<newline>\<newline>'' @ pg_body p) (JInt (pg_version p + 1)))] \<and>
     fx_pages (world s') (JStr i) =
       Some \<lparr>pg_title = t, pg_version = pg_version p + 1,
             pg_body = create_lambda_status_section @ ''\<newline>\<newline>'' @ pg_body p\<rparr> \<and>
     (\<exists>page' \<in> set (concat (map results_of rs)).
        summary_id page' = Some i \<and> summary_title page' = Some t)"
proof -
  let ?pages = "concat (map results_of rs)"
  let ?lsc = create_lambda_status_section
  let ?reqs = "chain_requests listing_url (listing_params SPACE_KEY) rs"
  from fx_chain_frame[OF assms(2)] assms(1,7) have
    w1: "fx_faults w1 = []" "fx_pages w1 (JStr i) = Some p" by auto
  from main_listing_ok[OF assms(2,3,4)] obtain s2 where
    s2: "world s2 = w1" "sent s2 = sent s @ ?reqs"
    and m: "main fixture_transport s =
       (if ?pages = [] then Some (Inr (), s2)
        else case update_loop fixture_transport ?lsc ?pages s2 of
               (Inl err, s3) \<Rightarrow> Some (Inl err, s3)
             | (Inr _, s3) \<Rightarrow>
                 Some (Inr (), print [Lit rule60] (print complete_line (print [Lit rule60] s3))))"
    by blast
  from assms(5) have ne: "?pages \<noteq> []" by (metis empty_iff empty_set)
  have f2: "fx_faults (world s2) = []" and p2: "fx_pages (world s2) (JStr i) = Some p"
    using s2 w1 by simp_all
  from fx_unmarked_updated_once[OF marker_in_status_section assms(4) f2 assms(5,6) p2 assms(8)]
  obtain s3 new t where
    l: "update_loop fixture_transport ?lsc ?pages s2 = (Inr (), s3)"
    and n: "sent s3 = sent s2 @ new"
    and f: "filter (is_update_of (JStr i)) new =
       [PUT (page_url (JStr i))
          (update_payload (JStr t) (?lsc @ ''\<newline>\<newline>'' @ pg_body p) (JInt (pg_version p + 1)))]"
    and st: "fx_pages (world s3) (JStr i) =
       Some \<lparr>pg_title = t, pg_version = pg_version p + 1, pg_body = ?lsc @ ''\<newline>\<newline>'' @ pg_body p\<rparr>"
    and t: "\<exists>page' \<in> set ?pages. summary_id page' = Some i \<and> summary_title page' = Some t"
    by blast
  let ?s' = "print [Lit rule60] (print complete_line (print [Lit rule60] s3))"
  have "main fixture_transport s = Some (Inr (), ?s')"
    by (simp only: m ne if_False l prod.case sum.case)
  moreover have "sent ?s' = sent s @ (?reqs @ new)"
    using n s2 by simp
  moreover have "filter (is_update_of (JStr i)) ?reqs = []"
    using chain_requests_gets[of listing_url "listing_params SPACE_KEY" rs]
    by (auto simp: filter_empty_conv list_all_iff dest: is_get_not_update)
  then have "filter (is_update_of (JStr i)) (?reqs @ new) =
       [PUT (page_url (JStr i))
          (update_payload (JStr t) (?lsc @ ''\<newline>\<newline>'' @ pg_body p) (JInt (pg_version p + 1)))]"
    using f by simp
  moreover have "fx_pages (world ?s') (JStr i) =
       Some \<lparr>pg_title = t, pg_version = pg_version p + 1, pg_body = ?lsc @ ''\<newline>\<newline>'' @ pg_body p\<rparr>"
    using st by simp
  ultimately show ?thesis using t by blast
qed

theorem unmarked_page_updated_once_witness:
  "\<exists>s'.
     main fixture_transport (start (example_server [])) = Some (Inr (), s') \<and>
     filter (is_update_of (JStr ''1001'')) (sent s') =
       [PUT (page_url (JStr ''1001''))
          (update_payload (JStr ''Page A'')
             (create_lambda_status_section @ ''\<newline>\<newline>'' @ ''<p>old</p>'') (JInt 4))] \<and>
     fx_pages (world s') (JStr ''1001'') =
       Some \<lparr>pg_title = ''Page A'', pg_version = 4,
             pg_body = create_lambda_status_section @ ''\<newline>\<newline>'' @ ''<p>old</p>''\<rparr>"
proof -
  let ?s = "start (example_server [])"
  let ?a = "JDict [(''id'', JStr ''1001''), (''title'', JStr ''Page A'')]"
  let ?p = "\<lparr>pg_title = ''Page A'', pg_version = 3, pg_body = ''<p>old</p>''\<rparr>"
  have h1: "fx_faults (world ?s) = []" by (simp add: start_def)
  have h2: "chain (Suc (Suc 0)) fixture_transport (world ?s) listing_url (listing_params SPACE_KEY) =
      Some ([example_first, example_second], None, example_server [])"
    using example_chain_nofault by (simp add: start_def)
  have h3: "list_all wf_listing [example_first, example_second]" by simp
  have h4: "list_all wf_summary (concat (map results_of [example_first, example_second]))" by simp
  have h5: "?a \<in> set (concat (map results_of [example_first, example_second]))" by simp
  have h6: "summary_id ?a = Some ''1001''" by simp
  have h7: "fx_pages (world ?s) (JStr ''1001'') = Some ?p" by (simp add: start_def)
  have h8: "\<not> sublist MARKER (pg_body ?p)" by simp
  from unmarked_page_updated_once[OF h1 h2 h3 h4 h5 h6 h7 h8] obtain s' new t where
    m: "main fixture_transport ?s = Some (Inr (), s')"
    and n: "sent s' = sent ?s @ new"
    and f: "filter (is_update_of (JStr ''1001'')) new =
       [PUT (page_url (JStr ''1001''))
          (update_payload (JStr t)
             (create_lambda_status_section @ ''\<newline>\<newline>'' @ pg_body ?p) (JInt (pg_version ?p + 1)))]"
    and st: "fx_pages (world s') (JStr ''1001'') =
       Some \<lparr>pg_title = t, pg_version = pg_version ?p + 1,
             pg_body = create_lambda_status_section @ ''\<newline>\<newline>'' @ pg_body ?p\<rparr>"
    and t: "\<exists>page' \<in> set (concat (map results_of [example_first, example_second])).
        summary_id page' = Some ''1001'' \<and> summary_title page' = Some t"
    by blast
  from t have "t = ''Page A''" by auto
  with m n f st show ?thesis
    by (intro exI[of _ s']) (simp add: start_def)
qed

text \<open>
  Claim C2. On the fixture server, a page whose stored body contains the marker (the
  test is \<^const>\<open>sublist\<close>, plain containment) gets no update in a run, whatever faults
  occur and whether or not the listing succeeds, and it is stored unchanged after the
  run.
\<close>

theorem marked_page_untouched:
  assumes "chain k fixture_transport (world s) listing_url (listing_params SPACE_KEY) = Some (rs, fin, w1)"
    and "list_all wf_listing rs"
    and "list_all wf_summary (concat (map results_of rs))"
    and "fx_pages (world s) pid = Some p"
    and "sublist MARKER (pg_body p)"
  shows "\<exists>s' new.
     main fixture_transport s = Some (Inr (), s') \<and>
     sent s' = sent s @ new \<and>
     \<not> list_ex (is_update_of pid) new \<and>
     fx_pages (world s') pid = Some p"
proof -
  let ?pages = "concat (map results_of rs)"
  let ?lsc = create_lambda_status_section
  let ?reqs = "chain_requests listing_url (listing_params SPACE_KEY) rs"
  from fx_chain_frame[OF assms(1)] assms(4) have w1: "fx_pages w1 pid = Some p" by auto
  have reqs: "\<not> list_ex (is_update_of pid) ?reqs"
    using chain_requests_gets[of listing_url "listing_params SPACE_KEY" rs]
    by (auto simp: list_ex_iff list_all_iff dest: is_get_not_update)
  show ?thesis
  proof (cases fin)
    case (Some e)
    with assms(1) have "chain k fixture_transport (world s) listing_url (listing_params SPACE_KEY) =
        Some (rs, Some e, w1)" by simp
    from main_listing_failed[OF this assms(2)] w1 reqs show ?thesis
      by (intro exI[of _ "s\<lparr>world := w1, sent := sent s @ ?reqs,
            out := out s @ [fetching_line, listing_error_line e, no_pages_line],
            raised := raised s @ [e]\<rparr>"] exI[of _ ?reqs]) simp
  next
    case None
    with assms(1) have "chain k fixture_transport (world s) listing_url (listing_params SPACE_KEY) =
        Some (rs, None, w1)" by simp
    from main_listing_ok[OF this assms(2,3)] obtain s2 where
      s2: "world s2 = w1" "sent s2 = sent s @ ?reqs"
      and m: "main fixture_transport s =
         (if ?pages = [] then Some (Inr (), s2)
          else case update_loop fixture_transport ?lsc ?pages s2 of
                 (Inl err, s3) \<Rightarrow> Some (Inl err, s3)
               | (Inr _, s3) \<Rightarrow>
                   Some (Inr (), print [Lit rule60] (print complete_line (print [Lit rule60] s3))))"
      by blast
    show ?thesis
    proof (cases "?pages = []")
      case True
      with m s2 w1 reqs show ?thesis
        by (intro exI[of _ s2] exI[of _ ?reqs]) simp
    next
      case False
      from s2 w1 have "fx_pages (world s2) pid = Some p" by simp
      from fx_marked_untouched[OF this assms(5,3), of ?lsc] obtain s3 new where
        l: "update_loop fixture_transport ?lsc ?pages s2 = (Inr (), s3)"
        and n: "sent s3 = sent s2 @ new" "\<not> list_ex (is_update_of pid) new"
        and st: "fx_pages (world s3) pid = Some p" by blast
      let ?s' = "print [Lit rule60] (print complete_line (print [Lit rule60] s3))"
      have "main fixture_transport s = Some (Inr (), ?s')"
        by (simp only: m False if_False l prod.case sum.case)
      with n st s2 reqs show ?thesis
        by (intro exI[of _ ?s'] exI[of _ "?reqs @ new"]) simp
    qed
  qed
qed

theorem marked_page_untouched_witness:
  "\<exists>s' new.
     main fixture_transport (start (example_server [None, None, None, Some conflict])) = Some (Inr (), s') \<and>
     sent s' = new \<and>
     \<not> list_ex (is_update_of (JStr ''1002'')) new \<and>
     fx_pages (world s') (JStr ''1002'') =
       Some \<lparr>pg_title = ''Page B'', pg_version = 5, pg_body = ''<h1>'' @ MARKER @ ''</h1>''\<rparr>"
proof -
  let ?s = "start (example_server [None, None, None, Some conflict])"
  let ?p = "\<lparr>pg_title = ''Page B'', pg_version = 5, pg_body = ''<h1>'' @ MARKER @ ''</h1>''\<rparr>"
  have h1: "chain (Suc (Suc 0)) fixture_transport (world ?s) listing_url (listing_params SPACE_KEY) =
      Some ([example_first, example_second], None, example_server [None, Some conflict])"
    using example_chain by (simp add: start_def)
  have h2: "list_all wf_listing [example_first, example_second]" by simp
  have h3: "list_all wf_summary (concat (map results_of [example_first, example_second]))" by simp
  have h4: "fx_pages (world ?s) (JStr ''1002'') = Some ?p" by (simp add: start_def)
  have h5: "sublist MARKER (pg_body ?p)"
    by (simp only: stored_page.select_convs sublist_appendI)
  from marked_page_untouched[OF h1 h2 h3 h4 h5] show ?thesis
    by (simp add: start_def)
qed

text \<open>
  Claim C3 as stated asks only that the writes of the first run succeed. That is not
  enough: on the example with an unmarked page B, let the fetch of page A fail in the
  first run. The first run sends one update, for page B, and it succeeds (B is stored
  with version 6 and the new body); the second run, on the world the first one left,
  sends an update for page A.
\<close>

theorem second_run_updates_after_failed_fetch:
  "updates_sent (run fixture_transport (example_unmarked [None, None, Some not_found])) =
     Some [PUT (page_url (JStr ''1002''))
             (update_payload (JStr ''Page B'')
                (create_lambda_status_section @ ''\<newline>\<newline>'' @ ''<p>new</p>'') (JInt 6))] \<and>
   stored (run fixture_transport (example_unmarked [None, None, Some not_found])) (JStr ''1002'') =
     Some \<lparr>pg_title = ''Page B'', pg_version = 6,
           pg_body = create_lambda_status_section @ ''\<newline>\<newline>'' @ ''<p>new</p>''\<rparr> \<and>
   updates_sent (rerun fixture_transport
                   (run fixture_transport (example_unmarked [None, None, Some not_found]))) =
     Some [PUT (page_url (JStr ''1001''))
             (update_payload (JStr ''Page A'')
                (create_lambda_status_section @ ''\<newline>\<newline>'' @ ''<p>old</p>'') (JInt 4))]"
proof -
  from cx_first_run obtain ou ra where
    r1: "run fixture_transport (example_unmarked [None, None, Some not_found]) =
     Some \<lparr>world = \<lparr>fx_listing = (\<lambda>url params. if url = listing_url then example_first else example_second),
                    fx_pages = example_pages(JStr ''1002'' \<mapsto>
                       \<lparr>pg_title = ''Page B'', pg_version = 6,
                        pg_body = create_lambda_status_section @ ''\<newline>\<newline>'' @ ''<p>new</p>''\<rparr>),
                    fx_faults = []\<rparr>,
           sent = [GET listing_url (listing_params SPACE_KEY),
                   GET [Lit (CONFLUENCE_BASE_URL @ ''/rest/api/content?start=1'')] (JDict []),
                   GET (page_url (JStr ''1001'')) page_params,
                   GET (page_url (JStr ''1002'')) page_params,
                   PUT (page_url (JStr ''1002''))
                     (update_payload (JStr ''Page B'')
                        (create_lambda_status_section @ ''\<newline>\<newline>'' @ ''<p>new</p>'') (JInt 6))],
           out = ou, raised = ra\<rparr>" by blast
  from cx_second_run obtain ou2 ra2 w2 where
    r2: "run fixture_transport
       \<lparr>fx_listing = (\<lambda>url params. if url = listing_url then example_first else example_second),
        fx_pages = example_pages(JStr ''1002'' \<mapsto>
           \<lparr>pg_title = ''Page B'', pg_version = 6,
            pg_body = create_lambda_status_section @ ''\<newline>\<newline>'' @ ''<p>new</p>''\<rparr>),
        fx_faults = []\<rparr> =
     Some \<lparr>world = w2,
           sent = [GET listing_url (listing_params SPACE_KEY),
                   GET [Lit (CONFLUENCE_BASE_URL @ ''/rest/api/content?start=1'')] (JDict []),
                   GET (page_url (JStr ''1001'')) page_params,
                   PUT (page_url (JStr ''1001''))
                     (update_payload (JStr ''Page A'')
                        (create_lambda_status_section @ ''\<newline>\<newline>'' @ ''<p>old</p>'') (JInt 4)),
                   GET (page_url (JStr ''1002'')) page_params],
           out = ou2, raised = ra2\<rparr>" by blast
  from r1 r2 show ?thesis
    by (simp add: rerun_def updates_sent_def stored_def)
qed

text \<open>
  Claim C3, amended. On the fixture server, with a finite well-formed listing, the first
  run ends normally. When no request of the first run has failed, that is when the run
  has raised no request exception (no fault, the listing complete, every listed page
  fetched and every write accepted), the first run leaves the marker in the body of
  every listed page, and a second run on the world it left ends normally and sends no
  update, whatever faults the second run itself meets.
\<close>

theorem second_run_sends_no_update:
  assumes "chain k fixture_transport w listing_url (listing_params SPACE_KEY) = Some (rs, fin, w1)"
    and "list_all wf_listing rs"
    and "list_all wf_summary (concat (map results_of rs))"
  shows "\<exists>s1.
     run fixture_transport w = Some s1 \<and>
     (raised s1 = [] \<longrightarrow>
        (\<forall>page \<in> set (concat (map results_of rs)). \<forall>i. summary_id page = Some i \<longrightarrow>
           has_marker (fx_pages (world s1) (JStr i))) \<and>
        (\<exists>s2. rerun fixture_transport (run fixture_transport w) = Some s2 \<and>
           updates_sent (Some s2) = Some []))"
proof (cases fin)
  case (Some e)
  with assms(1) have "chain k fixture_transport (world (start w)) listing_url (listing_params SPACE_KEY) =
      Some (rs, Some e, w1)"
    by (simp add: start_def)
  from main_listing_failed[OF this assms(2)] show ?thesis
    by (simp add: run_def start_def)
next
  case None
  let ?pages = "concat (map results_of rs)"
  let ?lsc = create_lambda_status_section
  let ?reqs = "chain_requests listing_url (listing_params SPACE_KEY) rs"
  from None assms(1) have c: "chain k fixture_transport w listing_url (listing_params SPACE_KEY) =
      Some (rs, None, w1)" by simp
  then have c1: "chain k fixture_transport (world (start w)) listing_url (listing_params SPACE_KEY) =
      Some (rs, None, w1)"
    by (simp add: start_def)
  from fx_chain_frame[OF c] have w1: "fx_listing w1 = fx_listing w" by simp
  from main_listing_ok[OF c1 assms(2,3)] obtain t1 where
    t1: "world t1 = w1" "raised t1 = raised (start w)"
    and m1: "main fixture_transport (start w) =
       (if ?pages = [] then Some (Inr (), t1)
        else case update_loop fixture_transport ?lsc ?pages t1 of
               (Inl err, s3) \<Rightarrow> Some (Inl err, s3)
             | (Inr _, s3) \<Rightarrow>
                 Some (Inr (), print [Lit rule60] (print complete_line (print [Lit rule60] s3))))"
    by blast
  from fx_update_loop_clean[OF marker_in_status_section assms(3), of t1] obtain u1 es where
    u1: "update_loop fixture_transport ?lsc ?pages t1 = (Inr (), u1)"
    and l1: "fx_listing (world u1) = fx_listing (world t1)"
    and r1: "raised u1 = raised t1 @ es"
    and marked: "es = [] \<longrightarrow> (\<forall>page \<in> set ?pages. \<forall>i. summary_id page = Some i \<longrightarrow>
            has_marker (fx_pages (world u1) (JStr i)))"
    by blast
  define s1 where "s1 = (if ?pages = [] then t1
     else print [Lit rule60] (print complete_line (print [Lit rule60] u1)))"
  have run1: "main fixture_transport (start w) = Some (Inr (), s1)"
    unfolding s1_def m1 by (simp add: u1)
  then have r: "run fixture_transport w = Some s1"
    by (simp add: run_def)
  have s1l: "fx_listing (world s1) = fx_listing w"
    unfolding s1_def using t1 w1 l1 by auto
  have second: "(\<forall>page \<in> set ?pages. \<forall>i. summary_id page = Some i \<longrightarrow>
           has_marker (fx_pages (world s1) (JStr i))) \<and>
        (\<exists>s2. rerun fixture_transport (run fixture_transport w) = Some s2 \<and>
           updates_sent (Some s2) = Some [])"
    if clean: "raised s1 = []"
  proof -
    have s1m: "\<forall>page \<in> set ?pages. \<forall>i. summary_id page = Some i \<longrightarrow>
        has_marker (fx_pages (world s1) (JStr i))"
    proof (cases "?pages = []")
      case True
      then show ?thesis by (metis empty_iff empty_set)
    next
      case False
      then have "world s1 = world u1" "raised s1 = raised u1"
        by (simp_all only: s1_def if_False world_print raised_print)
      with marked clean r1 show ?thesis by simp
    qed
    from fx_chain_replay[OF c, of "world s1"] s1l obtain rs' fin' v' where
      c2: "chain k fixture_transport (world s1) listing_url (listing_params SPACE_KEY) =
          Some (rs', fin', v')"
      and pre: "prefix rs' rs" and same: "fin' = None \<longrightarrow> rs' = rs"
      by auto
    have wl': "list_all wf_listing rs'"
      by (rule list_all_prefix[OF pre assms(2)])
    have "\<exists>s2. main fixture_transport (start (world s1)) = Some (Inr (), s2) \<and>
            filter is_update (sent s2) = []"
    proof (cases fin')
      case (Some e)
      with c2 have "chain k fixture_transport (world (start (world s1))) listing_url
          (listing_params SPACE_KEY) = Some (rs', Some e, v')"
        by (simp add: start_def)
      from main_listing_failed[OF this wl'] show ?thesis
        by (simp add: start_def chain_requests_no_update)
    next
      case None
      with same c2 have c2': "chain k fixture_transport (world (start (world s1))) listing_url
          (listing_params SPACE_KEY) = Some (rs, None, v')"
        by (simp add: start_def)
      then have "chain k fixture_transport (world s1) listing_url
          (listing_params SPACE_KEY) = Some (rs, None, v')"
        by (simp add: start_def)
      from fx_chain_frame[OF this] have v1: "fx_pages v' = fx_pages (world s1)" by simp
      from main_listing_ok[OF c2' assms(2,3)] obtain t2 where
        t2: "world t2 = v'" "sent t2 = sent (start (world s1)) @ ?reqs"
        and m2: "main fixture_transport (start (world s1)) =
           (if ?pages = [] then Some (Inr (), t2)
            else case update_loop fixture_transport ?lsc ?pages t2 of
                   (Inl err, s3) \<Rightarrow> Some (Inl err, s3)
                 | (Inr _, s3) \<Rightarrow>
                     Some (Inr (), print [Lit rule60] (print complete_line (print [Lit rule60] s3))))"
        by blast
      have "\<forall>page \<in> set ?pages. \<forall>i. summary_id page = Some i \<longrightarrow>
          fx_pages (world t2) (JStr i) = None \<or> has_marker (fx_pages (world t2) (JStr i))"
        using s1m t2 v1 by simp
      from fx_all_marked_no_update[OF assms(3) this, of ?lsc] obtain u2 new where
        u2: "update_loop fixture_transport ?lsc ?pages t2 = (Inr (), u2)"
        and n2: "sent u2 = sent t2 @ new" "\<not> list_ex is_update new"
        by blast
      define s2 where "s2 = (if ?pages = [] then t2
         else print [Lit rule60] (print complete_line (print [Lit rule60] u2)))"
      have run2: "main fixture_transport (start (world s1)) = Some (Inr (), s2)"
        unfolding s2_def m2 by (simp add: u2)
      have "filter is_update new = []"
        using n2(2) by (simp add: list_ex_iff filter_empty_conv)
      then have "filter is_update (sent s2) = []"
        unfolding s2_def using t2 n2(1) by (simp add: start_def chain_requests_no_update)
      with run2 show ?thesis by blast
    qed
    then obtain s2 where "main fixture_transport (start (world s1)) = Some (Inr (), s2)"
      "filter is_update (sent s2) = []" by blast
    with r have "rerun fixture_transport (run fixture_transport w) = Some s2 \<and>
           updates_sent (Some s2) = Some []"
      by (simp add: run_def rerun_def updates_sent_def)
    with s1m show ?thesis by blast
  qed
  from r second show ?thesis by blast
qed

theorem second_run_sends_no_update_witness:
  "\<exists>s1 s2.
     run fixture_transport (example_server [None, None, None, None, None, None, None, Some not_found]) =
       Some s1 \<and>
     raised s1 = [] \<and>
     has_marker (fx_pages (world s1) (JStr ''1001'')) \<and>
     has_marker (fx_pages (world s1) (JStr ''1002'')) \<and>
     rerun fixture_transport
       (run fixture_transport (example_server [None, None, None, None, None, None, None, Some not_found])) =
       Some s2 \<and>
     raised s2 = [not_found] \<and>
     updates_sent (Some s2) = Some []"
proof -
  let ?w = "example_server [None, None, None, None, None, None, None, Some not_found]"
  have h1: "chain (Suc (Suc 0)) fixture_transport ?w listing_url (listing_params SPACE_KEY) =
      Some ([example_first, example_second], None,
            example_server [None, None, None, None, None, Some not_found])"
    by (rule example_chain)
  have h2: "list_all wf_listing [example_first, example_second]" by simp
  have h3: "list_all wf_summary (concat (map results_of [example_first, example_second]))" by simp
  from second_run_sends_no_update[OF h1 h2 h3] obtain s1 where
    r: "run fixture_transport ?w = Some s1"
    and imp: "raised s1 = [] \<longrightarrow>
        (\<forall>page \<in> set (concat (map results_of [example_first, example_second])).
           \<forall>i. summary_id page = Some i \<longrightarrow> has_marker (fx_pages (world s1) (JStr i))) \<and>
        (\<exists>s2. rerun fixture_transport (run fixture_transport ?w) = Some s2 \<and>
           updates_sent (Some s2) = Some [])"
    by blast
  from late_fault_first_run r obtain snt ou where
    s1: "s1 = \<lparr>world = \<lparr>fx_listing = (\<lambda>url params. if url = listing_url then example_first else example_second),
                    fx_pages = example_pages(JStr ''1001'' \<mapsto>
                       \<lparr>pg_title = ''Page A'', pg_version = 4,
                        pg_body = create_lambda_status_section @ ''\<newline>\<newline>'' @ ''<p>old</p>''\<rparr>),
                    fx_faults = [None, None, Some not_found]\<rparr>,
           sent = snt, out = ou, raised = []\<rparr>"
    by auto
  then have clean: "raised s1 = []" by simp
  with imp obtain s2 where
    m: "has_marker (fx_pages (world s1) (JStr ''1001''))"
       "has_marker (fx_pages (world s1) (JStr ''1002''))"
    and r2: "rerun fixture_transport (run fixture_transport ?w) = Some s2"
       "updates_sent (Some s2) = Some []"
    by auto
  from r2(1) r s1 late_fault_second_run have "raised s2 = [not_found]"
    by (auto simp: rerun_def)
  with r clean m r2 show ?thesis by blast
qed

text \<open>
  Claim C4. When the continuation chain of the server is finite and ends without an
  exception (at most \<open>k\<close> requests reach a response without a \<open>next\<close> link) and its
  responses \<open>rs\<close> are well-formed listing responses, \<^const>\<open>get_all_pages_in_space\<close>
  terminates. It has issued exactly the requests of the chain, the first to the listing
  URL and each further one to the URL made of the base URL and the \<open>next\<close> reference of
  the previous response, and it returns the concatenation of the \<open>results\<close> lists of
  all responses, in order, each once.
\<close>

theorem listing_returns_all_pages:
  assumes "chain k T (world s) listing_url (listing_params space_key) = Some (rs, None, w')"
    and "list_all wf_listing rs"
  shows "get_all_pages_in_space T space_key s =
           Some (Inr (concat (map results_of rs)),
                 s\<lparr>world := w', sent := sent s @ chain_requests listing_url (listing_params space_key) rs\<rparr>)"
  using get_all_pages_chain[OF assms] by simp

theorem listing_returns_all_pages_witness:
  "get_all_pages_in_space fixture_transport SPACE_KEY (start (example_server [])) =
     Some (Inr [JDict [(''id'', JStr ''1001''), (''title'', JStr ''Page A'')],
                JDict [(''id'', JStr ''1002''), (''title'', JStr ''Page B'')]],
           \<lparr>world = example_server [],
            sent = [GET listing_url (listing_params SPACE_KEY),
                    GET [Lit (CONFLUENCE_BASE_URL @ ''/rest/api/content?start=1'')] (JDict [])],
            out = [], raised = []\<rparr>)"
proof -
  have c: "chain (Suc (Suc 0)) fixture_transport (world (start (example_server []))) listing_url
      (listing_params SPACE_KEY) = Some ([example_first, example_second], None, example_server [])"
    using example_chain_nofault by (simp add: start_def)
  have w: "list_all wf_listing [example_first, example_second]" by simp
  from listing_returns_all_pages[OF c w] show ?thesis
    by (simp add: start_def)
qed

text \<open>
  Claim C5. \<^const>\<open>update_page\<close>, called with the known version \<open>v\<close>, sends one PUT
  whose payload has the version number \<open>v + 1\<close> and, as its body, the whole new
  content. It returns \<open>True\<close> exactly when that request succeeds, and then prints the
  line of line 97. When the request fails with the exception \<open>e\<close> it prints the line of
  line 100, which holds the title and \<open>e\<close>, then the line of line 102 with the response
  text if \<open>e\<close> carries one, and returns \<open>False\<close> without raising; \<open>e\<close> is the only
  exception raised. In the update loop the page is then finished either way, and the
  loop goes on with the remaining pages.
\<close>

theorem update_page_contract:
  assumes "http_put T w (page_url pid) (update_payload title content (JInt (v + 1))) = (r, w')"
  shows "page_version (update_payload title content (JInt (v + 1))) = Some (v + 1) \<and>
         page_body (update_payload title content (JInt (v + 1))) = Some content \<and>
         (\<forall>s. world s = w \<longrightarrow>
            (\<exists>s'. update_page T pid title content (JInt v) s = (Inr (\<not> isl r), s') \<and>
               world s' = w' \<and>
               sent s' = sent s @ [PUT (page_url pid) (update_payload title content (JInt (v + 1)))] \<and>
               raised s' = raised s @ (case r of Inr _ \<Rightarrow> [] | Inl e \<Rightarrow> [e]) \<and>
               out s' = out s @
                 (case r of
                    Inr _ \<Rightarrow> [[Lit ([CHR 0xE2, CHR 0x9C, CHR 0x85] @ '' Updated page: ''), Fmt title]]
                  | Inl e \<Rightarrow>
                      [Lit ([CHR 0xE2, CHR 0x9D, CHR 0x8C] @ '' Error updating page ''), Fmt title,
                       Lit '': '', FmtExc e] #
                      (case exc_response_text e of
                         Some txt \<Rightarrow> [[Lit ''   Response: '', Fmt (JStr txt)]]
                       | None \<Rightarrow> [])))) \<and>
         (\<forall>page lsc rest s0 fp c.
            py_getitem page ''id'' = Inr pid \<and> py_getitem page ''title'' = Inr title \<and>
            http_get T (world s0) (page_url pid) page_params = (Inr fp, w) \<and>
            page_version fp = Some v \<and> page_body fp = Some c \<and> \<not> sublist MARKER c \<and>
            content = lsc @ ''\<newline>\<newline>'' @ c \<longrightarrow>
            (\<exists>s'. world s' = w' \<and>
               sent s' = sent s0 @ [GET (page_url pid) page_params,
                                    PUT (page_url pid) (update_payload title content (JInt (v + 1)))] \<and>
               update_loop T lsc (page # rest) s0 = update_loop T lsc rest s'))"
proof -
  let ?put = "PUT (page_url pid) (update_payload title content (JInt (v + 1)))"
  have call: "\<exists>s'. update_page T pid title content (JInt v) s = (Inr (\<not> isl r), s') \<and>
               world s' = w' \<and> sent s' = sent s @ [?put] \<and>
               raised s' = raised s @ (case r of Inr _ \<Rightarrow> [] | Inl e \<Rightarrow> [e]) \<and>
               out s' = out s @
                 (case r of
                    Inr _ \<Rightarrow> [[Lit ([CHR 0xE2, CHR 0x9C, CHR 0x85] @ '' Updated page: ''), Fmt title]]
                  | Inl e \<Rightarrow>
                      [Lit ([CHR 0xE2, CHR 0x9D, CHR 0x8C] @ '' Error updating page ''), Fmt title,
                       Lit '': '', FmtExc e] #
                      (case exc_response_text e of
                         Some txt \<Rightarrow> [[Lit ''   Response: '', Fmt (JStr txt)]]
                       | None \<Rightarrow> []))"
    if "world s = w" for s
  proof -
    from assms that have "http_put T (world s) (page_url pid)
        (update_payload title content (JInt (v + 1))) = (r, w')" by simp
    from update_page_int[OF this] show ?thesis
      by (cases r; cases "exc_response_text (projl r)")
         (simp_all add: Let_def updated_line_def update_error_line_def response_line_def)
  qed
  have loop: "\<exists>s'. world s' = w' \<and>
               sent s' = sent s0 @ [GET (page_url pid) page_params, ?put] \<and>
               update_loop T lsc (page # rest) s0 = update_loop T lsc rest s'"
    if ids: "py_getitem page ''id'' = Inr pid" "py_getitem page ''title'' = Inr title"
      and g: "http_get T (world s0) (page_url pid) page_params = (Inr fp, w)"
      and fp: "page_version fp = Some v" "page_body fp = Some c" "\<not> sublist MARKER c"
      and c: "content = lsc @ ''\<newline>\<newline>'' @ c"
    for page lsc rest s0 fp c
  proof -
    have p: "http_put T w (page_url pid)
        (update_payload title (lsc @ ''\<newline>\<newline>'' @ c) (JInt (v + 1))) = (r, w')"
      using assms c by simp
    from process_page_update[OF ids g fp p] obtain s' where
      "process_page T lsc page s0 = (Inr (), s')" "world s' = w'"
      "sent s' = sent s0 @ [GET (page_url pid) page_params, ?put]"
      by (cases r; cases "exc_response_text (projl r)") (simp_all add: Let_def c)
    then show ?thesis
      by (intro exI[of _ s']) simp
  qed
  show ?thesis
    apply (intro conjI allI impI)
       apply simp
      apply simp
     apply (erule call)
    apply (erule conjE)+
    apply (rule loop; assumption)
    done
qed

theorem update_page_contract_witness:
  "(\<exists>s'. update_page fixture_transport (JStr ''1001'') (JStr ''Page A'')
           (create_lambda_status_section @ ''\<newline>\<newline>'' @ ''<p>old</p>'') (JInt 3)
           (start (example_server [Some conflict])) = (Inr False, s') \<and>
         world s' = example_server [] \<and>
         sent s' = [PUT (page_url (JStr ''1001''))
                      (update_payload (JStr ''Page A'')
                         (create_lambda_status_section @ ''\<newline>\<newline>'' @ ''<p>old</p>'') (JInt 4))] \<and>
         raised s' = [conflict] \<and>
         out s' = [[Lit ([CHR 0xE2, CHR 0x9D, CHR 0x8C] @ '' Error updating page ''), Fmt (JStr ''Page A''),
                    Lit '': '', FmtExc conflict],
                   [Lit ''   Response: '', Fmt (JStr ''Version must be incremented'')]]) \<and>
   (\<exists>s'. world s' = example_server [] \<and>
      update_loop fixture_transport create_lambda_status_section
        [JDict [(''id'', JStr ''1001''), (''title'', JStr ''Page A'')],
         JDict [(''id'', JStr ''1002''), (''title'', JStr ''Page B'')]]
        (start (example_server [None, Some conflict])) =
      update_loop fixture_transport create_lambda_status_section
        [JDict [(''id'', JStr ''1002''), (''title'', JStr ''Page B'')]] s')"
proof -
  let ?content = "create_lambda_status_section @ ''\<newline>\<newline>'' @ ''<p>old</p>''"
  let ?s = "start (example_server [Some conflict])"
  have put: "http_put fixture_transport (example_server [Some conflict]) (page_url (JStr ''1001''))
      (update_payload (JStr ''Page A'') ?content (JInt (3 + 1))) = (Inl conflict, example_server [])"
    by (simp add: fx_put_fault)
  note c = update_page_contract[OF put]
  note call = c[THEN conjunct2, THEN conjunct2, THEN conjunct1, rule_format, of ?s]
  note loop = c[THEN conjunct2, THEN conjunct2, THEN conjunct2, rule_format]
  have "world ?s = example_server [Some conflict]" by (simp add: start_def)
  from call[OF this] have first:
    "\<exists>s'. update_page fixture_transport (JStr ''1001'') (JStr ''Page A'') ?content (JInt 3) ?s = (Inr False, s') \<and>
         world s' = example_server [] \<and>
         sent s' = [PUT (page_url (JStr ''1001'')) (update_payload (JStr ''Page A'') ?content (JInt 4))] \<and>
         raised s' = [conflict] \<and>
         out s' = [[Lit ([CHR 0xE2, CHR 0x9D, CHR 0x8C] @ '' Error updating page ''), Fmt (JStr ''Page A''),
                    Lit '': '', FmtExc conflict],
                   [Lit ''   Response: '', Fmt (JStr ''Version must be incremented'')]]"
    by (simp add: start_def conflict_def)
  let ?page = "JDict [(''id'', JStr ''1001''), (''title'', JStr ''Page A'')]"
  let ?s0 = "start (example_server [None, Some conflict])"
  let ?fp = "page_json (JStr ''1001'') \<lparr>pg_title = ''Page A'', pg_version = 3, pg_body = ''<p>old</p>''\<rparr>"
  have pre: "py_getitem ?page ''id'' = Inr (JStr ''1001'') \<and> py_getitem ?page ''title'' = Inr (JStr ''Page A'') \<and>
      http_get fixture_transport (world ?s0) (page_url (JStr ''1001'')) page_params =
        (Inr ?fp, example_server [Some conflict]) \<and>
      page_version ?fp = Some 3 \<and> page_body ?fp = Some ''<p>old</p>'' \<and> \<not> sublist MARKER ''<p>old</p>'' \<and>
      ?content = create_lambda_status_section @ ''\<newline>\<newline>'' @ ''<p>old</p>''"
    by (simp add: start_def fx_get_page)
  from loop[OF pre] first show ?thesis by blast
qed

text \<open>
  Claim C6. When a request of the listing fails with a request exception \<open>e\<close>, after any
  number of successful responses \<open>rs\<close>, \<^const>\<open>get_all_pages_in_space\<close> prints the
  line of line 57, \<^verbatim>\<open>Error fetching pages: \<close> followed by \<open>e\<close>, and returns the empty
  list, whatever the earlier responses held. The run of \<^const>\<open>main\<close> then ends
  normally: it has printed the line of line 258, that line of line 57 and the line of
  line 262 that no pages were found, \<open>e\<close> is the only exception raised, and the
  requests sent are those of the listing only, none of them a fetch of a page or an
  update.
\<close>

theorem listing_error_is_noop:
  assumes "chain k T (world s) listing_url (listing_params SPACE_KEY) = Some (rs, Some e, w')"
    and "list_all wf_listing rs"
  shows "get_all_pages_in_space T SPACE_KEY s =
           Some (Inr [],
                 s\<lparr>world := w',
                   sent := sent s @ chain_requests listing_url (listing_params SPACE_KEY) rs,
                   out := out s @ [[Lit ''Error fetching pages: '', FmtExc e]],
                   raised := raised s @ [e]\<rparr>) \<and>
         main T s =
           Some (Inr (),
                 s\<lparr>world := w',
                   sent := sent s @ chain_requests listing_url (listing_params SPACE_KEY) rs,
                   out := out s @
                     [[Lit ([CHR 0xF0, CHR 0x9F, CHR 0x94, CHR 0x8D] @ '' Fetching pages from Confluence space...'')],
                      [Lit ''Error fetching pages: '', FmtExc e],
                      [Lit ([CHR 0xE2, CHR 0x9D, CHR 0x8C] @ '' No pages found or error occurred'')]],
                   raised := raised s @ [e]\<rparr>) \<and>
         list_all (\<lambda>q. \<not> is_fetch q \<and> \<not> is_update q)
           (chain_requests listing_url (listing_params SPACE_KEY) rs)"
  using get_all_pages_chain[OF assms] main_listing_failed[OF assms]
    chain_requests_listing_only[of "listing_params SPACE_KEY" listing_url rs]
  by (simp add: print_def listing_error_line_def fetching_line_def no_pages_line_def)

theorem listing_error_is_noop_witness:
  "main fixture_transport (start (example_server [None, Some not_found])) =
     Some (Inr (),
           \<lparr>world = example_server [],
            sent = [GET listing_url (listing_params SPACE_KEY),
                    GET [Lit (CONFLUENCE_BASE_URL @ ''/rest/api/content?start=1'')] (JDict [])],
            out = [[Lit ([CHR 0xF0, CHR 0x9F, CHR 0x94, CHR 0x8D] @ '' Fetching pages from Confluence space...'')],
                   [Lit ''Error fetching pages: '', FmtExc not_found],
                   [Lit ([CHR 0xE2, CHR 0x9D, CHR 0x8C] @ '' No pages found or error occurred'')]],
            raised = [not_found]\<rparr>)"
proof -
  have c: "chain (Suc (Suc 0)) fixture_transport (world (start (example_server [None, Some not_found])))
      listing_url (listing_params SPACE_KEY) = Some ([example_first], Some not_found, example_server [])"
    using example_chain_fault by (simp add: start_def)
  have w: "list_all wf_listing [example_first]" by simp
  from listing_error_is_noop[OF c w] show ?thesis
    by (simp add: start_def)
qed

text \<open>
  Claim C7. When the fetch of a listed page fails with a request exception \<open>e\<close>,
  \<^const>\<open>get_page_content\<close> prints the line of line 72, which holds the id of the page
  and \<open>e\<close>, and returns the empty dict. The update loop, having processed the pages
  before it, sends nothing more for that page than the failed GET, prints nothing more
  than that line, and goes on with the pages after it, from the state the failed fetch
  left.
\<close>

theorem failed_fetch_skips_page:
  assumes "py_getitem page ''id'' = Inr pid" and "py_getitem page ''title'' = Inr title"
    and "update_loop T lsc before s0 = (Inr (), s)"
    and "http_get T (world s) (page_url pid) page_params = (Inl e, w')"
  shows "get_page_content T pid s =
           (JDict [],
            s\<lparr>world := w', sent := sent s @ [GET (page_url pid) page_params],
              out := out s @ [[Lit ''Error fetching page '', Fmt pid, Lit '': '', FmtExc e]],
              raised := raised s @ [e]\<rparr>) \<and>
         update_loop T lsc (before @ page # after) s0 =
           update_loop T lsc after
             (s\<lparr>world := w', sent := sent s @ [GET (page_url pid) page_params],
                out := out s @ [[Lit ''Error fetching page '', Fmt pid, Lit '': '', FmtExc e]],
                raised := raised s @ [e]\<rparr>)"
proof -
  have eq: "print (fetch_error_line pid e)
       (s\<lparr>world := w', sent := sent s @ [GET (page_url pid) page_params],
          raised := raised s @ [e]\<rparr>) =
     s\<lparr>world := w', sent := sent s @ [GET (page_url pid) page_params],
       out := out s @ [[Lit ''Error fetching page '', Fmt pid, Lit '': '', FmtExc e]],
       raised := raised s @ [e]\<rparr>"
    by (simp add: print_def fetch_error_line_def)
  from get_page_content_run[OF assms(4)] have "get_page_content T pid s =
      (JDict [], print (fetch_error_line pid e)
         (s\<lparr>world := w', sent := sent s @ [GET (page_url pid) page_params],
            raised := raised s @ [e]\<rparr>))"
    by simp
  moreover from process_page_fetch_failed[OF assms(1,2,4), of lsc] assms(3)
  have "update_loop T lsc (before @ page # after) s0 =
      update_loop T lsc after (print (fetch_error_line pid e)
         (s\<lparr>world := w', sent := sent s @ [GET (page_url pid) page_params],
            raised := raised s @ [e]\<rparr>))"
    by (simp add: update_loop_append)
  ultimately show ?thesis
    by (simp only: eq)
qed

theorem failed_fetch_skips_page_witness:
  "update_loop fixture_transport create_lambda_status_section
     ([] @ JDict [(''id'', JStr ''1001''), (''title'', JStr ''Page A'')] #
        [JDict [(''id'', JStr ''1002''), (''title'', JStr ''Page B'')]])
     (start (example_server [Some not_found])) =
   update_loop fixture_transport create_lambda_status_section
     [JDict [(''id'', JStr ''1002''), (''title'', JStr ''Page B'')]]
     \<lparr>world = example_server [], sent = [GET (page_url (JStr ''1001'')) page_params],
      out = [[Lit ''Error fetching page '', Fmt (JStr ''1001''), Lit '': '', FmtExc not_found]],
      raised = [not_found]\<rparr>"
proof -
  let ?s = "start (example_server [Some not_found])"
  have i: "py_getitem (JDict [(''id'', JStr ''1001''), (''title'', JStr ''Page A'')]) ''id'' = Inr (JStr ''1001'')"
    and t: "py_getitem (JDict [(''id'', JStr ''1001''), (''title'', JStr ''Page A'')]) ''title'' = Inr (JStr ''Page A'')"
    by simp_all
  have b: "update_loop fixture_transport create_lambda_status_section [] ?s = (Inr (), ?s)" by simp
  have g: "http_get fixture_transport (world ?s) (page_url (JStr ''1001'')) page_params =
      (Inl not_found, example_server [])"
    by (simp add: start_def fx_get_fault)
  from failed_fetch_skips_page[OF i t b g] show ?thesis
    by (simp add: start_def print_def)
qed

text \<open>
  Claim C8. Against any server whose listing chain is finite and whose successful
  responses have the documented shapes, \<^const>\<open>main\<close> returns normally, with \<open>Inr ()\<close>,
  whichever of its requests fail with a request exception: the transport is arbitrary,
  so every combination of failures in listing, fetching and writing is covered. What
  the run leaves of those failures is printed lines: the exceptions that the calls of
  \<^verbatim>\<open>requests\<close> raised during the run are exactly the exceptions reported by the
  lines printed during the run, one line for each and in the order raised.
\<close>

theorem main_returns_normally:
  assumes "chain k T (world s) listing_url (listing_params SPACE_KEY) = Some (rs, fin, w1)"
    and "list_all wf_listing rs"
    and "list_all wf_summary (concat (map results_of rs))"
    and "\<forall>w pid fp w'. http_get T w (page_url pid) page_params = (Inr fp, w') \<longrightarrow> wf_page fp"
  shows "\<exists>s' lines. main T s = Some (Inr (), s') \<and>
           out s' = out s @ lines \<and> raised s' = raised s @ reported lines"
  using main_returns[OF assms] unfolding absorbed_def by blast

theorem main_returns_normally_witness:
  "\<exists>s' lines.
     main fixture_transport
       (start (example_unmarked [None, None, Some not_found, None, Some conflict])) =
     Some (Inr (), s') \<and>
     out s' = lines \<and> raised s' = [not_found, conflict] \<and> reported lines = [not_found, conflict]"
proof -
  let ?s = "start (example_unmarked [None, None, Some not_found, None, Some conflict])"
  have c: "chain (Suc (Suc 0)) fixture_transport (world ?s) listing_url (listing_params SPACE_KEY) =
      Some ([example_first, example_second], None,
            (example_unmarked [None, None, Some not_found, None, Some conflict])
              \<lparr>fx_faults := [Some not_found, None, Some conflict]\<rparr>)"
    by (simp add: start_def fx_get_listing)
  have w: "list_all wf_listing [example_first, example_second]" by simp
  have p: "list_all wf_summary (concat (map results_of [example_first, example_second]))" by simp
  from main_returns_normally[OF c w p fx_fetch_wf] obtain s' lines where
    m: "main fixture_transport ?s = Some (Inr (), s')"
    and o: "out s' = out ?s @ lines" and r: "raised s' = raised ?s @ reported lines"
    by blast
  from example_faulty_run m have "raised s' = [not_found, conflict]"
    by auto
  with m o r show ?thesis
    by (simp add: start_def)
qed

text \<open>
  Claim C9. The marker that the skip guard looks for is a substring of the status
  section, and every update that a run of \<^const>\<open>main\<close> sends has a body that contains
  the marker.
\<close>

theorem marker_in_every_update:
  assumes "main T s = Some (r, s')"
  shows "sublist MARKER create_lambda_status_section \<and>
         (\<exists>new. sent s' = sent s @ new \<and>
            (\<forall>q \<in> set new. is_update q \<longrightarrow>
               (\<exists>u p c. q = PUT u p \<and> page_body p = Some c \<and> sublist MARKER c)))"
proof -
  from main_sent[OF assms] obtain new where
    n: "sent s' = sent s @ new" and
    u: "\<forall>q \<in> set new. is_update q \<longrightarrow>
          (\<exists>pages s1. get_all_pages_in_space T SPACE_KEY (print fetching_line s) = Some (Inr pages, s1) \<and>
             (\<exists>page \<in> set pages. update_of create_lambda_status_section page q))"
    by blast
  have "\<exists>u p c. q = PUT u p \<and> page_body p = Some c \<and> sublist MARKER c"
    if "q \<in> set new" "is_update q" for q
  proof -
    from u that obtain page where "update_of create_lambda_status_section page q" by blast
    then obtain pid title c n where
      q: "q = PUT (page_url pid) (update_payload title (create_lambda_status_section @ ''\<newline>\<newline>'' @ c) n)"
      unfolding update_of_def by blast
    have "sublist MARKER (create_lambda_status_section @ ''\<newline>\<newline>'' @ c)"
      by (rule sublist_app1) (rule marker_in_status_section)
    with q show ?thesis by (simp del: append.simps)
  qed
  with n marker_in_status_section show ?thesis by blast
qed

theorem marker_in_every_update_witness:
  "\<exists>s' c. main fixture_transport (start (example_server [])) = Some (Inr (), s') \<and>
      PUT (page_url (JStr ''1001''))
        (update_payload (JStr ''Page A'')
           (create_lambda_status_section @ ''\<newline>\<newline>'' @ ''<p>old</p>'') (JInt 4)) \<in> set (sent s') \<and>
      page_body (update_payload (JStr ''Page A'')
           (create_lambda_status_section @ ''\<newline>\<newline>'' @ ''<p>old</p>'') (JInt 4)) = Some c \<and>
      sublist MARKER c"
proof -
  let ?put = "PUT (page_url (JStr ''1001''))
        (update_payload (JStr ''Page A'')
           (create_lambda_status_section @ ''\<newline>\<newline>'' @ ''<p>old</p>'') (JInt 4))"
  from example_main obtain s' where
    m: "main fixture_transport (start (example_server [])) = Some (Inr (), s')"
    and t: "?put \<in> set (sent s')" by auto
  from marker_in_every_update[OF m] obtain new where
    n: "sent s' = sent (start (example_server [])) @ new"
    and u: "\<forall>q \<in> set new. is_update q \<longrightarrow>
               (\<exists>u p c. q = PUT u p \<and> page_body p = Some c \<and> sublist MARKER c)"
    by blast
  from n t have "?put \<in> set new" by (simp add: start_def)
  with u have "\<exists>u p c. ?put = PUT u p \<and> page_body p = Some c \<and> sublist MARKER c"
    by (metis is_update.simps(1))
  with m t show ?thesis by blast
qed

text \<open>
  Claim C10 as stated says that a run never changes the title of a page. The title
  that an update carries is the one of the listing, never the one fetched with the page
  (lines 280 and 300). On the server where page A is stored under another title than
  the listed one, the run sends one update, for page A, and the stored title of page A
  is replaced by the listed title.
\<close>

theorem run_replaces_stored_title:
  "fx_pages example_retitled (JStr ''1001'') =
     Some \<lparr>pg_title = ''Stored title'', pg_version = 3, pg_body = ''<p>old</p>''\<rparr> \<and>
   updates_sent (run fixture_transport example_retitled) =
     Some [PUT (page_url (JStr ''1001''))
             (update_payload (JStr ''Page A'')
                (create_lambda_status_section @ ''\<newline>\<newline>'' @ ''<p>old</p>'') (JInt 4))] \<and>
   stored (run fixture_transport example_retitled) (JStr ''1001'') =
     Some \<lparr>pg_title = ''Page A'', pg_version = 4,
           pg_body = create_lambda_status_section @ ''\<newline>\<newline>'' @ ''<p>old</p>''\<rparr>"
proof -
  from retitled_run obtain ou ra where
    r: "run fixture_transport example_retitled =
     Some \<lparr>world = \<lparr>fx_listing = (\<lambda>url params. if url = listing_url then example_first else example_second),
                    fx_pages = example_pages(JStr ''1001'' \<mapsto>
                       \<lparr>pg_title = ''Page A'', pg_version = 4,
                        pg_body = create_lambda_status_section @ ''\<newline>\<newline>'' @ ''<p>old</p>''\<rparr>),
                    fx_faults = []\<rparr>,
           sent = [GET listing_url (listing_params SPACE_KEY),
                   GET [Lit (CONFLUENCE_BASE_URL @ ''/rest/api/content?start=1'')] (JDict []),
                   GET (page_url (JStr ''1001'')) page_params,
                   PUT (page_url (JStr ''1001''))
                     (update_payload (JStr ''Page A'')
                        (create_lambda_status_section @ ''\<newline>\<newline>'' @ ''<p>old</p>'') (JInt 4)),
                   GET (page_url (JStr ''1002'')) page_params],
           out = ou, raised = ra\<rparr>" by blast
  from r show ?thesis
    by (simp add: updates_sent_def stored_def)
qed

text \<open>
  Claim C10, amended. Every update that a run of \<^const>\<open>main\<close> sends, against any
  transport, is for a page of the listing: it goes to the URL of that page's id, and its
  payload, made by \<^const>\<open>update_payload\<close> from the listed title, a content and a
  version number, has the title exactly as listed and the type \<open>page\<close>. On the
  fixture server, with any faults and a finite well-formed listing, the run ends
  normally and every id is afterwards stored as before, or it was stored without the
  marker, is the id of a listed page, and is stored with the title of that listed page,
  its version plus one and the status section, the separator and its former body: no
  page appears or disappears, and a page that is written gets the listed title. When
  the listing reports every page under the title it is stored with, every page is
  afterwards as before or differs from its prior state in version and body only.
\<close>

theorem updates_carry_listed_title:
  "(main T s = Some (r, s') \<longrightarrow>
      (\<exists>new. sent s' = sent s @ new \<and>
         (\<forall>q \<in> set new. is_update q \<longrightarrow>
            (\<exists>pages s1 page page_id title content number.
               get_all_pages_in_space T SPACE_KEY (print fetching_line s) = Some (Inr pages, s1) \<and>
               page \<in> set pages \<and>
               py_getitem page ''id'' = Inr page_id \<and> py_getitem page ''title'' = Inr title \<and>
               q = PUT (page_url page_id) (update_payload title content number) \<and>
               field (update_payload title content number) ''title'' = Some title \<and>
               field (update_payload title content number) ''type'' = Some (JStr ''page''))))) \<and>
   (chain k fixture_transport (world sf) listing_url (listing_params SPACE_KEY) = Some (rs, fin, w1) \<and>
    list_all wf_listing rs \<and> list_all wf_summary (concat (map results_of rs)) \<longrightarrow>
      (\<exists>sf'. main fixture_transport sf = Some (Inr (), sf') \<and>
         (\<forall>pid. fx_pages (world sf') pid = fx_pages (world sf) pid \<or>
            (\<exists>p page i t. fx_pages (world sf) pid = Some p \<and> \<not> sublist MARKER (pg_body p) \<and>
               page \<in> set (concat (map results_of rs)) \<and> summary_id page = Some i \<and> pid = JStr i \<and>
               summary_title page = Some t \<and>
               fx_pages (world sf') pid =
                 Some \<lparr>pg_title = t, pg_version = pg_version p + 1,
                       pg_body = create_lambda_status_section @ ''\<newline>\<newline>'' @ pg_body p\<rparr>)) \<and>
         ((\<forall>page \<in> set (concat (map results_of rs)). \<forall>i p.
              summary_id page = Some i \<and> fx_pages (world sf) (JStr i) = Some p \<longrightarrow>
              summary_title page = Some (pg_title p)) \<longrightarrow>
          (\<forall>pid p. fx_pages (world sf) pid = Some p \<longrightarrow>
             fx_pages (world sf') pid = Some p \<or>
             fx_pages (world sf') pid =
               Some (p\<lparr>pg_version := pg_version p + 1,
                       pg_body := create_lambda_status_section @ ''\<newline>\<newline>'' @ pg_body p\<rparr>)))))"
proof (intro conjI impI)
  assume "main T s = Some (r, s')"
  then show "\<exists>new. sent s' = sent s @ new \<and>
         (\<forall>q \<in> set new. is_update q \<longrightarrow>
            (\<exists>pages s1 page page_id title content number.
               get_all_pages_in_space T SPACE_KEY (print fetching_line s) = Some (Inr pages, s1) \<and>
               page \<in> set pages \<and>
               py_getitem page ''id'' = Inr page_id \<and> py_getitem page ''title'' = Inr title \<and>
               q = PUT (page_url page_id) (update_payload title content number) \<and>
               field (update_payload title content number) ''title'' = Some title \<and>
               field (update_payload title content number) ''type'' = Some (JStr ''page'')))"
    by (rule main_updates_listed)
next
  let ?pages = "concat (map results_of rs)"
  let ?lsc = create_lambda_status_section
  assume "chain k fixture_transport (world sf) listing_url (listing_params SPACE_KEY) = Some (rs, fin, w1) \<and>
    list_all wf_listing rs \<and> list_all wf_summary ?pages"
  then have c: "chain k fixture_transport (world sf) listing_url (listing_params SPACE_KEY) = Some (rs, fin, w1)"
    and wl: "list_all wf_listing rs" and ws: "list_all wf_summary ?pages" by simp_all
  from fx_main_store[OF c wl ws] obtain sf' where
    m: "main fixture_transport sf = Some (Inr (), sf')"
    and st: "\<forall>pid. fx_pages (world sf') pid = fx_pages (world sf) pid \<or>
        (\<exists>p page i t. fx_pages (world sf) pid = Some p \<and> \<not> sublist MARKER (pg_body p) \<and>
           page \<in> set ?pages \<and> summary_id page = Some i \<and> pid = JStr i \<and>
           summary_title page = Some t \<and>
           fx_pages (world sf') pid =
             Some \<lparr>pg_title = t, pg_version = pg_version p + 1,
                   pg_body = ?lsc @ ''\<newline>\<newline>'' @ pg_body p\<rparr>)"
    by blast
  have same: "fx_pages (world sf') pid = Some p \<or>
             fx_pages (world sf') pid =
               Some (p\<lparr>pg_version := pg_version p + 1, pg_body := ?lsc @ ''\<newline>\<newline>'' @ pg_body p\<rparr>)"
    if agree: "\<forall>page \<in> set ?pages. \<forall>i p.
              summary_id page = Some i \<and> fx_pages (world sf) (JStr i) = Some p \<longrightarrow>
              summary_title page = Some (pg_title p)"
      and p: "fx_pages (world sf) pid = Some p" for pid p
  proof -
    from st[rule_format, of pid] show ?thesis
    proof
      assume "fx_pages (world sf') pid = fx_pages (world sf) pid"
      with p show ?thesis by simp
    next
      assume "\<exists>p page i t. fx_pages (world sf) pid = Some p \<and> \<not> sublist MARKER (pg_body p) \<and>
           page \<in> set ?pages \<and> summary_id page = Some i \<and> pid = JStr i \<and>
           summary_title page = Some t \<and>
           fx_pages (world sf') pid =
             Some \<lparr>pg_title = t, pg_version = pg_version p + 1,
                   pg_body = ?lsc @ ''\<newline>\<newline>'' @ pg_body p\<rparr>"
      then obtain page i t where pg: "page \<in> set ?pages" "summary_id page = Some i" "pid = JStr i"
        "summary_title page = Some t"
        and new: "fx_pages (world sf') pid =
             Some \<lparr>pg_title = t, pg_version = pg_version p + 1,
                   pg_body = ?lsc @ ''\<newline>\<newline>'' @ pg_body p\<rparr>"
        using p by auto
      from agree pg p have "summary_title page = Some (pg_title p)" by blast
      with pg(4) have "t = pg_title p" by simp
      with new show ?thesis by simp
    qed
  qed
  from m st same show "\<exists>sf'. main fixture_transport sf = Some (Inr (), sf') \<and>
         (\<forall>pid. fx_pages (world sf') pid = fx_pages (world sf) pid \<or>
            (\<exists>p page i t. fx_pages (world sf) pid = Some p \<and> \<not> sublist MARKER (pg_body p) \<and>
               page \<in> set ?pages \<and> summary_id page = Some i \<and> pid = JStr i \<and>
               summary_title page = Some t \<and>
               fx_pages (world sf') pid =
                 Some \<lparr>pg_title = t, pg_version = pg_version p + 1,
                       pg_body = ?lsc @ ''\<newline>\<newline>'' @ pg_body p\<rparr>)) \<and>
         ((\<forall>page \<in> set ?pages. \<forall>i p.
              summary_id page = Some i \<and> fx_pages (world sf) (JStr i) = Some p \<longrightarrow>
              summary_title page = Some (pg_title p)) \<longrightarrow>
          (\<forall>pid p. fx_pages (world sf) pid = Some p \<longrightarrow>
             fx_pages (world sf') pid = Some p \<or>
             fx_pages (world sf') pid =
               Some (p\<lparr>pg_version := pg_version p + 1,
                       pg_body := ?lsc @ ''\<newline>\<newline>'' @ pg_body p\<rparr>)))"
    by (intro exI[of _ sf'] conjI impI allI) blast+
qed

theorem updates_carry_listed_title_witness:
  "\<exists>s' p'.
     main fixture_transport (start (example_server [])) = Some (Inr (), s') \<and>
     PUT (page_url (JStr ''1001''))
       (update_payload (JStr ''Page A'')
          (create_lambda_status_section @ ''\<newline>\<newline>'' @ ''<p>old</p>'') (JInt 4)) \<in> set (sent s') \<and>
     field (update_payload (JStr ''Page A'')
          (create_lambda_status_section @ ''\<newline>\<newline>'' @ ''<p>old</p>'') (JInt 4)) ''title'' =
       Some (JStr ''Page A'') \<and>
     field (update_payload (JStr ''Page A'')
          (create_lambda_status_section @ ''\<newline>\<newline>'' @ ''<p>old</p>'') (JInt 4)) ''type'' =
       Some (JStr ''page'') \<and>
     fx_pages (world s') (JStr ''1001'') = Some p' \<and> pg_title p' = ''Page A'' \<and>
     fx_pages (world s') (JStr ''1002'') =
       Some \<lparr>pg_title = ''Page B'', pg_version = 5, pg_body = ''<h1>'' @ MARKER @ ''</h1>''\<rparr>"
proof -
  let ?s = "start (example_server [])"
  let ?payload = "update_payload (JStr ''Page A'')
           (create_lambda_status_section @ ''\<newline>\<newline>'' @ ''<p>old</p>'') (JInt 4)"
  let ?put = "PUT (page_url (JStr ''1001'')) ?payload"
  let ?pages = "concat (map results_of [example_first, example_second])"
  from example_main obtain s' where
    m: "main fixture_transport ?s = Some (Inr (), s')"
    and t: "?put \<in> set (sent s')" by auto
  note inst = updates_carry_listed_title[where T = fixture_transport and s = ?s and r = "Inr ()"
      and s' = s' and k = "Suc (Suc 0)" and sf = ?s and rs = "[example_first, example_second]"
      and fin = None and ?w1.0 = "example_server []"]
  from inst[THEN conjunct1, rule_format, OF m] obtain new where
    n: "sent s' = sent ?s @ new"
    and u: "\<forall>q \<in> set new. is_update q \<longrightarrow>
              (\<exists>pages s1 page page_id title content number.
                 get_all_pages_in_space fixture_transport SPACE_KEY
                   (print fetching_line ?s) = Some (Inr pages, s1) \<and>
                 page \<in> set pages \<and>
                 py_getitem page ''id'' = Inr page_id \<and> py_getitem page ''title'' = Inr title \<and>
                 q = PUT (page_url page_id) (update_payload title content number) \<and>
                 field (update_payload title content number) ''title'' = Some title \<and>
                 field (update_payload title content number) ''type'' = Some (JStr ''page''))"
    by blast
  from n t have new: "?put \<in> set new" "is_update ?put" by (simp_all add: start_def)
  from u \<open>?put \<in> set new\<close> \<open>is_update ?put\<close> obtain page_id title content number where
    *: "?put = PUT (page_url page_id) (update_payload title content number)"
       "field (update_payload title content number) ''title'' = Some title"
       "field (update_payload title content number) ''type'' = Some (JStr ''page'')"
    by blast
  from *(1) have pl: "update_payload title content number = ?payload" by simp
  from *(1) have "title = JStr ''Page A''" by (simp add: update_payload_def)
  with *(2,3) pl have fields: "field ?payload ''title'' = Some (JStr ''Page A'')"
    "field ?payload ''type'' = Some (JStr ''page'')" by simp_all
  have pre: "chain (Suc (Suc 0)) fixture_transport (world ?s) listing_url (listing_params SPACE_KEY) =
      Some ([example_first, example_second], None, example_server []) \<and>
    list_all wf_listing [example_first, example_second] \<and> list_all wf_summary ?pages"
    using example_chain_nofault by (simp add: start_def)
  from inst[THEN conjunct2, rule_format, OF pre] m have
    rel: "\<forall>pid. fx_pages (world s') pid = fx_pages (world ?s) pid \<or>
            (\<exists>p page i t. fx_pages (world ?s) pid = Some p \<and> \<not> sublist MARKER (pg_body p) \<and>
               page \<in> set ?pages \<and> summary_id page = Some i \<and> pid = JStr i \<and>
               summary_title page = Some t \<and>
               fx_pages (world s') pid =
                 Some \<lparr>pg_title = t, pg_version = pg_version p + 1,
                       pg_body = create_lambda_status_section @ ''\<newline>\<newline>'' @ pg_body p\<rparr>)"
    and same: "(\<forall>page \<in> set ?pages. \<forall>i p.
              summary_id page = Some i \<and> fx_pages (world ?s) (JStr i) = Some p \<longrightarrow>
              summary_title page = Some (pg_title p)) \<longrightarrow>
          (\<forall>pid p. fx_pages (world ?s) pid = Some p \<longrightarrow>
             fx_pages (world s') pid = Some p \<or>
             fx_pages (world s') pid =
               Some (p\<lparr>pg_version := pg_version p + 1,
                       pg_body := create_lambda_status_section @ ''\<newline>\<newline>'' @ pg_body p\<rparr>))"
    by auto
  have agree: "\<forall>page \<in> set ?pages. \<forall>i p.
              summary_id page = Some i \<and> fx_pages (world ?s) (JStr i) = Some p \<longrightarrow>
              summary_title page = Some (pg_title p)"
    by (auto simp: start_def)
  have a: "fx_pages (world ?s) (JStr ''1001'') =
      Some \<lparr>pg_title = ''Page A'', pg_version = 3, pg_body = ''<p>old</p>''\<rparr>"
    by (simp add: start_def)
  from mp[OF same agree, rule_format, OF a] obtain p' where
    pa: "fx_pages (world s') (JStr ''1001'') = Some p'" "pg_title p' = ''Page A''"
    by auto
  have b: "fx_pages (world ?s) (JStr ''1002'') =
      Some \<lparr>pg_title = ''Page B'', pg_version = 5, pg_body = ''<h1>'' @ MARKER @ ''</h1>''\<rparr>"
    by (simp add: start_def)
  have mb: "sublist MARKER (''<h1>'' @ MARKER @ ''</h1>'')" by (rule marker_in_page_b)
  from rel[rule_format, of "JStr ''1002''"] b mb
  have pb: "fx_pages (world s') (JStr ''1002'') =
      Some \<lparr>pg_title = ''Page B'', pg_version = 5, pg_body = ''<h1>'' @ MARKER @ ''</h1>''\<rparr>"
    by (auto simp del: marker_in_page_b marker_in_page_b_norm)
  from m t fields pa pb show ?thesis by blast
qed

end
